(* ===== verification/Rust_Prelude.thy ===== *)
theory Rust_Prelude
  imports Main "HOL-Library.Word"
begin

unbundle bit_operations_syntax

text \<open>
  The part of Rust and of its standard library that the modelled sources use, shared by every
  component of the development:
  \<^item> the machine integers (\<open>u8\<close> to \<open>u64\<close>, \<open>i32\<close>, \<open>i64\<close>) and their little-endian byte images;
  \<^item> \<open>outcome\<close>, the result of a call that may return a value, return an error, panic (an index
    out of range, a failed \<open>unwrap\<close>, a division by zero) or spin forever in a loop;
  \<^item> indexing and slicing of buffers.
  The collection \<open>outcome_simps\<close> evaluates chains of fallible calls.
\<close>

named_theorems outcome_simps "rewrite rules for chains of fallible calls"

section \<open>Machine integers\<close>

type_synonym u8 = "8 word"
type_synonym u16 = "16 word"
type_synonym u32 = "32 word"
type_synonym u64 = "64 word"
type_synonym i32 = "32 word"
type_synonym i64 = "64 word"

text \<open>\<open>to_le_bytes\<close> with the number of bytes of the type, and \<open>from_le_bytes\<close>.\<close>

primrec to_le_bytes :: "nat \<Rightarrow> 'a::len word \<Rightarrow> u8 list" where
  "to_le_bytes 0 w = []"
| "to_le_bytes (Suc n) w = ucast w # to_le_bytes n (drop_bit 8 w)"

primrec from_le_bytes :: "u8 list \<Rightarrow> 'a::len word" where
  "from_le_bytes [] = 0"
| "from_le_bytes (b # bs) = ucast b OR push_bit 8 (from_le_bytes bs)"

lemma length_to_le_bytes [simp]: "length (to_le_bytes n w) = n"
  by (induction n arbitrary: w) simp_all

lemma to_le_bytes_eq_Nil [simp]: "to_le_bytes n w = [] \<longleftrightarrow> n = 0"
  by (cases n) simp_all

lemma from_to_le_bytes_take: "from_le_bytes (to_le_bytes n w) = take_bit (8 * n) w"
proof (induction n arbitrary: w)
  case 0
  then show ?case by simp
next
  case (Suc n)
  show ?case
  proof (rule bit_word_eqI)
    fix k assume "k < LENGTH('a)"
    then show "bit (from_le_bytes (to_le_bytes (Suc n) w) :: 'a word) k
             \<longleftrightarrow> bit (take_bit (8 * Suc n) w) k"
      by (auto simp: Suc bit_simps)
  qed
qed

lemma from_to_le_bytes:
  assumes "LENGTH('a::len) \<le> 8 * n"
  shows "from_le_bytes (to_le_bytes n (w :: 'a word)) = w"
  using assms by (simp add: from_to_le_bytes_take take_bit_word_eq_self)

lemma from_to_le_bytes_u8 [simp]: "from_le_bytes (to_le_bytes (Suc 0) (w :: u8)) = w"
  and from_to_le_bytes_u16 [simp]: "from_le_bytes (to_le_bytes 2 (v :: u16)) = v"
  and from_to_le_bytes_u32 [simp]: "from_le_bytes (to_le_bytes 4 (x :: u32)) = x"
  and from_to_le_bytes_u64 [simp]: "from_le_bytes (to_le_bytes 8 (y :: u64)) = y"
  by (simp_all add: from_to_le_bytes del: to_le_bytes.simps)

lemma unat_of_nat_u32 [simp]: "n < 2 ^ 32 \<Longrightarrow> unat (of_nat n :: u32) = n"
  by (simp add: unsigned_of_nat take_bit_nat_eq_self)

lemma unat_of_nat_u8: "n < 256 \<Longrightarrow> unat (of_nat n :: u8) = n"
  by (simp add: unsigned_of_nat take_bit_nat_eq_self)

lemma and_not_7: "unat ((of_nat m :: u64) AND NOT 7) = m div 8 * 8" if "m < 2 ^ 64"
proof -
  have 7: "(7 :: u64) = mask 3" by (simp add: mask_eq_exp_minus_1)
  have "(of_nat m :: u64) AND NOT (mask 3) = push_bit 3 (drop_bit 3 (of_nat m))"
    by (rule bit_word_eqI) (auto simp: bit_simps not_less)
  then have "unat ((of_nat m :: u64) AND NOT 7) = take_bit 64 (push_bit 3 (drop_bit 3 (take_bit 64 m)))"
    by (simp only: 7 unsigned_push_bit_eq unsigned_drop_bit_eq unsigned_of_nat) (simp add: take_bit_drop_bit)
  moreover have "m div 8 * 8 < 2 ^ 64"
    using that by (meson div_times_less_eq_dividend le_less_trans)
  ultimately show ?thesis
    using that by (simp add: take_bit_nat_eq_self push_bit_eq_mult drop_bit_eq_div)
qed

lemma round_up_8: "(n + 7) div 8 * 8 = n + (8 - n mod 8) mod (8::nat)"
proof -
  obtain q r where n: "n = 8 * q + r" "r < 8"
    by (metis mult_div_mod_eq mod_less_divisor zero_less_numeral)
  show ?thesis
  proof (cases "r = 0")
    case False
    then have "(n + 7) div 8 = q + 1" "(8 - n mod 8) mod 8 = 8 - r" using n by simp_all
    then show ?thesis using n by simp
  qed (simp add: n)
qed

lemma ucast_u32_u64 [simp]: "(ucast (ucast (x :: u32) :: u64) :: u32) = x"
  by (rule bit_word_eqI) (simp add: bit_simps)

lemma ucast_u64_eq [simp]: "(ucast (x :: u32) :: u64) = ucast y \<longleftrightarrow> x = y"
  by (metis ucast_u32_u64)

lemma sint_eq_uint_32: "sint (x :: u32) = uint x" if "uint x < 2 ^ 31"
proof -
  have "- (2 ^ 31) \<le> uint x" by (rule order_trans [OF _ unsigned_greater_eq]) simp
  then show ?thesis using that
    by (simp add: sint_uint signed_take_bit_int_eq_self)
qed

lemma scast_u32_small: "(scast (x :: u32) :: u64) = ucast x" if "uint x < 2 ^ 31"
  using sint_eq_uint_32 [OF that] by (metis of_int_sint of_int_uint)

lemma uint_of_sint_64: "uint (m :: u64) = sint m" if "0 \<le> sint m"
proof -
  have "uint m = sint m mod 2 ^ 64" by (simp add: uint_sint take_bit_eq_mod)
  moreover have "sint m < 2 ^ 64" using sint_lt [of m] by simp
  ultimately show ?thesis using that by simp
qed

lemma ucast_eq_scast_iff: "(ucast (v :: u32) :: u64) = scast (ucast (m :: u64) :: u32) \<longleftrightarrow> sint m = uint v"
  if "0 \<le> sint m" "sint m < 2 ^ 31"
proof -
  have u: "uint (ucast m :: u32) = sint m"
    using that uint_of_sint_64 [of m] by (simp add: unsigned_ucast_eq take_bit_int_eq_self)
  then have "(scast (ucast m :: u32) :: u64) = ucast (ucast m :: u32)"
    using that by (intro scast_u32_small) simp
  moreover have "(ucast v :: u64) = ucast (ucast m :: u32) \<longleftrightarrow> uint v = uint (ucast m :: u32)"
    by (simp add: word_eq_iff_unsigned)
  ultimately show ?thesis using u by auto
qed

section \<open>Outcomes of fallible calls\<close>

datatype ('e, 'a) outcome = Ok 'a | Err 'e | Panic | Diverge

primrec bind_outcome :: "('e, 'a) outcome \<Rightarrow> ('a \<Rightarrow> ('e, 'b) outcome) \<Rightarrow> ('e, 'b) outcome" where
  "bind_outcome (Ok x) f = f x"
| "bind_outcome (Err e) f = Err e"
| "bind_outcome Panic f = Panic"
| "bind_outcome Diverge f = Diverge"

text \<open>\<open>Result::map_err\<close>, and the early return that a guard makes.\<close>

primrec map_err :: "('e \<Rightarrow> 'f) \<Rightarrow> ('e, 'a) outcome \<Rightarrow> ('f, 'a) outcome" where
  "map_err h (Ok x) = Ok x"
| "map_err h (Err e) = Err (h e)"
| "map_err h Panic = Panic"
| "map_err h Diverge = Diverge"

primrec ok_or :: "'e \<Rightarrow> 'a option \<Rightarrow> ('e, 'a) outcome" where
  "ok_or e None = Err e"
| "ok_or e (Some x) = Ok x"

primrec unwrap :: "'a option \<Rightarrow> ('e, 'a) outcome" where
  "unwrap None = Panic"
| "unwrap (Some x) = Ok x"

definition map_outcome :: "('a \<Rightarrow> 'b) \<Rightarrow> ('e, 'a) outcome \<Rightarrow> ('e, 'b) outcome" where
  "map_outcome h r = bind_outcome r (\<lambda>x. Ok (h x))"

lemma map_outcome_simps [simp]:
  "map_outcome h (Ok x) = Ok (h x)" "map_outcome h (Err e) = Err e"
  "map_outcome h Panic = Panic" "map_outcome h Diverge = Diverge"
  by (simp_all add: map_outcome_def)

definition is_ok :: "('e, 'a) outcome \<Rightarrow> bool" where
  "is_ok r \<longleftrightarrow> (case r of Ok _ \<Rightarrow> True | _ \<Rightarrow> False)"

definition is_err :: "('e, 'a) outcome \<Rightarrow> bool" where
  "is_err r \<longleftrightarrow> (case r of Err _ \<Rightarrow> True | _ \<Rightarrow> False)"

lemma bind_outcome_eq_Ok [outcome_simps]:
  "bind_outcome m f = Ok y \<longleftrightarrow> (\<exists>x. m = Ok x \<and> f x = Ok y)"
  by (cases m) auto

lemma bind_outcome_eq_Err [outcome_simps]:
  "bind_outcome m f = Err e \<longleftrightarrow> m = Err e \<or> (\<exists>x. m = Ok x \<and> f x = Err e)"
  by (cases m) auto

lemma bind_outcome_eq_Panic [outcome_simps]:
  "bind_outcome m f = Panic \<longleftrightarrow> m = Panic \<or> (\<exists>x. m = Ok x \<and> f x = Panic)"
  by (cases m) auto

lemma bind_outcome_eq_Diverge [outcome_simps]:
  "bind_outcome m f = Diverge \<longleftrightarrow> m = Diverge \<or> (\<exists>x. m = Ok x \<and> f x = Diverge)"
  by (cases m) auto

lemma map_err_eq [outcome_simps]:
  "map_err h m = Ok x \<longleftrightarrow> m = Ok x"
  "map_err h m = Panic \<longleftrightarrow> m = Panic"
  "map_err h m = Diverge \<longleftrightarrow> m = Diverge"
  "map_err h m = Err e \<longleftrightarrow> (\<exists>e'. m = Err e' \<and> e = h e')"
  by (cases m; auto)+

lemma ok_or_eq [outcome_simps]:
  "ok_or e m = Ok x \<longleftrightarrow> m = Some x"
  "ok_or e m = Err e' \<longleftrightarrow> m = None \<and> e' = e"
  "ok_or e m \<noteq> Panic" "ok_or e m \<noteq> Diverge"
  by (cases m; auto)+

lemma unwrap_eq [outcome_simps]:
  "unwrap m = Ok x \<longleftrightarrow> m = Some x"
  "unwrap m = Panic \<longleftrightarrow> m = None"
  "unwrap m \<noteq> Err e" "unwrap m \<noteq> Diverge"
  by (cases m; auto)+

lemma bind_outcome_assoc:
  "bind_outcome (bind_outcome m f) g = bind_outcome m (\<lambda>x. bind_outcome (f x) g)"
  by (cases m) auto

lemma bind_outcome_cong [fundef_cong]:
  "m = m' \<Longrightarrow> (\<And>x. m' = Ok x \<Longrightarrow> f x = f' x) \<Longrightarrow> bind_outcome m f = bind_outcome m' f'"
  by (cases m') auto

text \<open>Indexing and slicing a byte buffer: both panic out of range.\<close>

definition index_at :: "'a list \<Rightarrow> nat \<Rightarrow> ('e, 'a) outcome" where
  "index_at xs i = (if i < length xs then Ok (xs ! i) else Panic)"

definition slice_range :: "'a list \<Rightarrow> nat \<Rightarrow> nat \<Rightarrow> ('e, 'a list) outcome" where
  "slice_range xs i j = (if i \<le> j \<and> j \<le> length xs then Ok (take (j - i) (drop i xs)) else Panic)"

lemma index_append_right [simp]: "index_at (xs @ y # ys) (length xs) = Ok y"
  by (simp add: index_at_def)

lemma slice_middle:
  "i = length xs \<Longrightarrow> j = length xs + length ys \<Longrightarrow> slice_range (xs @ ys @ zs) i j = Ok ys"
  by (simp add: slice_range_def)

section \<open>Reasoning about long chains of calls\<close>

text \<open>
  \<open>ok_all P r\<close>: if \<open>r\<close> returns a value, the value satisfies \<open>P\<close>. \<open>ok_le r r'\<close>: if \<open>r\<close> returns a value,
  \<open>r'\<close> returns the same. The introduction rules walk down a chain of calls without expanding it.
\<close>

definition ok_all :: "('a \<Rightarrow> bool) \<Rightarrow> ('e, 'a) outcome \<Rightarrow> bool" where
  "ok_all P r \<longleftrightarrow> (\<forall>x. r = Ok x \<longrightarrow> P x)"

lemma ok_all_bind: "(\<And>x. m = Ok x \<Longrightarrow> ok_all P (f x)) \<Longrightarrow> ok_all P (bind_outcome m f)"
  by (cases m) (simp_all add: ok_all_def)

lemma ok_all_if: "(b \<Longrightarrow> ok_all P r) \<Longrightarrow> (\<not> b \<Longrightarrow> ok_all P r') \<Longrightarrow> ok_all P (if b then r else r')"
  by simp

lemma ok_all_Err: "ok_all P (Err e)"
  by (simp add: ok_all_def)

lemma ok_all_Ok: "P x \<Longrightarrow> ok_all P (Ok x)"
  by (simp add: ok_all_def)

lemma ok_all_prod: "(\<And>a b. p = (a, b) \<Longrightarrow> ok_all P (f a b)) \<Longrightarrow> ok_all P (case p of (a, b) \<Rightarrow> f a b)"
  by (cases p) simp

lemma ok_allD: "ok_all P r \<Longrightarrow> r = Ok x \<Longrightarrow> P x"
  by (simp add: ok_all_def)

lemmas ok_all_intros = ok_all_bind ok_all_if ok_all_Err ok_all_Ok ok_all_prod

definition ok_le :: "('e, 'a) outcome \<Rightarrow> ('e, 'a) outcome \<Rightarrow> bool" where
  "ok_le r r' \<longleftrightarrow> (\<forall>x. r = Ok x \<longrightarrow> r' = Ok x)"

lemma ok_le_refl: "ok_le r r"
  by (simp add: ok_le_def)

lemma ok_le_bind:
  "ok_le m m' \<Longrightarrow> (\<And>x. ok_le (f x) (f' x)) \<Longrightarrow> ok_le (bind_outcome m f) (bind_outcome m' f')"
  by (cases m) (simp_all add: ok_le_def)

lemma ok_le_guard:
  "(\<not> b \<Longrightarrow> \<not> b') \<Longrightarrow> ok_le r r' \<Longrightarrow> ok_le (if b then Err e else r) (if b' then Err e' else r')"
  by (simp add: ok_le_def)

lemma ok_le_prod: "(\<And>a b. ok_le (f a b) (f' a b)) \<Longrightarrow> ok_le (case p of (a, b) \<Rightarrow> f a b) (case p of (a, b) \<Rightarrow> f' a b)"
  by (cases p) simp

lemma ok_leD: "ok_le r r' \<Longrightarrow> r = Ok x \<Longrightarrow> r' = Ok x"
  by (simp add: ok_le_def)

lemma ok_le_index_at: "ok_le (index_at buf i) (index_at (buf @ post) i)"
  by (simp add: ok_le_def index_at_def nth_append)

lemma ok_le_slice_range: "ok_le (slice_range buf i j) (slice_range (buf @ post) i j)"
  by (simp add: ok_le_def slice_range_def)

lemmas ok_le_intros = ok_le_bind ok_le_guard ok_le_prod ok_le_index_at ok_le_slice_range

section \<open>Calls that change a state\<close>

text \<open>A call that threads a state: the early return of \<open>?\<close> keeps the state it happened in.\<close>

type_synonym ('s, 'e, 'a) st = "'s \<Rightarrow> ('e, 'a) outcome \<times> 's"

definition st_return :: "'a \<Rightarrow> ('s, 'e, 'a) st" where
  "st_return x s = (Ok x, s)"

definition st_fail :: "'e \<Rightarrow> ('s, 'e, 'a) st" where
  "st_fail e s = (Err e, s)"

definition st_lift :: "('e, 'a) outcome \<Rightarrow> ('s, 'e, 'a) st" where
  "st_lift r s = (r, s)"

definition st_bind :: "('s, 'e, 'a) st \<Rightarrow> ('a \<Rightarrow> ('s, 'e, 'b) st) \<Rightarrow> ('s, 'e, 'b) st" where
  "st_bind m f s =
     (case m s of
        (Ok x, s') \<Rightarrow> f x s'
      | (Err e, s') \<Rightarrow> (Err e, s')
      | (Panic, s') \<Rightarrow> (Panic, s')
      | (Diverge, s') \<Rightarrow> (Diverge, s'))"

definition st_map_err :: "('e \<Rightarrow> 'f) \<Rightarrow> ('s, 'e, 'a) st \<Rightarrow> ('s, 'f, 'a) st" where
  "st_map_err h m s = (case m s of (r, s') \<Rightarrow> (map_err h r, s'))"

text \<open>A \<open>for\<close> loop over a list.\<close>

fun st_for :: "('a \<Rightarrow> ('s, 'e, unit) st) \<Rightarrow> 'a list \<Rightarrow> ('s, 'e, unit) st" where
  "st_for f [] = st_return ()"
| "st_for f (x # xs) = st_bind (f x) (\<lambda>_. st_for f xs)"

lemma st_bind_eq_Ok [outcome_simps]:
  "st_bind m f s = (Ok y, s') \<longleftrightarrow> (\<exists>x s1. m s = (Ok x, s1) \<and> f x s1 = (Ok y, s'))"
  by (auto simp: st_bind_def split: prod.splits outcome.splits)

lemma st_bind_eq_Err:
  "st_bind m f s = (Err e, s') \<longleftrightarrow> m s = (Err e, s') \<or> (\<exists>x s1. m s = (Ok x, s1) \<and> f x s1 = (Err e, s'))"
  by (auto simp: st_bind_def split: prod.splits outcome.splits)

lemma st_return_eq [outcome_simps]:
  "st_return x s = (r, s') \<longleftrightarrow> r = Ok x \<and> s' = s"
  by (auto simp: st_return_def)

lemma st_fail_eq [outcome_simps]: "st_fail e s = (r, s') \<longleftrightarrow> r = Err e \<and> s' = s"
  by (auto simp: st_fail_def)

lemma st_lift_eq [outcome_simps]: "st_lift q s = (r, s') \<longleftrightarrow> q = r \<and> s' = s"
  by (auto simp: st_lift_def)

lemma st_map_err_eq_Ok [outcome_simps]: "st_map_err h m s = (Ok x, s') \<longleftrightarrow> m s = (Ok x, s')"
  by (auto simp: st_map_err_def map_err_eq split: prod.splits)

lemma st_map_err_eq_Err: "st_map_err h m s = (Err e, s') \<longleftrightarrow> (\<exists>e'. m s = (Err e', s') \<and> e = h e')"
  by (auto simp: st_map_err_def map_err_eq split: prod.splits)

lemma st_bind_post:
  assumes "\<And>r s'. m s = (r, s') \<Longrightarrow> P s'" and "\<And>x s'. m s = (Ok x, s') \<Longrightarrow> P (snd (f x s'))"
  shows "P (snd (st_bind m f s))"
  using assms by (auto simp: st_bind_def split: prod.splits outcome.splits)

lemma st_bind_assoc: "st_bind (st_bind m f) g = st_bind m (\<lambda>x. st_bind (f x) g)"
  by (auto simp: fun_eq_iff st_bind_def split: prod.splits outcome.splits)

text \<open>
  An invariant that every step of a call preserves, whatever way it ends.
\<close>

definition st_keeps :: "('s \<Rightarrow> bool) \<Rightarrow> ('s, 'e, 'a) st \<Rightarrow> bool" where
  "st_keeps I m \<longleftrightarrow> (\<forall>s. I s \<longrightarrow> I (snd (m s)))"

lemma st_keeps_return: "st_keeps I (st_return x)" and st_keeps_fail: "st_keeps I (st_fail e)"
  and st_keeps_lift: "st_keeps I (st_lift r)"
  by (simp_all add: st_keeps_def st_return_def st_fail_def st_lift_def)

lemma st_keeps_bind: "st_keeps I m \<Longrightarrow> (\<And>x. st_keeps I (f x)) \<Longrightarrow> st_keeps I (st_bind m f)"
  unfolding st_keeps_def st_bind_def by (auto split: prod.splits outcome.splits)

lemma st_keeps_if: "(b \<Longrightarrow> st_keeps I m) \<Longrightarrow> (\<not> b \<Longrightarrow> st_keeps I m') \<Longrightarrow> st_keeps I (if b then m else m')"
  by simp

lemma st_keeps_map_err: "st_keeps I m \<Longrightarrow> st_keeps I (st_map_err h m)"
  unfolding st_keeps_def st_map_err_def by (auto split: prod.splits)

lemma st_keeps_for: "(\<And>x. x \<in> set xs \<Longrightarrow> st_keeps I (f x)) \<Longrightarrow> st_keeps I (st_for f xs)"
  by (induction xs) (auto intro: st_keeps_return st_keeps_bind)

lemmas st_keeps_intros = st_keeps_return st_keeps_fail st_keeps_lift st_keeps_bind st_keeps_if
  st_keeps_map_err st_keeps_for

end
