(* ===== verification/Rust_Strings.thy ===== *)
theory Rust_Strings
  imports Rust_Prelude "HOL-Library.Sublist"
begin

text \<open>
  Rust strings as UTF-8 byte strings (an Isabelle \<open>char\<close> is a byte): the validity test of
  \<open>String::from_utf8\<close>, and the operations \<open>split\<close>, \<open>split_terminator\<close>, \<open>split_once\<close>, \<open>trim\<close>,
  \<open>lines\<close>, \<open>split_whitespace\<close>, \<open>parse\<close> and \<open>to_string\<close> of the standard library as the sources call
  them, with the laws the components share: splitting and joining are inverse, a printed number
  parses back, and the parsers neither panic nor diverge.
\<close>

text \<open>
  A Rust \<open>String\<close> is its UTF-8 byte string. \<open>utf8_valid\<close> is the test of \<open>String::from_utf8\<close>,
  byte class by byte class.
\<close>

definition utf8_cont :: "u8 \<Rightarrow> bool" where
  "utf8_cont b \<longleftrightarrow> 0x80 \<le> b \<and> b \<le> 0xBF"

fun utf8_valid :: "u8 list \<Rightarrow> bool" where
  "utf8_valid [] = True"
| "utf8_valid (b # bs) =
     (if b < 0x80 then utf8_valid bs
      else if 0xC2 \<le> b \<and> b \<le> 0xDF then
        (case bs of c1 # cs \<Rightarrow> utf8_cont c1 \<and> utf8_valid cs | _ \<Rightarrow> False)
      else if 0xE0 \<le> b \<and> b \<le> 0xEF then
        (case bs of c1 # c2 # cs \<Rightarrow>
           (if b = 0xE0 then 0xA0 \<le> c1 \<and> c1 \<le> 0xBF
            else if b = 0xED then 0x80 \<le> c1 \<and> c1 \<le> 0x9F else utf8_cont c1)
           \<and> utf8_cont c2 \<and> utf8_valid cs
         | _ \<Rightarrow> False)
      else if 0xF0 \<le> b \<and> b \<le> 0xF4 then
        (case bs of c1 # c2 # c3 # cs \<Rightarrow>
           (if b = 0xF0 then 0x90 \<le> c1 \<and> c1 \<le> 0xBF
            else if b = 0xF4 then 0x80 \<le> c1 \<and> c1 \<le> 0x8F else utf8_cont c1)
           \<and> utf8_cont c2 \<and> utf8_cont c3 \<and> utf8_valid cs
         | _ \<Rightarrow> False)
      else False)"

definition as_bytes :: "string \<Rightarrow> u8 list" where
  "as_bytes s = map (\<lambda>c. of_nat (of_char c)) s"

definition of_bytes :: "u8 list \<Rightarrow> string" where
  "of_bytes bs = map (\<lambda>b. char_of (unat b)) bs"

definition from_utf8 :: "u8 list \<Rightarrow> string option" where
  "from_utf8 bs = (if utf8_valid bs then Some (of_bytes bs) else None)"

definition wf_str :: "string \<Rightarrow> bool" where
  "wf_str s \<longleftrightarrow> utf8_valid (as_bytes s)"

lemma length_as_bytes [simp]: "length (as_bytes s) = length s"
  by (simp add: as_bytes_def)

lemma of_char_less_256: "(of_char c :: nat) < 256"
  by (metis char_of_char of_char_of mod_less_divisor zero_less_numeral)

lemma of_bytes_as_bytes [simp]: "of_bytes (as_bytes s) = s"
  by (simp add: as_bytes_def of_bytes_def comp_def unat_of_nat_u8 of_char_less_256 map_idI)

lemma from_utf8_as_bytes [simp]: "wf_str s \<Longrightarrow> from_utf8 (as_bytes s) = Some s"
  by (simp add: from_utf8_def wf_str_def)

lemma wf_str_ascii: "list_all (\<lambda>c. (of_char c :: nat) < 128) s \<Longrightarrow> wf_str s"
proof (induction s)
  case (Cons c s)
  then have "(of_nat (of_char c) :: u8) < 128"
    by (simp add: word_less_nat_alt unat_of_nat_u8)
  with Cons show ?case by (simp add: wf_str_def as_bytes_def)
qed (simp add: wf_str_def as_bytes_def)

text \<open>
  \<open>String::from_utf8_lossy\<close>: the longest prefix of a well-formed sequence that breaks off becomes one
  replacement character. \<open>utf8_step\<close> gives the length of the sequence at the front and whether it is
  complete.
\<close>

definition utf8_step :: "u8 list \<Rightarrow> nat \<times> bool" where
  "utf8_step bs =
     (case bs of
        [] \<Rightarrow> (0, True)
      | b # cs \<Rightarrow>
          (let c1 = (\<lambda>lo hi. 1 \<le> length cs \<and> lo \<le> cs ! 0 \<and> cs ! 0 \<le> hi);
               c2 = (2 \<le> length cs \<and> utf8_cont (cs ! 1));
               c3 = (3 \<le> length cs \<and> utf8_cont (cs ! 2))
           in if b < 0x80 then (1, True)
              else if 0xC2 \<le> b \<and> b \<le> 0xDF then (if c1 0x80 0xBF then (2, True) else (1, False))
              else if 0xE0 \<le> b \<and> b \<le> 0xEF then
                (if \<not> c1 (if b = 0xE0 then 0xA0 else 0x80) (if b = 0xED then 0x9F else 0xBF) then (1, False)
                 else if c2 then (3, True) else (2, False))
              else if 0xF0 \<le> b \<and> b \<le> 0xF4 then
                (if \<not> c1 (if b = 0xF0 then 0x90 else 0x80) (if b = 0xF4 then 0x8F else 0xBF) then (1, False)
                 else if \<not> c2 then (2, False) else if c3 then (4, True) else (3, False))
              else (1, False)))"

lemma utf8_step_pos: "bs \<noteq> [] \<Longrightarrow> 0 < fst (utf8_step bs)"
  by (auto simp: utf8_step_def Let_def split: list.splits)

function from_utf8_lossy :: "u8 list \<Rightarrow> string" where
  "from_utf8_lossy bs =
     (if bs = [] then []
      else let (n, ok) = utf8_step bs
           in (if ok then of_bytes (take n bs) else map char_of [0xEF :: nat, 0xBF, 0xBD])
              @ from_utf8_lossy (drop n bs))"
  by pat_completeness auto
termination
proof (relation "measure length")
  fix bs :: "u8 list" and p n ok
  assume "bs \<noteq> []" and "p = utf8_step bs" and "(n, ok) = p"
  then show "(drop n bs, bs) \<in> measure length"
    using utf8_step_pos [of bs] by (cases "utf8_step bs") auto
qed simp

declare from_utf8_lossy.simps [simp del]

subsection \<open>Splitting and trimming\<close>

fun split_on :: "char \<Rightarrow> string \<Rightarrow> string list" where
  "split_on c [] = [[]]"
| "split_on c (x # xs) =
     (if x = c then [] # split_on c xs
      else case split_on c xs of p # ps \<Rightarrow> (x # p) # ps | [] \<Rightarrow> [[x]])"

definition split_terminator :: "char \<Rightarrow> string \<Rightarrow> string list" where
  "split_terminator c s =
     (let ps = split_on c s in if last ps = [] then butlast ps else ps)"

fun split_once :: "char \<Rightarrow> string \<Rightarrow> (string \<times> string) option" where
  "split_once c [] = None"
| "split_once c (x # xs) =
     (if x = c then Some ([], xs)
      else case split_once c xs of None \<Rightarrow> None | Some (a, b) \<Rightarrow> Some (x # a, b))"

fun join_with :: "string \<Rightarrow> string list \<Rightarrow> string" where
  "join_with sep [] = []"
| "join_with sep [p] = p"
| "join_with sep (p # q # ps) = p @ sep @ join_with sep (q # ps)"

lemma split_on_not_Nil [simp]: "split_on c s \<noteq> []"
  by (cases s) (auto split: list.splits)

lemma split_on_no_sep: "c \<notin> set s \<Longrightarrow> split_on c s = [s]"
  by (induction s) auto

lemma split_on_append: "c \<notin> set a \<Longrightarrow> split_on c (a @ c # b) = a # split_on c b"
  by (induction a) auto

lemma split_on_parts_no_sep: "p \<in> set (split_on c s) \<Longrightarrow> c \<notin> set p"
proof (induction s arbitrary: p)
  case (Cons x xs)
  then show ?case
    by (cases "split_on c xs") (auto split: if_splits)
qed simp

lemma join_split_on: "join_with [c] (split_on c s) = s"
proof (induction s)
  case (Cons x xs)
  show ?case
  proof (cases "split_on c xs")
    case (Cons p ps)
    with Cons.IH show ?thesis by (cases ps) auto
  qed simp
qed simp

lemma split_on_join:
  "ps \<noteq> [] \<Longrightarrow> \<forall>p \<in> set ps. c \<notin> set p \<Longrightarrow> split_on c (join_with [c] ps) = ps"
  by (induction "[c]" ps rule: join_with.induct) (auto simp: split_on_no_sep split_on_append)

lemma split_once_Some: "split_once c s = Some (a, b) \<Longrightarrow> s = a @ c # b \<and> c \<notin> set a"
  by (induction s arbitrary: a b) (auto split: if_splits option.splits)

lemma split_once_None: "split_once c s = None \<longleftrightarrow> c \<notin> set s"
  by (induction s) (auto split: option.splits)

lemma split_once_append: "c \<notin> set a \<Longrightarrow> split_once c (a @ c # b) = Some (a, b)"
  by (induction a) auto

text \<open>
  The white space of \<open>char::is_whitespace\<close> (Unicode \<open>White_Space\<close>), each code point as its UTF-8
  bytes. On a valid string a byte sequence of this list stands only where that code point does.
\<close>

definition ws_chars :: "string list" where
  "ws_chars = map (map char_of)
     [[9 :: nat], [10], [11], [12], [13], [32], [0xC2, 0x85], [0xC2, 0xA0], [0xE1, 0x9A, 0x80],
      [0xE2, 0x80, 0x80], [0xE2, 0x80, 0x81], [0xE2, 0x80, 0x82], [0xE2, 0x80, 0x83],
      [0xE2, 0x80, 0x84], [0xE2, 0x80, 0x85], [0xE2, 0x80, 0x86], [0xE2, 0x80, 0x87],
      [0xE2, 0x80, 0x88], [0xE2, 0x80, 0x89], [0xE2, 0x80, 0x8A], [0xE2, 0x80, 0xA8],
      [0xE2, 0x80, 0xA9], [0xE2, 0x80, 0xAF], [0xE2, 0x81, 0x9F], [0xE3, 0x80, 0x80]]"

definition ws_prefix_len :: "string list \<Rightarrow> string \<Rightarrow> nat" where
  "ws_prefix_len ws s = (case find (\<lambda>w. prefix w s) ws of None \<Rightarrow> 0 | Some w \<Rightarrow> length w)"

function strip_ws :: "string list \<Rightarrow> string \<Rightarrow> string" where
  "strip_ws ws s =
     (let n = ws_prefix_len ws s in if n = 0 \<or> s = [] then s else strip_ws ws (drop n s))"
  by pat_completeness auto
termination
  by (relation "measure (\<lambda>(ws, s). length s)") auto

declare strip_ws.simps [simp del]

definition trim_start :: "string \<Rightarrow> string" where
  "trim_start s = strip_ws ws_chars s"

definition trim_end :: "string \<Rightarrow> string" where
  "trim_end s = rev (strip_ws (map rev ws_chars) (rev s))"

definition trim :: "string \<Rightarrow> string" where
  "trim s = trim_end (trim_start s)"

text \<open>\<open>trim_start_matches\<close> and \<open>trim_end_matches\<close> with a string pattern strip it as often as it occurs.\<close>

definition trim_start_matches :: "string \<Rightarrow> string \<Rightarrow> string" where
  "trim_start_matches p s = strip_ws [p] s"

definition trim_end_matches :: "string \<Rightarrow> string \<Rightarrow> string" where
  "trim_end_matches p s = rev (strip_ws [rev p] (rev s))"

definition ascii_ws :: "char \<Rightarrow> bool" where
  "ascii_ws c \<longleftrightarrow> c \<in> {CHR 0x09, CHR 0x0A, CHR 0x0C, CHR 0x0D, CHR '' ''}"

fun words_by :: "(char \<Rightarrow> bool) \<Rightarrow> string \<Rightarrow> string \<Rightarrow> string list" where
  "words_by p acc [] = (if acc = [] then [] else [rev acc])"
| "words_by p acc (x # xs) =
     (if p x then (if acc = [] then words_by p [] xs else rev acc # words_by p [] xs)
      else words_by p (x # acc) xs)"

definition split_ascii_whitespace :: "string \<Rightarrow> string list" where
  "split_ascii_whitespace s = words_by ascii_ws [] s"

function words_ws :: "string \<Rightarrow> string \<Rightarrow> string list" where
  "words_ws acc s =
     (case s of
        [] \<Rightarrow> (if acc = [] then [] else [rev acc])
      | x # xs \<Rightarrow>
          (let n = ws_prefix_len ws_chars s in
           if n = 0 then words_ws (x # acc) xs
           else (if acc = [] then [] else [rev acc]) @ words_ws [] (drop n s)))"
  by pat_completeness auto
termination
  by (relation "measure (\<lambda>(acc, s). length s)") auto

declare words_ws.simps [simp del]

definition split_whitespace :: "string \<Rightarrow> string list" where
  "split_whitespace s = words_ws [] s"

text \<open>\<open>str::lines\<close>: a line ends at a line feed, and a carriage return right before it is dropped.\<close>

definition strip_cr :: "string \<Rightarrow> string" where
  "strip_cr l = (if l \<noteq> [] \<and> last l = CHR 0x0D then butlast l else l)"

definition str_lines :: "string \<Rightarrow> string list" where
  "str_lines s =
     (let ps = split_on (CHR 0x0A) s
      in map strip_cr (butlast ps) @ (if last ps = [] then [] else [last ps]))"

text \<open>\<open>str::chars\<close>, each character as its encoding.\<close>

definition continues :: "char \<Rightarrow> bool" where
  "continues c \<longleftrightarrow> (of_char c :: nat) div 64 = 2"

function str_chars :: "string \<Rightarrow> string list" where
  "str_chars [] = []"
| "str_chars (c # cs) = (c # takeWhile continues cs) # str_chars (dropWhile continues cs)"
  by pat_completeness auto
termination
  by (relation "measure length") (auto simp: le_imp_less_Suc length_dropWhile_le)

text \<open>\<open>str::replace\<close> with characters.\<close>

definition replace_char :: "char \<Rightarrow> char \<Rightarrow> string \<Rightarrow> string" where
  "replace_char a b s = map (\<lambda>c. if c = a then b else c) s"

subsection \<open>Printing and parsing integers\<close>

datatype int_error = Empty | InvalidDigit | PosOverflow | NegOverflow

definition digit_val :: "char \<Rightarrow> nat option" where
  "digit_val c =
     (let n = of_char c in if 48 \<le> n \<and> n \<le> 57 then Some (n - 48) else None)"

fun nat_to_string :: "nat \<Rightarrow> string" where
  "nat_to_string n =
     (if n < 10 then [char_of (48 + n)] else nat_to_string (n div 10) @ [char_of (48 + n mod 10)])"

declare nat_to_string.simps [simp del]

definition int_to_string :: "int \<Rightarrow> string" where
  "int_to_string i = (if i < 0 then CHR ''-'' # nat_to_string (nat (- i)) else nat_to_string (nat i))"

text \<open>The digit loop of \<open>from_str\<close> for a type whose largest value is \<open>mx\<close>.\<close>

fun parse_digits :: "nat \<Rightarrow> int_error \<Rightarrow> nat \<Rightarrow> string \<Rightarrow> (int_error, nat) outcome" where
  "parse_digits mx ovf acc [] = Ok acc"
| "parse_digits mx ovf acc (c # cs) =
     (case digit_val c of
        None \<Rightarrow> Err InvalidDigit
      | Some d \<Rightarrow>
          if mx < acc * 10 \<or> mx < acc * 10 + d then Err ovf
          else parse_digits mx ovf (acc * 10 + d) cs)"

definition parse_uint :: "nat \<Rightarrow> string \<Rightarrow> (int_error, nat) outcome" where
  "parse_uint mx s =
     (if s = [] then Err Empty
      else if s = ''+'' then Err InvalidDigit
      else if hd s = CHR ''+'' then parse_digits mx PosOverflow 0 (tl s)
      else parse_digits mx PosOverflow 0 s)"

definition parse_sint :: "nat \<Rightarrow> string \<Rightarrow> (int_error, int) outcome" where
  "parse_sint mx s =
     (if s = [] then Err Empty
      else if s = ''+'' \<or> s = ''-'' then Err InvalidDigit
      else if hd s = CHR ''-'' then
        bind_outcome (parse_digits (Suc mx) NegOverflow 0 (tl s)) (\<lambda>n. Ok (- int n))
      else if hd s = CHR ''+'' then
        bind_outcome (parse_digits mx PosOverflow 0 (tl s)) (\<lambda>n. Ok (int n))
      else bind_outcome (parse_digits mx PosOverflow 0 s) (\<lambda>n. Ok (int n)))"

abbreviation "parse_u8 \<equiv> parse_uint (2 ^ 8 - 1)"
abbreviation "parse_u32 \<equiv> parse_uint (2 ^ 32 - 1)"
abbreviation "parse_u64 \<equiv> parse_uint (2 ^ 64 - 1)"
abbreviation "parse_usize \<equiv> parse_uint (2 ^ 64 - 1)"
abbreviation "parse_i32 \<equiv> parse_sint (2 ^ 31 - 1)"
abbreviation "parse_i64 \<equiv> parse_sint (2 ^ 63 - 1)"

lemma digit_val_char_of [simp]: "d < 10 \<Longrightarrow> digit_val (char_of (48 + d)) = Some d"
  by (simp add: digit_val_def)

lemma parse_digits_append:
  "parse_digits mx ovf acc (xs @ ys) =
     bind_outcome (parse_digits mx ovf acc xs) (\<lambda>a. parse_digits mx ovf a ys)"
  by (induction mx ovf acc xs rule: parse_digits.induct) (auto split: option.splits)

lemma parse_digits_nat_to_string: "n \<le> mx \<Longrightarrow> parse_digits mx ovf 0 (nat_to_string n) = Ok n"
proof (induction n rule: nat_to_string.induct)
  case (1 n)
  show ?case
  proof (cases "n < 10")
    case True
    with "1.prems" show ?thesis by (subst nat_to_string.simps) simp
  next
    case False
    with 1 have "parse_digits mx ovf 0 (nat_to_string (n div 10)) = Ok (n div 10)" by simp
    with False "1.prems" show ?thesis
      by (subst nat_to_string.simps) (simp add: parse_digits_append)
  qed
qed

lemma nat_to_string_digits: "c \<in> set (nat_to_string n) \<Longrightarrow> digit_val c \<noteq> None"
proof (induction n rule: nat_to_string.induct)
  case (1 n)
  then show ?case
    by (subst (asm) nat_to_string.simps) (auto split: if_splits)
qed

lemma nat_to_string_not_Nil [simp]: "nat_to_string n \<noteq> []"
  by (subst nat_to_string.simps) simp

lemma nat_to_string_char_neq: "digit_val c = None \<Longrightarrow> c \<notin> set (nat_to_string n)"
  using nat_to_string_digits by force

lemma digit_val_signs [simp]: "digit_val CHR ''+'' = None" "digit_val CHR ''-'' = None"
  by (simp_all add: digit_val_def)

lemma hd_nat_to_string [simp]:
  "hd (nat_to_string n) \<noteq> CHR ''+''" "hd (nat_to_string n) \<noteq> CHR ''-''"
  by (metis digit_val_signs hd_in_set nat_to_string_char_neq nat_to_string_not_Nil)+

lemma parse_uint_to_string [simp]: "n \<le> mx \<Longrightarrow> parse_uint mx (nat_to_string n) = Ok n"
proof -
  assume "n \<le> mx"
  moreover have "nat_to_string n \<noteq> ''+''" by (metis hd_nat_to_string(1) list.sel(1))
  ultimately show ?thesis
    by (simp add: parse_uint_def parse_digits_nat_to_string)
qed

lemma parse_uint_bound: "parse_uint mx s = Ok n \<Longrightarrow> n \<le> mx"
proof -
  have "acc \<le> mx \<Longrightarrow> parse_digits mx ovf acc cs = Ok n \<Longrightarrow> n \<le> mx" for ovf acc cs
    by (induction mx ovf acc cs rule: parse_digits.induct) (auto split: option.splits if_splits)
  then show "parse_uint mx s = Ok n \<Longrightarrow> n \<le> mx"
    by (auto simp: parse_uint_def split: if_splits)
qed

lemma parse_digits_total: "parse_digits mx ovf acc s \<noteq> Panic \<and> parse_digits mx ovf acc s \<noteq> Diverge"
  by (induction mx ovf acc s rule: parse_digits.induct) (auto split: option.splits)

lemma parse_uint_total [simp]: "parse_uint mx s \<noteq> Panic" "parse_uint mx s \<noteq> Diverge"
  by (auto simp: parse_uint_def parse_digits_total)

lemma parse_sint_total [simp]: "parse_sint mx s \<noteq> Panic" "parse_sint mx s \<noteq> Diverge"
  by (auto simp: parse_sint_def parse_digits_total outcome_simps)

subsection \<open>Printable strings\<close>

definition printable :: "char \<Rightarrow> bool" where
  "printable c \<longleftrightarrow> 33 \<le> (of_char c :: nat) \<and> (of_char c :: nat) < 127"

lemma printable_digit: "digit_val c \<noteq> None \<Longrightarrow> printable c"
  by (auto simp: digit_val_def printable_def Let_def split: if_splits)

lemma nat_to_string_printable: "c \<in> set (nat_to_string n) \<Longrightarrow> printable c"
  using nat_to_string_digits printable_digit by blast

lemma ws_chars_not_printable: "w \<in> set ws_chars \<Longrightarrow> w \<noteq> [] \<and> (\<forall>c \<in> set w. \<not> printable c)"
  by (auto simp: ws_chars_def printable_def)

lemma ws_prefix_len_printable:
  assumes "\<And>w. w \<in> set ws \<Longrightarrow> w \<noteq> [] \<and> (\<forall>c \<in> set w. \<not> printable c)" and "s \<noteq> [] \<Longrightarrow> printable (hd s)"
  shows "ws_prefix_len ws s = 0"
proof -
  have "\<not> prefix w s" if "w \<in> set ws" for w
    using assms(1) [OF that] assms(2) by (cases w; cases s) auto
  then have "find (\<lambda>w. prefix w s) ws = None"
    by (simp add: find_None_iff)
  then show ?thesis
    by (simp add: ws_prefix_len_def)
qed

lemma strip_ws_printable:
  assumes "\<And>w. w \<in> set ws \<Longrightarrow> w \<noteq> [] \<and> (\<forall>c \<in> set w. \<not> printable c)" and "s \<noteq> [] \<Longrightarrow> printable (hd s)"
  shows "strip_ws ws s = s"
  using ws_prefix_len_printable [OF assms] by (subst strip_ws.simps) simp

lemma trim_printable: "list_all printable s \<Longrightarrow> trim s = s"
proof -
  assume p: "list_all printable s"
  have "trim_start s = s"
    unfolding trim_start_def using p ws_chars_not_printable by (intro strip_ws_printable) (auto simp: list_all_iff)
  moreover have "strip_ws (map rev ws_chars) (rev s) = rev s"
    using p ws_chars_not_printable by (intro strip_ws_printable) (auto simp: list_all_iff hd_rev)
  ultimately show ?thesis
    by (simp add: trim_def trim_end_def)
qed

lemma words_ws_printable: "list_all printable w \<Longrightarrow> words_ws acc (w @ s) = words_ws (rev w @ acc) s"
proof (induction w arbitrary: acc)
  case (Cons c w)
  have "ws_prefix_len ws_chars ((c # w) @ s) = 0"
    using Cons.prems ws_chars_not_printable by (intro ws_prefix_len_printable) auto
  then have "words_ws acc ((c # w) @ s) = words_ws (c # acc) (w @ s)"
    by (subst words_ws.simps) simp
  then show ?case
    using Cons by simp
qed simp

lemma words_ws_space: "words_ws acc (CHR '' '' # s) = (if acc = [] then [] else [rev acc]) @ words_ws [] s"
proof -
  have "ws_prefix_len ws_chars (CHR '' '' # s) = 1"
    by (simp add: ws_prefix_len_def ws_chars_def char_of_eq_iff take_bit_eq_mod)
  then show ?thesis
    by (subst words_ws.simps) simp
qed

lemma split_whitespace_join:
  assumes "\<And>w. w \<in> set ws \<Longrightarrow> w \<noteq> [] \<and> list_all printable w"
  shows "split_whitespace (join_with '' '' ws) = ws"
  using assms
proof (induction "'' ''" ws rule: join_with.induct)
  case 1
  show ?case
    by (simp add: split_whitespace_def words_ws.simps)
next
  case (2 p)
  then show ?case
    using words_ws_printable [of p "[]" "[]"] by (simp add: split_whitespace_def words_ws.simps [of _ "[]"])
next
  case (3 p q ps)
  then show ?case
    using words_ws_printable [of p "[]" "CHR '' '' # join_with '' '' (q # ps)"] by (simp add: split_whitespace_def words_ws_space)
qed

end
