(* ===== verification/Container_State.thy ===== *)
theory Container_State
  imports Rust_Strings
begin

text \<open>
  The state of a container: \<open>libcontainer/src/signal.rs\<close>, \<open>container/state.rs\<close> and
  \<open>container/container.rs\<close>. Signals, the status with its guards, the persistent state, and the
  operations that refresh, set, save and load it. The clock, \<open>procfs\<close> and the state file are fields
  of the record \<open>state_env\<close>, over a state \<open>'w\<close> of the world.
\<close>

section \<open>Signals\<close>

datatype nix_signal =
    SIGHUP | SIGINT | SIGQUIT | SIGILL | SIGTRAP | SIGABRT | SIGBUS | SIGFPE | SIGKILL | SIGUSR1
  | SIGSEGV | SIGUSR2 | SIGPIPE | SIGALRM | SIGTERM | SIGSTKFLT | SIGCHLD | SIGCONT | SIGSTOP
  | SIGTSTP | SIGTTIN | SIGTTOU | SIGURG | SIGXCPU | SIGXFSZ | SIGVTALRM | SIGPROF | SIGWINCH
  | SIGIO | SIGPWR | SIGSYS

definition to_ascii_uppercase :: "string \<Rightarrow> string" where
  "to_ascii_uppercase s =
     map (\<lambda>c. let n = of_char c :: nat in if 97 \<le> n \<and> n \<le> 122 then char_of (n - 32) else c) s"

text \<open>The rows of the \<open>match\<close>, in its order.\<close>

definition signal_table :: "(string list \<times> nix_signal) list" where
  "signal_table =
     [([''1'', ''HUP'', ''SIGHUP''], SIGHUP), ([''2'', ''INT'', ''SIGINT''], SIGINT),
      ([''3'', ''QUIT'', ''SIGQUIT''], SIGQUIT), ([''4'', ''ILL'', ''SIGILL''], SIGILL),
      ([''5'', ''BUS'', ''SIGBUS''], SIGBUS),
      ([''6'', ''ABRT'', ''IOT'', ''SIGABRT'', ''SIGIOT''], SIGABRT),
      ([''7'', ''TRAP'', ''SIGTRAP''], SIGTRAP), ([''8'', ''FPE'', ''SIGFPE''], SIGFPE),
      ([''9'', ''KILL'', ''SIGKILL''], SIGKILL), ([''10'', ''USR1'', ''SIGUSR1''], SIGUSR1),
      ([''11'', ''SEGV'', ''SIGSEGV''], SIGSEGV), ([''12'', ''USR2'', ''SIGUSR2''], SIGUSR2),
      ([''13'', ''PIPE'', ''SIGPIPE''], SIGPIPE), ([''14'', ''ALRM'', ''SIGALRM''], SIGALRM),
      ([''15'', ''TERM'', ''SIGTERM''], SIGTERM), ([''16'', ''STKFLT'', ''SIGSTKFLT''], SIGSTKFLT),
      ([''17'', ''CHLD'', ''SIGCHLD''], SIGCHLD), ([''18'', ''CONT'', ''SIGCONT''], SIGCONT),
      ([''19'', ''STOP'', ''SIGSTOP''], SIGSTOP), ([''20'', ''TSTP'', ''SIGTSTP''], SIGTSTP),
      ([''21'', ''TTIN'', ''SIGTTIN''], SIGTTIN), ([''22'', ''TTOU'', ''SIGTTOU''], SIGTTOU),
      ([''23'', ''URG'', ''SIGURG''], SIGURG), ([''24'', ''XCPU'', ''SIGXCPU''], SIGXCPU),
      ([''25'', ''XFSZ'', ''SIGXFSZ''], SIGXFSZ), ([''26'', ''VTALRM'', ''SIGVTALRM''], SIGVTALRM),
      ([''27'', ''PROF'', ''SIGPROF''], SIGPROF), ([''28'', ''WINCH'', ''SIGWINCH''], SIGWINCH),
      ([''29'', ''IO'', ''SIGIO''], SIGIO), ([''30'', ''PWR'', ''SIGPWR''], SIGPWR),
      ([''31'', ''SYS'', ''SIGSYS''], SIGSYS)]"

definition signal_from_str :: "string \<Rightarrow> (string, nix_signal) outcome" where
  "signal_from_str s =
     (case find (\<lambda>(names, sig). to_ascii_uppercase s \<in> set names) signal_table of
        Some (names, sig) \<Rightarrow> Ok sig
      | None \<Rightarrow> Err s)"

text \<open>The conversion from a number goes through \<open>NixSignal::try_from\<close>, a parameter.\<close>

definition signal_from_i32 :: "(int \<Rightarrow> nix_signal option) \<Rightarrow> int \<Rightarrow> (int, nix_signal) outcome" where
  "signal_from_i32 nix_try_from n = ok_or n (nix_try_from n)"

section \<open>Status\<close>

datatype container_status = Creating | Created | Running | Stopped | Paused

definition can_start :: "container_status \<Rightarrow> bool" where
  "can_start s \<longleftrightarrow> s = Created"

definition can_kill :: "container_status \<Rightarrow> bool" where
  "can_kill s = (case s of Creating \<Rightarrow> False | Stopped \<Rightarrow> False | Created \<Rightarrow> True | Running \<Rightarrow> True | Paused \<Rightarrow> True)"

definition can_delete :: "container_status \<Rightarrow> bool" where
  "can_delete s \<longleftrightarrow> s = Stopped"

definition can_pause :: "container_status \<Rightarrow> bool" where
  "can_pause s \<longleftrightarrow> s = Running"

definition can_resume :: "container_status \<Rightarrow> bool" where
  "can_resume s \<longleftrightarrow> s = Paused"

definition can_exec :: "container_status \<Rightarrow> bool" where
  "can_exec s \<longleftrightarrow> s = Running"

primrec show_status :: "container_status \<Rightarrow> string" where
  "show_status Creating = ''Creating''"
| "show_status Created = ''Created''"
| "show_status Running = ''Running''"
| "show_status Stopped = ''Stopped''"
| "show_status Paused = ''Paused''"

section \<open>The state and the container\<close>

record state =
  oci_version :: string
  id_of :: string
  status :: container_status
  pid :: "i32 option"
  bundle_path :: string
  annotations :: "(string \<rightharpoonup> string) option"
  created :: "nat option"
  creator :: "u32 option"
  use_systemd :: bool
  clean_up_intel_rdt_subdirectory :: "bool option"
  intel_rdt_dir :: "string option"
  intel_rdt_monitoring_dir :: "string option"

definition state_new :: "string \<Rightarrow> string \<Rightarrow> container_status \<Rightarrow> i32 option \<Rightarrow> string \<Rightarrow> state" where
  "state_new OCI_RUNTIME_VERSION container_id st p bndl =
     \<lparr>oci_version = OCI_RUNTIME_VERSION, id_of = container_id, status = st, pid = p, bundle_path = bndl,
      annotations = Some Map.empty, created = None, creator = None, use_systemd = False,
      clean_up_intel_rdt_subdirectory = None, intel_rdt_dir = None, intel_rdt_monitoring_dir = None\<rparr>"

record container =
  state :: state
  root :: string

datatype state_error = OpenStateFile string | ParseStateFile string | WriteStateFile string

datatype io_error = BrokenPipe | OtherIoError string

datatype hook_error =
    CommandExecute io_error
  | EncodeContainerState
  | NonZeroExitCode int
  | Killed
  | Timeout
  | MissingContainerState
  | WriteContainerState io_error
  | StateConversion container_status

datatype notify_error =
    InvalidPath string | GetCwd io_error | ChdirError string nat | Connect string io_error | SendStartContainer io_error

text \<open>
  The errors of the other components that the commands only pass on are carried as text.
\<close>

datatype libcontainer_error =
    IncorrectStatus container_status
  | InvalidInput string
  | StateErr state_error
  | HookErr hook_error
  | Procfs string
  | Config string
  | NotifyListener notify_error
  | CgroupManagerErr string
  | CgroupCreate string
  | CgroupGet string
  | OtherSyscall nat
  | OtherIO io_error
  | Other string

datatype oci_container_state = OciCreating | OciCreated | OciRunning | OciStopped

definition oci_status :: "container_status \<Rightarrow> (container_status, oci_container_state) outcome" where
  "oci_status s =
     (case s of Creating \<Rightarrow> Ok OciCreating | Created \<Rightarrow> Ok OciCreated | Running \<Rightarrow> Ok OciRunning
      | Stopped \<Rightarrow> Ok OciStopped | Paused \<Rightarrow> Err s)"

record oci_state =
  st_version :: string
  st_id :: string
  st_status :: oci_container_state
  st_bundle :: string
  st_annotations :: "(string \<rightharpoonup> string) option"
  st_pid :: "i32 option"

definition oci_state_of :: "state \<Rightarrow> (container_status, oci_state) outcome" where
  "oci_state_of s =
     bind_outcome (oci_status (status s)) (\<lambda>st.
     Ok \<lparr>st_version = oci_version s, st_id = id_of s, st_status = st, st_bundle = bundle_path s,
         st_annotations = annotations s, st_pid = pid s\<rparr>)"

section \<open>The environment\<close>

datatype proc_state = Zombie | Dead | OtherProcState

datatype proc_lookup = NoProcess | ProcError string | ProcStat proc_state

record 'w state_env =
  now :: "'w \<Rightarrow> nat"
  lookup_proc :: "i32 \<Rightarrow> 'w \<Rightarrow> proc_lookup"
  open_state_file :: "string \<Rightarrow> ('w, io_error, unit) st"
  write_state :: "string \<Rightarrow> state \<Rightarrow> ('w, io_error, unit) st"
  flush_state :: "string \<Rightarrow> ('w, io_error, unit) st"
  open_for_read :: "string \<Rightarrow> 'w \<Rightarrow> (io_error, unit) outcome"
  parse_state_file :: "string \<Rightarrow> 'w \<Rightarrow> (io_error, state) outcome"

type_synonym ('w, 'a) cmd = "(container \<times> 'w, libcontainer_error, 'a) st"

definition on_world :: "('w, 'e, 'a) st \<Rightarrow> (container \<times> 'w, 'e, 'a) st" where
  "on_world m = (\<lambda>(c, w). case m w of (r, w') \<Rightarrow> (r, c, w'))"

definition read_container :: "(container \<Rightarrow> 'a) \<Rightarrow> (container \<times> 'w, 'e, 'a) st" where
  "read_container f = (\<lambda>(c, w). (Ok (f c), c, w))"

section \<open>Operations on the state\<close>

definition state_file_path :: "string \<Rightarrow> string" where
  "state_file_path container_root = container_root @ ''/state.json''"

text \<open>\<open>State::save\<close>: open and truncate, write, flush.\<close>

definition state_save :: "('w, 'z) state_env_scheme \<Rightarrow> state \<Rightarrow> string \<Rightarrow> ('w, state_error, unit) st" where
  "state_save env s container_root =
     (let p = state_file_path container_root in
      st_bind (st_map_err (\<lambda>_. OpenStateFile p) (open_state_file env p)) (\<lambda>_.
      st_bind (st_map_err (\<lambda>_. ParseStateFile p) (write_state env p s)) (\<lambda>_.
      st_bind (st_map_err (\<lambda>_. WriteStateFile p) (flush_state env p)) (\<lambda>_.
      st_return ()))))"

definition state_load :: "('w, 'z) state_env_scheme \<Rightarrow> string \<Rightarrow> 'w \<Rightarrow> (state_error, state) outcome" where
  "state_load env container_root w =
     (let p = state_file_path container_root in
      bind_outcome (map_err (\<lambda>_. OpenStateFile p) (open_for_read env p w)) (\<lambda>_.
      map_err (\<lambda>_. ParseStateFile p) (parse_state_file env p w)))"

text \<open>\<open>Container::new\<close>; \<open>fs::canonicalize\<close> is a parameter.\<close>

definition container_new :: "string \<Rightarrow> (string \<Rightarrow> (io_error, string) outcome) \<Rightarrow> string \<Rightarrow> container_status \<Rightarrow>
    i32 option \<Rightarrow> string \<Rightarrow> string \<Rightarrow> (libcontainer_error, container) outcome" where
  "container_new version canonicalize container_id st p bndl container_root =
     bind_outcome (map_err (\<lambda>_. InvalidInput ''invalid container root'') (canonicalize container_root)) (\<lambda>croot.
     bind_outcome (map_err (\<lambda>_. InvalidInput ''invalid bundle'') (canonicalize bndl)) (\<lambda>b.
     Ok \<lparr>state = state_new version container_id st p b, root = croot\<rparr>))"

definition set_status :: "nat \<Rightarrow> container_status \<Rightarrow> container \<Rightarrow> container" where
  "set_status time st c =
     (let cr = (case (st, created (state c)) of (Created, None) \<Rightarrow> Some time | _ \<Rightarrow> created (state c))
      in c\<lparr>state := (state c)\<lparr>created := cr, status := st\<rparr>\<rparr>)"

definition set_status_st :: "('w, 'z) state_env_scheme \<Rightarrow> container_status \<Rightarrow> ('w, unit) cmd" where
  "set_status_st env st = (\<lambda>(c, w). (Ok (), set_status (now env w) st c, w))"

definition set_pid :: "i32 \<Rightarrow> container \<Rightarrow> container" where
  "set_pid p c = c\<lparr>state := (state c)\<lparr>pid := Some p\<rparr>\<rparr>"

definition set_annotations :: "(string \<rightharpoonup> string) option \<Rightarrow> container \<Rightarrow> container" where
  "set_annotations a c = c\<lparr>state := (state c)\<lparr>annotations := a\<rparr>\<rparr>"

definition set_creator :: "u32 \<Rightarrow> container \<Rightarrow> container" where
  "set_creator uid c = c\<lparr>state := (state c)\<lparr>creator := Some uid\<rparr>\<rparr>"

definition set_systemd :: "bool \<Rightarrow> container \<Rightarrow> container" where
  "set_systemd b c = c\<lparr>state := (state c)\<lparr>use_systemd := b\<rparr>\<rparr>"

definition set_clean_up_intel_rdt_directory :: "bool \<Rightarrow> container \<Rightarrow> container" where
  "set_clean_up_intel_rdt_directory b c = c\<lparr>state := (state c)\<lparr>clean_up_intel_rdt_subdirectory := Some b\<rparr>\<rparr>"

definition set_intel_rdt_dir :: "string option \<Rightarrow> container \<Rightarrow> container" where
  "set_intel_rdt_dir dir c = c\<lparr>state := (state c)\<lparr>intel_rdt_dir := dir\<rparr>\<rparr>"

definition set_intel_rdt_monitoring_dir :: "string option \<Rightarrow> container \<Rightarrow> container" where
  "set_intel_rdt_monitoring_dir dir c = c\<lparr>state := (state c)\<lparr>intel_rdt_monitoring_dir := dir\<rparr>\<rparr>"

definition refreshed_status :: "('w, 'z) state_env_scheme \<Rightarrow> container \<Rightarrow> 'w \<Rightarrow> (libcontainer_error, container_status) outcome" where
  "refreshed_status env c w =
     (case pid (state c) of
        Some p \<Rightarrow>
          (case lookup_proc env p w of
             NoProcess \<Rightarrow> Ok Stopped
           | ProcError e \<Rightarrow> Err (Procfs e)
           | ProcStat ps \<Rightarrow>
               (case ps of
                  Zombie \<Rightarrow> Ok Stopped
                | Dead \<Rightarrow> Ok Stopped
                | OtherProcState \<Rightarrow>
                    Ok (case status (state c) of
                          Creating \<Rightarrow> Creating | Created \<Rightarrow> Created | Paused \<Rightarrow> Paused | _ \<Rightarrow> Running)))
      | None \<Rightarrow> Ok Stopped)"

definition refresh_status :: "('w, 'z) state_env_scheme \<Rightarrow> ('w, unit) cmd" where
  "refresh_status env =
     st_bind (\<lambda>(c, w). (refreshed_status env c w, c, w)) (\<lambda>new_status.
     set_status_st env new_status)"

definition container_save :: "('w, 'z) state_env_scheme \<Rightarrow> ('w, unit) cmd" where
  "container_save env = (\<lambda>(c, w). on_world (st_map_err StateErr (state_save env (state c) (root c))) (c, w))"

definition refresh_state :: "('w, 'z) state_env_scheme \<Rightarrow> ('w, unit) cmd" where
  "refresh_state env =
     st_bind (\<lambda>(c, w). (map_err StateErr (state_load env (root c) w), c, w)) (\<lambda>s.
     (\<lambda>(c, w). (Ok (), c\<lparr>state := s\<rparr>, w)))"

definition container_load :: "('w, 'z) state_env_scheme \<Rightarrow> string \<Rightarrow> 'w \<Rightarrow> (libcontainer_error, container) outcome" where
  "container_load env container_root w =
     bind_outcome (map_err StateErr (state_load env container_root w)) (\<lambda>s.
     (case refresh_status env (\<lparr>state = s, root = container_root\<rparr>, w) of (r, c, w') \<Rightarrow> bind_outcome r (\<lambda>_. Ok c)))"

section \<open>Lemmas on the state\<close>

lemma container_status_UNIV: "st \<in> {Creating, Created, Running, Stopped, Paused}"
  by (cases st) auto

definition alive :: "('w, 'z) state_env_scheme \<Rightarrow> container \<Rightarrow> 'w \<Rightarrow> bool" where
  "alive env c w \<longleftrightarrow> (\<exists>p. pid (state c) = Some p \<and> lookup_proc env p w = ProcStat OtherProcState)"

text \<open>The identity of a container: all of its state that no command changes.\<close>

definition identity :: "container \<Rightarrow> container" where
  "identity c = c\<lparr>state := (state c)\<lparr>status := Creating, created := None\<rparr>\<rparr>"

lemma set_status_sel [simp]:
  "status (state (set_status t st c)) = st"
  "pid (state (set_status t st c)) = pid (state c)"
  "root (set_status t st c) = root c"
  "identity (set_status t st c) = identity c"
  by (simp_all add: set_status_def identity_def)

lemma set_status_created:
  "created (state (set_status t st c)) = (if st = Created \<and> created (state c) = None then Some t else created (state c))"
  by (cases st; cases "created (state c)") (simp_all add: set_status_def)

lemma refreshed_status_cases:
  assumes "refreshed_status env c w = Ok st"
  shows "st = Stopped \<and> \<not> alive env c w \<or>
    alive env c w \<and> st = (if status (state c) = Stopped then Running else status (state c))"
  using assms
  by (auto simp: refreshed_status_def alive_def split: option.splits proc_lookup.splits proc_state.splits container_status.splits)

lemma refresh_status_eq:
  "refresh_status env (c, w) =
     (case refreshed_status env c w of
        Ok st \<Rightarrow> (Ok (), set_status (now env w) st c, w)
      | Err e \<Rightarrow> (Err e, c, w) | Panic \<Rightarrow> (Panic, c, w) | Diverge \<Rightarrow> (Diverge, c, w))"
  by (simp add: refresh_status_def st_bind_def set_status_st_def split: outcome.splits)

lemma refresh_status_Ok:
  "refresh_status env (c, w) = (Ok (), c', w') \<longleftrightarrow>
     w' = w \<and> (\<exists>st. refreshed_status env c w = Ok st \<and> c' = set_status (now env w) st c)"
  by (auto simp: refresh_status_eq split: outcome.splits)

text \<open>
  C29. A refreshed status tells the truth about the process: it is \<open>Stopped\<close> exactly when the container
  has no process, or one that is gone, a zombie or dead. Refreshing changes neither the world nor the
  identity of the container, and a second refresh changes nothing.
\<close>

theorem refresh_status_truth:
  assumes "refresh_status env (c, w) = (Ok (), c', w')"
  shows "(status (state c') = Stopped \<longleftrightarrow> \<not> alive env c w) \<and> identity c' = identity c \<and> w' = w \<and>
    (status (state c) \<noteq> Stopped \<longrightarrow> alive env c w \<longrightarrow> status (state c') = status (state c)) \<and>
    status (state (fst (snd (refresh_status env (c', w))))) = status (state c')"
proof -
  obtain st where st: "refreshed_status env c w = Ok st" "c' = set_status (now env w) st c" "w' = w"
    using assms by (auto simp: refresh_status_Ok)
  have "alive env c' w = alive env c w"
    by (simp add: alive_def st(2))
  moreover have "refreshed_status env c' w = Ok st"
    using st(1) unfolding st(2) refreshed_status_def
    by (auto split: option.splits proc_lookup.splits proc_state.splits container_status.splits)
  ultimately show ?thesis
    using refreshed_status_cases [OF st(1)] st(2,3) by (auto simp: refresh_status_eq split: if_splits)
qed

text \<open>A world with a file per container and the states of the processes.\<close>

record demo_world =
  d_file :: "string \<rightharpoonup> state"
  d_proc :: "i32 \<Rightarrow> proc_lookup"
  d_kills :: "(i32 \<times> nix_signal) list"
  d_frozen :: bool
  d_root :: bool
  d_hooks :: "string list"

definition demo_state_env :: "demo_world state_env" where
  "demo_state_env =
     \<lparr>now = (\<lambda>w. 42), lookup_proc = (\<lambda>p w. d_proc w p),
      open_state_file = (\<lambda>p w. (Ok (), w\<lparr>d_file := (d_file w)(p := None)\<rparr>)),
      write_state = (\<lambda>p s w. (Ok (), w\<lparr>d_file := (d_file w)(p \<mapsto> s)\<rparr>)),
      flush_state = (\<lambda>p w. (Ok (), w)), open_for_read = (\<lambda>p w. Ok ()),
      parse_state_file = (\<lambda>p w. ok_or (OtherIoError ''EOF'') (d_file w p))\<rparr>"

definition demo_container :: "container_status \<Rightarrow> container" where
  "demo_container st = \<lparr>state = state_new ''1.0'' ''c1'' st (Some 7) ''/bundle'', root = ''/run/c1''\<rparr>"

definition demo_init :: "proc_lookup \<Rightarrow> demo_world" where
  "demo_init l = \<lparr>d_file = Map.empty, d_proc = (\<lambda>p. if p = 7 then l else NoProcess), d_kills = [], d_frozen = False,
     d_root = True, d_hooks = []\<rparr>"

lemmas demo_defs = demo_state_env_def demo_container_def demo_init_def state_new_def

theorem refresh_status_truth_witness:
  "\<exists>c'. refresh_status demo_state_env (demo_container Running, demo_init (ProcStat Zombie)) = (Ok (), c', demo_init (ProcStat Zombie)) \<and>
        status (state c') = Stopped"
proof -
  let ?w = "demo_init (ProcStat Zombie)" and ?c = "demo_container Running"
  obtain c' where r: "refresh_status demo_state_env (?c, ?w) = (Ok (), c', ?w)"
    by (simp add: refresh_status_eq refreshed_status_def demo_defs)
  from refresh_status_truth [OF r] r show ?thesis
    by (auto simp: alive_def demo_defs)
qed

section \<open>Saving and loading\<close>

text \<open>
  The state file: a state that was written and flushed without an error is what the next read gets.
\<close>

definition state_store :: "('w, 'z) state_env_scheme \<Rightarrow> bool" where
  "state_store env \<longleftrightarrow>
     (\<forall>p s w w1 w2 w3. open_state_file env p w = (Ok (), w1) \<longrightarrow> write_state env p s w1 = (Ok (), w2) \<longrightarrow>
        flush_state env p w2 = (Ok (), w3) \<longrightarrow> open_for_read env p w3 = Ok () \<and> parse_state_file env p w3 = Ok s)"

lemma state_save_load:
  assumes "state_store env" "state_save env s r w = (Ok (), w')"
  shows "state_load env r w' = Ok s"
proof -
  let ?p = "state_file_path r"
  obtain w1 w2 where *: "open_state_file env ?p w = (Ok (), w1)" "write_state env ?p s w1 = (Ok (), w2)"
    "flush_state env ?p w2 = (Ok (), w')"
    using assms(2) by (auto simp: state_save_def Let_def outcome_simps)
  have "open_for_read env ?p w' = Ok () \<and> parse_state_file env ?p w' = Ok s"
    using assms(1) * unfolding state_store_def by blast
  then show ?thesis
    by (simp add: state_load_def Let_def)
qed

lemma container_save_load:
  assumes "state_store env" "container_save env (c, w) = (Ok (), c', w')"
  shows "state_load env (root c) w' = Ok (state c) \<and> c' = c"
  using assms by (auto simp: container_save_def on_world_def outcome_simps state_save_load st_map_err_def map_err_eq split: prod.splits)

section \<open>Signal names\<close>



end
