(* ===== verification/Hooks.thy ===== *)
theory Hooks
  imports Container_State
begin

text \<open>
  The OCI hooks, \<open>libcontainer/src/hooks.rs\<close>, with \<open>utils::parse_env\<close>. A hook is a command that is
  spawned with the container's state on its standard input and must exit with status 0, within its
  timeout where it has one. The process operations are the fields of \<open>hook_env\<close>.
\<close>

section \<open>Environment variables\<close>

text \<open>\<open>key=value\<close> strings, split at the first \<open>=\<close>; a later entry replaces an earlier one.\<close>

definition env_entry :: "string \<Rightarrow> string \<times> string" where
  "env_entry e = (let parts = split_on (CHR ''='') e in (hd parts, join_with ''='' (tl parts)))"

definition parse_env :: "string list \<Rightarrow> (string \<rightharpoonup> string)" where
  "parse_env envs = fold (\<lambda>e m. case env_entry e of (k, v) \<Rightarrow> m(k \<mapsto> v)) envs Map.empty"

section \<open>Hooks\<close>

record hook =
  hook_path :: string
  hook_args :: "string list option"
  hook_environ :: "string list option"
  hook_timeout :: "i64 option"

record command =
  cmd_path :: string
  cmd_cwd :: "string option"
  cmd_arg0 :: string
  cmd_args :: "string list"
  cmd_env :: "string \<rightharpoonup> string"

record 'w hook_env =
  spawn :: "command \<Rightarrow> ('w, io_error, u32) st"
  encode_state :: "oci_state \<Rightarrow> string option"
  write_stdin :: "u32 \<Rightarrow> string \<Rightarrow> ('w, io_error, unit) st"
  wait_process :: "u32 \<Rightarrow> ('w, io_error, int option) st"
  wait_timeout :: "u32 \<Rightarrow> nat \<Rightarrow> ('w, io_error, int option option) st"
  kill_hook :: "i32 \<Rightarrow> nix_signal \<Rightarrow> 'w \<Rightarrow> 'w"

definition hook_command :: "string option \<Rightarrow> (string \<rightharpoonup> string) option \<Rightarrow> hook \<Rightarrow> command" where
  "hook_command cwd default_env h =
     \<lparr>cmd_path = hook_path h, cmd_cwd = cwd,
      cmd_arg0 = (case hook_args h of Some (a # as) \<Rightarrow> a | _ \<Rightarrow> hook_path h),
      cmd_args = (case hook_args h of Some (a # as) \<Rightarrow> as | _ \<Rightarrow> []),
      cmd_env = (case hook_environ h of
                   Some e \<Rightarrow> parse_env e
                 | None \<Rightarrow> (case default_env of Some d \<Rightarrow> d | None \<Rightarrow> Map.empty))\<rparr>"

text \<open>The state is written to the hook; a hook that has closed its input is not an error yet.\<close>

definition send_state :: "'w hook_env \<Rightarrow> u32 \<Rightarrow> oci_state \<Rightarrow> ('w, hook_error, unit) st" where
  "send_state env child os =
     st_bind (st_lift (ok_or EncodeContainerState (encode_state env os))) (\<lambda>encoded w.
     (case write_stdin env child encoded w of
        (Ok _, w) \<Rightarrow> (Ok (), w)
      | (Err BrokenPipe, w) \<Rightarrow> (Ok (), w)
      | (Err e, w) \<Rightarrow> (Err (WriteContainerState e), kill_hook env child SIGKILL w)
      | (Panic, w) \<Rightarrow> (Panic, w)
      | (Diverge, w) \<Rightarrow> (Diverge, w)))"

text \<open>The exit code (\<open>None\<close> for a hook killed by a signal), with or without a timeout.\<close>

definition wait_hook :: "'w hook_env \<Rightarrow> u32 \<Rightarrow> hook \<Rightarrow> ('w, hook_error, int option) st" where
  "wait_hook env child h =
     (case hook_timeout h of
        Some secs \<Rightarrow> (\<lambda>w.
          (case wait_timeout env child (unat (secs :: u64)) w of
             (Ok (Some code), w) \<Rightarrow> (Ok code, w)
           | (Ok None, w) \<Rightarrow> (Err Timeout, kill_hook env child SIGKILL w)
           | (Err e, w) \<Rightarrow> (Err (CommandExecute e), w)
           | (Panic, w) \<Rightarrow> (Panic, w)
           | (Diverge, w) \<Rightarrow> (Diverge, w)))
      | None \<Rightarrow> st_map_err CommandExecute (wait_process env child))"

definition check_exit :: "int option \<Rightarrow> (hook_error, unit) outcome" where
  "check_exit code =
     (case code of Some n \<Rightarrow> if n = 0 then Ok () else Err (NonZeroExitCode n) | None \<Rightarrow> Err Killed)"

definition run_hook :: "'w hook_env \<Rightarrow> string option \<Rightarrow> (string \<rightharpoonup> string) option \<Rightarrow> oci_state \<Rightarrow> hook \<Rightarrow>
    ('w, hook_error, unit) st" where
  "run_hook env cwd default_env os h =
     st_bind (st_map_err CommandExecute (spawn env (hook_command cwd default_env h))) (\<lambda>child.
     st_bind (send_state env child os) (\<lambda>_.
     st_bind (wait_hook env child h) (\<lambda>code.
     st_lift (check_exit code))))"

definition run_hooks :: "'w hook_env \<Rightarrow> hook list option \<Rightarrow> state option \<Rightarrow> string option \<Rightarrow> i32 option \<Rightarrow>
    (string \<rightharpoonup> string) option \<Rightarrow> ('w, hook_error, unit) st" where
  "run_hooks env hooks st cwd p default_env =
     st_bind (st_lift (ok_or MissingContainerState st)) (\<lambda>base.
     st_bind (st_lift (map_err StateConversion (oci_state_of base))) (\<lambda>os.
     (let os = (case p of Some override_pid \<Rightarrow> os\<lparr>st_pid := Some override_pid\<rparr> | None \<Rightarrow> os) in
      case hooks of
        Some hs \<Rightarrow> st_for (run_hook env cwd default_env os) hs
      | None \<Rightarrow> st_return ())))"

section \<open>Parsing the environment\<close>

lemma env_entry_split: "CHR ''='' \<notin> set k \<Longrightarrow> env_entry (k @ ''='' @ v) = (k, v)"
  by (simp add: env_entry_def split_on_append join_split_on)

lemma env_entry_no_sep: "CHR ''='' \<notin> set k \<Longrightarrow> env_entry k = (k, [])"
  by (simp add: env_entry_def split_on_no_sep)

lemma parse_env_fold:
  assumes "\<And>k v. (k, v) \<in> set kvs \<Longrightarrow> CHR ''='' \<notin> set k"
  shows "fold (\<lambda>e m. case env_entry e of (k, v) \<Rightarrow> m(k \<mapsto> v)) (map (\<lambda>(k, v). k @ ''='' @ v) kvs) m = m ++ map_of (rev kvs)"
  using assms
proof (induction kvs arbitrary: m)
  case (Cons kv kvs)
  obtain k v where kv: "kv = (k, v)"
    by (cases kv)
  have "env_entry (k @ ''='' @ v) = (k, v)"
    using Cons.prems kv by (intro env_entry_split) auto
  moreover have "\<And>k v. (k, v) \<in> set kvs \<Longrightarrow> CHR ''='' \<notin> set k"
    using Cons.prems by auto
  ultimately show ?case
    using Cons.IH kv by (auto simp: map_add_def fun_eq_iff split: option.splits)
qed simp

text \<open>
  C29. \<open>parse_env\<close> reads back an environment printed as \<open>key=value\<close> entries: the value may itself
  contain \<open>=\<close>, and of two entries for a key the later one counts.
\<close>

theorem parse_env_roundtrip:
  assumes "\<forall>(k, v) \<in> set kvs. CHR ''='' \<notin> set k"
  shows "parse_env (map (\<lambda>(k, v). k @ ''='' @ v) kvs) = map_of (rev kvs)"
  using parse_env_fold [of kvs Map.empty] assms by (auto simp: parse_env_def)

theorem parse_env_roundtrip_witness:
  "parse_env [''PATH=/bin'', ''OPTS=a=b'', ''PATH=/usr/bin''] ''PATH'' = Some ''/usr/bin''"
  using parse_env_roundtrip [of "[(''PATH'', ''/bin''), (''OPTS'', ''a=b''), (''PATH'', ''/usr/bin'')]"] by simp

section \<open>The order of the hooks\<close>

text \<open>
  An observer of the commands that are spawned: \<open>spawn\<close> adds its command, the other operations add
  none.
\<close>

definition spawn_log :: "'w hook_env \<Rightarrow> ('w \<Rightarrow> command list) \<Rightarrow> bool" where
  "spawn_log env log \<longleftrightarrow>
     (\<forall>c w. log (snd (spawn env c w)) = log w @ [c]) \<and>
     (\<forall>p s w. log (snd (write_stdin env p s w)) = log w) \<and>
     (\<forall>p w. log (snd (wait_process env p w)) = log w) \<and>
     (\<forall>p n w. log (snd (wait_timeout env p n w)) = log w) \<and>
     (\<forall>p s w. log (kill_hook env p s w) = log w)"

lemma send_state_log:
  assumes "spawn_log env log" shows "log (snd (send_state env p os w)) = log w"
  using assms unfolding spawn_log_def send_state_def
  by (cases "write_stdin env p (the (encode_state env os)) w"; cases "encode_state env os")
     (auto simp: st_bind_def st_lift_def split: outcome.splits io_error.splits,
      (metis snd_conv)+)

lemma wait_hook_log:
  assumes "spawn_log env log" shows "log (snd (wait_hook env p h w)) = log w"
  using assms unfolding spawn_log_def wait_hook_def
  by (cases "wait_process env p w"; cases "wait_timeout env p (unat (the (hook_timeout h))) w")
     (auto simp: st_map_err_def split: outcome.splits option.splits, (metis snd_conv)+)

lemma run_hook_log:
  assumes "spawn_log env log"
  shows "log (snd (run_hook env cwd denv os h w)) = log w @ [hook_command cwd denv h]"
  unfolding run_hook_def
proof (rule st_bind_post)
  fix r w' assume "st_map_err CommandExecute (spawn env (hook_command cwd denv h)) w = (r, w')"
  then show *: "log w' = log w @ [hook_command cwd denv h]"
    using assms by (auto simp: st_map_err_def spawn_log_def split: prod.splits) (metis snd_conv)
next
  fix p w' assume sp: "st_map_err CommandExecute (spawn env (hook_command cwd denv h)) w = (Ok p, w')"
  then have *: "log w' = log w @ [hook_command cwd denv h]"
    using assms by (auto simp: st_map_err_def spawn_log_def split: prod.splits) (metis snd_conv)
  show "log (snd (st_bind (send_state env p os) (\<lambda>_. st_bind (wait_hook env p h) (\<lambda>code. st_lift (check_exit code))) w'))
      = log w @ [hook_command cwd denv h]"
  proof (rule st_bind_post)
    show "send_state env p os w' = (r, w2) \<Longrightarrow> log w2 = log w @ [hook_command cwd denv h]" for r w2
      using send_state_log [OF assms, of p os w'] * by simp
    fix x w2 assume "send_state env p os w' = (Ok x, w2)"
    then have "log w2 = log w @ [hook_command cwd denv h]"
      using send_state_log [OF assms, of p os w'] * by simp
    then show "log (snd (st_bind (wait_hook env p h) (\<lambda>code. st_lift (check_exit code)) w2)) = log w @ [hook_command cwd denv h]"
      using wait_hook_log [OF assms, of p h w2] by (auto simp: st_bind_def st_lift_def split: prod.splits outcome.splits)
  qed
qed

lemma st_for_prefix:
  assumes "\<And>x w. log (snd (f x w)) = log w @ [g x]"
  shows "st_for f xs w = (r, w') \<Longrightarrow>
    \<exists>n \<le> length xs. log w' = log w @ map g (take n xs) \<and> (r = Ok () \<longrightarrow> n = length xs)"
proof (induction xs arbitrary: w)
  case (Cons x xs)
  obtain q w1 where f: "f x w = (q, w1)"
    by (cases "f x w")
  with assms [of x w] have l: "log w1 = log w @ [g x]"
    by simp
  show ?case
  proof (cases "q = Ok ()")
    case True
    then obtain n where "n \<le> length xs" "log w' = log w1 @ map g (take n xs)" "r = Ok () \<longrightarrow> n = length xs"
      using Cons f by (auto simp: st_bind_def)
    then show ?thesis
      using l by (intro exI [of _ "Suc n"]) auto
  next
    case False
    then have "r \<noteq> Ok ()" "w' = w1"
      using Cons.prems f by (auto simp: st_bind_def split: outcome.splits)
    then show ?thesis
      using l by (intro exI [of _ 1]) auto
  qed
qed (auto simp: st_return_def)


text \<open>An instance: hooks that are logged and exit with the status that their first argument names.\<close>

definition demo_hooks :: "(command list) hook_env" where
  "demo_hooks =
     \<lparr>spawn = (\<lambda>c w. (Ok (of_nat (length w)), w @ [c])), encode_state = (\<lambda>os. Some (st_id os)),
      write_stdin = (\<lambda>p s w. (Err BrokenPipe, w)),
      wait_process = (\<lambda>p w. (Ok (if cmd_path (last w) = ''/bin/false'' then Some 1 else Some 0), w)),
      wait_timeout = (\<lambda>p n w. (Ok None, w)), kill_hook = (\<lambda>p s w. w)\<rparr>"

definition demo_hook :: "string \<Rightarrow> hook" where
  "demo_hook p = \<lparr>hook_path = p, hook_args = Some [''x''], hook_environ = None, hook_timeout = None\<rparr>"

lemma demo_hooks_log: "spawn_log demo_hooks id"
  by (simp add: spawn_log_def demo_hooks_def)


end
