(* ===== verification/Rust_Paths.thy ===== *)
theory Rust_Paths
  imports Rust_Strings
begin

text \<open>
  Paths of \<open>std::path\<close> on Unix. A path is the list of its components, as \<open>Path::components\<close> gives them
  and as \<open>Path\<close> compares, strips and joins them: the root first, a leading \<open>.\<close> only, no empty
  components. \<open>parse_path\<close> and \<open>show_path\<close> relate it to the text.
\<close>

section \<open>Components\<close>

datatype component = RootDir | CurDir | ParentDir | Normal string

type_synonym path = "component list"

definition parse_component :: "string \<Rightarrow> component" where
  "parse_component s = (if s = ''.'' then CurDir else if s = ''..'' then ParentDir else Normal s)"

text \<open>Empty components and a \<open>.\<close> that is not the beginning are skipped.\<close>

definition parse_rest :: "string list \<Rightarrow> path" where
  "parse_rest parts = map parse_component (filter (\<lambda>s. s \<noteq> [] \<and> s \<noteq> ''.'') parts)"

definition parse_path :: "string \<Rightarrow> path" where
  "parse_path s =
     (case s of
        [] \<Rightarrow> []
      | c # cs \<Rightarrow>
          if c = CHR ''/'' then RootDir # parse_rest (split_on (CHR ''/'') cs)
          else (case split_on (CHR ''/'') s of
                  p # ps \<Rightarrow> (if p = ''.'' then [CurDir] else parse_rest [p]) @ parse_rest ps
                | [] \<Rightarrow> []))"

primrec show_component :: "component \<Rightarrow> string" where
  "show_component RootDir = ''/''"
| "show_component CurDir = ''.''"
| "show_component ParentDir = ''..''"
| "show_component (Normal s) = s"

definition show_path :: "path \<Rightarrow> string" where
  "show_path p = (case p of RootDir # q \<Rightarrow> ''/'' @ join_with ''/'' (map show_component q) | _ \<Rightarrow> join_with ''/'' (map show_component p))"

definition is_absolute :: "path \<Rightarrow> bool" where
  "is_absolute p \<longleftrightarrow> (case p of RootDir # _ \<Rightarrow> True | _ \<Rightarrow> False)"

abbreviation is_relative :: "path \<Rightarrow> bool" where
  "is_relative p \<equiv> \<not> is_absolute p"

section \<open>Operations\<close>

text \<open>\<open>PathBuf::push\<close> and \<open>Path::join\<close>: an absolute path replaces the base.\<close>

definition path_join :: "path \<Rightarrow> path \<Rightarrow> path" where
  "path_join p q = (if is_absolute q then q else if p = [] then q else p @ (case q of CurDir # r \<Rightarrow> r | _ \<Rightarrow> q))"

definition path_parent :: "path \<Rightarrow> path option" where
  "path_parent p = (if p = [] \<or> last p = RootDir then None else Some (butlast p))"

definition path_pop :: "path \<Rightarrow> path" where
  "path_pop p = (case path_parent p of Some q \<Rightarrow> q | None \<Rightarrow> p)"

definition file_name :: "path \<Rightarrow> string option" where
  "file_name p = (if p = [] then None else case last p of Normal s \<Rightarrow> Some s | _ \<Rightarrow> None)"

fun strip_prefix :: "path \<Rightarrow> path \<Rightarrow> path option" where
  "strip_prefix [] p = Some p"
| "strip_prefix (c # cs) [] = None"
| "strip_prefix (c # cs) (d # ds) = (if c = d then strip_prefix cs ds else None)"

definition starts_with :: "path \<Rightarrow> path \<Rightarrow> bool" where
  "starts_with p base \<longleftrightarrow> strip_prefix base p \<noteq> None"

section \<open>Well-formed paths\<close>

definition wf_name :: "string \<Rightarrow> bool" where
  "wf_name s \<longleftrightarrow> s \<noteq> [] \<and> CHR ''/'' \<notin> set s \<and> s \<noteq> ''.'' \<and> s \<noteq> ''..''"

primrec wf_inner :: "component \<Rightarrow> bool" where
  "wf_inner RootDir = False"
| "wf_inner CurDir = False"
| "wf_inner ParentDir = True"
| "wf_inner (Normal s) = wf_name s"

definition wf_path :: "path \<Rightarrow> bool" where
  "wf_path p \<longleftrightarrow> (case p of [] \<Rightarrow> True | c # cs \<Rightarrow> (c = RootDir \<or> c = CurDir \<or> wf_inner c) \<and> list_all wf_inner cs)"

text \<open>Only names: what a path has below a directory when it cannot leave it.\<close>

definition is_normal :: "component \<Rightarrow> bool" where
  "is_normal c \<longleftrightarrow> (case c of Normal _ \<Rightarrow> True | _ \<Rightarrow> False)"

lemma is_normal_simps [simp]:
  "\<not> is_normal RootDir" "\<not> is_normal CurDir" "\<not> is_normal ParentDir" "is_normal (Normal s)"
  by (simp_all add: is_normal_def)

lemma is_absolute_simps [simp]: "is_absolute (RootDir # p)" "\<not> is_absolute []" "\<not> is_absolute (CurDir # p)"
  "\<not> is_absolute (ParentDir # p)" "\<not> is_absolute (Normal s # p)"
  by (simp_all add: is_absolute_def)

lemma is_absolute_iff: "is_absolute p \<longleftrightarrow> (\<exists>q. p = RootDir # q)"
  by (auto simp: is_absolute_def split: list.splits component.splits)

lemma normal_not_absolute: "list_all is_normal p \<Longrightarrow> is_relative p"
  by (cases p) (auto simp: is_absolute_def split: component.splits)

lemma path_join_normal: "list_all is_normal q \<Longrightarrow> path_join p q = p @ q"
  using normal_not_absolute [of q]
  by (cases q) (auto simp: path_join_def split: component.splits)

lemma path_join_append: "p \<noteq> [] \<Longrightarrow> list_all wf_inner q \<Longrightarrow> path_join p q = p @ q"
  by (cases q) (auto simp: path_join_def is_absolute_def split: component.splits)

lemma strip_prefix_append [simp]: "strip_prefix p (p @ q) = Some q"
  by (induction p) auto

lemma strip_prefix_Some: "strip_prefix b p = Some q \<longleftrightarrow> p = b @ q"
  by (induction b p rule: strip_prefix.induct) auto

lemma starts_with_append [simp]: "starts_with (p @ q) p"
  by (simp add: starts_with_def)

lemma starts_with_iff: "starts_with p b \<longleftrightarrow> (\<exists>q. p = b @ q)"
  by (cases "strip_prefix b p") (auto simp: starts_with_def strip_prefix_Some)

lemma path_pop_snoc: "c \<noteq> RootDir \<Longrightarrow> path_pop (p @ [c]) = p"
  by (simp add: path_pop_def path_parent_def)

lemma parse_component_wf: "s \<noteq> [] \<Longrightarrow> CHR ''/'' \<notin> set s \<Longrightarrow> s \<noteq> ''.'' \<Longrightarrow> wf_inner (parse_component s)"
  by (simp add: parse_component_def wf_name_def)

lemma parse_rest_wf: "(\<And>s. s \<in> set parts \<Longrightarrow> CHR ''/'' \<notin> set s) \<Longrightarrow> list_all wf_inner (parse_rest parts)"
  by (auto simp: parse_rest_def list_all_iff parse_component_wf)

lemma parse_rest_head_wf: "CHR ''/'' \<notin> set p \<Longrightarrow> list_all wf_inner q \<Longrightarrow> wf_path (parse_rest [p] @ q)"
  by (cases q) (auto simp: parse_rest_def wf_path_def parse_component_wf)

text \<open>What is parsed is well-formed, and printing a well-formed path is inverted by parsing.\<close>

lemma parse_path_wf: "wf_path (parse_path s)"
proof (cases s)
  case (Cons c cs)
  show ?thesis
  proof (cases "c = CHR ''/''")
    case True
    then show ?thesis
      using Cons parse_rest_wf [of "split_on (CHR ''/'') cs"] split_on_parts_no_sep by (auto simp: parse_path_def wf_path_def)
  next
    case False
    obtain p ps where sp: "split_on (CHR ''/'') s = p # ps"
      by (cases "split_on (CHR ''/'') s") auto
    then have p: "CHR ''/'' \<notin> set p" and "\<And>q. q \<in> set ps \<Longrightarrow> CHR ''/'' \<notin> set q"
      using split_on_parts_no_sep [of _ "CHR ''/''" s] by auto
    then have ps: "list_all wf_inner (parse_rest ps)"
      by (intro parse_rest_wf)
    show ?thesis
      using Cons False sp p ps parse_rest_head_wf [OF p ps]
      by (auto simp: parse_path_def wf_path_def)
  qed
qed (simp add: parse_path_def wf_path_def)

lemma show_inner_inverse:
  "list_all wf_inner p \<Longrightarrow> filter (\<lambda>s. s \<noteq> [] \<and> s \<noteq> ''.'') (map show_component p) = map show_component p \<and>
     map parse_component (map show_component p) = p"
proof (induction p)
  case (Cons c p)
  then show ?case
    by (cases c) (auto simp: wf_name_def parse_component_def)
qed simp

lemma show_inner_no_sep: "wf_inner c \<Longrightarrow> CHR ''/'' \<notin> set (show_component c)"
  by (cases c) (auto simp: wf_name_def)

lemma parse_rest_show:
  assumes "list_all wf_inner q"
  shows "parse_rest (split_on (CHR ''/'') (join_with ''/'' (map show_component q))) = q"
proof (cases "q = []")
  case False
  have "split_on (CHR ''/'') (join_with ''/'' (map show_component q)) = map show_component q"
    using False assms show_inner_no_sep by (intro split_on_join) (auto simp: list_all_iff)
  then show ?thesis
    using show_inner_inverse [OF assms] by (simp add: parse_rest_def)
qed (simp add: parse_rest_def)

lemma show_component_head:
  "c = CurDir \<or> wf_inner c \<Longrightarrow> \<exists>x xs. show_component c = x # xs \<and> x \<noteq> CHR ''/''"
  by (cases c) (auto simp: wf_name_def neq_Nil_conv)

lemma join_with_Cons: "join_with sep (p # ps) = p @ (if ps = [] then [] else sep @ join_with sep ps)"
  by (cases ps) auto

lemma parse_show_path:
  assumes "wf_path p" shows "parse_path (show_path p) = p"
proof (cases p)
  case (Cons c q)
  show ?thesis
  proof (cases "c = RootDir")
    case True
    then show ?thesis
      using Cons assms parse_rest_show [of q] by (simp add: parse_path_def show_path_def wf_path_def)
  next
    case False
    then have wf: "c = CurDir \<or> wf_inner c" "list_all wf_inner q"
      using Cons assms by (auto simp: wf_path_def)
    let ?s = "join_with ''/'' (map show_component p)"
    obtain x xs where x: "show_component c = x # xs" "x \<noteq> CHR ''/''"
      using show_component_head [OF wf(1)] by blast
    then obtain ys where ys: "?s = x # ys"
      using Cons by (cases "map show_component q") auto
    have "split_on (CHR ''/'') ?s = map show_component p"
      using Cons wf show_inner_no_sep by (intro split_on_join) (auto simp: list_all_iff)
    moreover have "show_path p = ?s"
      using Cons False by (cases c) (auto simp: show_path_def)
    moreover have "(if show_component c = ''.'' then [CurDir] else parse_rest [show_component c]) = [c]"
      using wf(1) by (cases c) (auto simp: parse_rest_def parse_component_def wf_name_def)
    moreover have "parse_rest (map show_component q) = q"
      using show_inner_inverse [OF wf(2)] by (simp add: parse_rest_def)
    ultimately show ?thesis
      using Cons ys x(2) by (simp add: parse_path_def)
  qed
qed (simp add: parse_path_def show_path_def)

section \<open>Resolving \<open>.\<close> and \<open>..\<close> in a path\<close>

text \<open>
  The loop that \<open>PathBufExt::normalize\<close> of libcontainer and \<open>clean_cgroup_path\<close> of libcgroups share: a
  \<open>..\<close> pops the last component, but never the root.
\<close>

definition normalize_step :: "path \<Rightarrow> component \<Rightarrow> path" where
  "normalize_step ret c =
     (case c of
        RootDir \<Rightarrow> path_join ret [RootDir]
      | CurDir \<Rightarrow> ret
      | ParentDir \<Rightarrow> path_pop ret
      | Normal s \<Rightarrow> path_join ret [Normal s])"

definition path_normalize :: "path \<Rightarrow> path" where
  "path_normalize p = foldl normalize_step [] p"

text \<open>An abstract definition: the names that remain, with \<open>..\<close> cancelling the name before it.\<close>

fun resolve :: "string list \<Rightarrow> component list \<Rightarrow> string list" where
  "resolve st [] = rev st"
| "resolve st (ParentDir # cs) = resolve (tl st) cs"
| "resolve st (Normal s # cs) = resolve (s # st) cs"
| "resolve st (c # cs) = resolve st cs"

lemma normalize_step_inner:
  assumes "wf_inner c" "r = [] \<or> r = [RootDir]"
  shows "normalize_step (r @ map Normal (rev st)) c = r @ map Normal (rev (case c of Normal s \<Rightarrow> s # st | _ \<Rightarrow> tl st))"
proof (cases c)
  case ParentDir
  then show ?thesis
    using assms(2) by (cases st) (auto simp: normalize_step_def path_pop_def path_parent_def butlast_append)
next
  case (Normal s)
  then show ?thesis
    by (simp add: normalize_step_def path_join_def is_absolute_def)
qed (use assms in auto)

lemma normalize_loop:
  assumes "list_all wf_inner cs" "r = [] \<or> r = [RootDir]"
  shows "foldl normalize_step (r @ map Normal (rev st)) cs = r @ map Normal (resolve st cs)"
  using assms(1)
proof (induction cs arbitrary: st)
  case (Cons c cs)
  then show ?case
    using normalize_step_inner [OF _ assms(2), of c st] Cons.IH [of "case c of Normal s \<Rightarrow> s # st | _ \<Rightarrow> tl st"]
    by (cases c) auto
qed simp

lemma normalize_wf:
  assumes "wf_path p"
  shows "path_normalize p = (if is_absolute p then [RootDir] else []) @ map Normal (resolve [] p)"
proof (cases p)
  case (Cons c cs)
  then have cs: "list_all wf_inner cs" and c: "c = RootDir \<or> c = CurDir \<or> wf_inner c"
    using assms by (auto simp: wf_path_def)
  show ?thesis
  proof (cases c)
    case RootDir
    then show ?thesis
      using normalize_loop [OF cs, of "[RootDir]" "[]"] Cons
      by (simp add: path_normalize_def normalize_step_def path_join_def)
  next
    case CurDir
    then show ?thesis
      using normalize_loop [OF cs, of "[]" "[]"] Cons by (simp add: path_normalize_def normalize_step_def)
  next
    case ParentDir
    then show ?thesis
      using normalize_loop [OF cs, of "[]" "[]"] Cons
      by (simp add: path_normalize_def normalize_step_def path_pop_def path_parent_def)
  next
    case (Normal s)
    then show ?thesis
      using normalize_loop [OF cs, of "[]" "[s]"] Cons by (simp add: path_normalize_def normalize_step_def path_join_def)
  qed
qed (simp add: path_normalize_def)

lemma normalize_normal: "wf_path p \<Longrightarrow> is_relative p \<Longrightarrow> list_all is_normal (path_normalize p)"
  by (simp add: normalize_wf list_all_iff)

lemma resolve_names: "set (resolve st p) \<subseteq> set st \<union> {s. Normal s \<in> set p}"
proof (induction st p rule: resolve.induct)
  case (2 st cs)
  then show ?case
    by (cases st) auto
qed auto

lemma normalize_wf_path:
  assumes "wf_path p" shows "wf_path (path_normalize p)"
proof -
  have "wf_name s" if "Normal s \<in> set p" for s
    using assms that by (cases p) (auto simp: wf_path_def list_all_iff)
  then have "list_all wf_inner (map Normal (resolve [] p))"
    using resolve_names [of "[]" p] by (auto simp: list_all_iff)
  then show ?thesis
    using assms by (cases "map Normal (resolve [] p)") (auto simp: normalize_wf wf_path_def)
qed

end
