(* ===== verification/Cgroup_Fs.thy ===== *)
theory Cgroup_Fs
  imports Rust_Paths
begin

text \<open>
  The helpers that all cgroup managers share, \<open>libcgroups/src/common.rs\<close>: reading and writing cgroup
  files, walking a cgroup, removing it with retries, detecting the setup of the system and joining
  paths below the cgroup root. The file system is the record \<open>fs_env\<close> of calls over a world \<open>'w\<close>.
\<close>

section \<open>Errors and the file system\<close>

datatype os_error = Os nat | InvalidData | TimedOut | OtherOs string

definition raw_os_error :: "os_error \<Rightarrow> nat option" where
  "raw_os_error e = (case e of Os n \<Rightarrow> Some n | _ \<Rightarrow> None)"

text \<open>\<open>Error::kind\<close>, where the code looks at it: ENOENT and EEXIST.\<close>

definition is_not_found :: "os_error \<Rightarrow> bool" where
  "is_not_found e \<longleftrightarrow> e = Os 2"

definition is_already_exists :: "os_error \<Rightarrow> bool" where
  "is_already_exists e \<longleftrightarrow> e = Os 17"

datatype wrapped_io_error =
    WOpen os_error path
  | WWrite os_error path string
  | WRead os_error path
  | WCreateDir os_error path
  | WOther os_error path

primrec inner_error :: "wrapped_io_error \<Rightarrow> os_error" where
  "inner_error (WOpen e p) = e"
| "inner_error (WWrite e p d) = e"
| "inner_error (WRead e p) = e"
| "inner_error (WCreateDir e p) = e"
| "inner_error (WOther e p) = e"

datatype fs_magic = CGROUP2_SUPER_MAGIC | TMPFS_MAGIC | OtherMagic

record 'w fs_env =
  path_exists :: "path \<Rightarrow> 'w \<Rightarrow> bool"
  open_write :: "path \<Rightarrow> ('w, os_error, unit) st"
  write_all :: "path \<Rightarrow> string \<Rightarrow> ('w, os_error, unit) st"
  fs_write :: "path \<Rightarrow> string \<Rightarrow> ('w, os_error, unit) st"
  read_to_string :: "path \<Rightarrow> 'w \<Rightarrow> (os_error, string) outcome"
  open_lines :: "path \<Rightarrow> 'w \<Rightarrow> (os_error, string list) outcome"
  create_dir :: "path \<Rightarrow> ('w, os_error, unit) st"
  remove_dir :: "path \<Rightarrow> ('w, os_error, unit) st"
  read_dir :: "path \<Rightarrow> 'w \<Rightarrow> (os_error, (os_error + path) list) outcome"
  path_is_dir :: "path \<Rightarrow> 'w \<Rightarrow> bool"
  statfs_type :: "path \<Rightarrow> 'w \<Rightarrow> (os_error, fs_magic) outcome"
  sleep_ms :: "nat \<Rightarrow> 'w \<Rightarrow> 'w"
  send_sigkill :: "i32 \<Rightarrow> 'w \<Rightarrow> 'w"

section \<open>Reading and writing cgroup files\<close>

text \<open>The file \<open>name\<close> of a cgroup; none of the names that the controllers use has a slash.\<close>

abbreviation in_dir :: "path \<Rightarrow> string \<Rightarrow> path" where
  "in_dir p name \<equiv> path_join p [Normal name]"

text \<open>
  \<open>write_cgroup_file_str\<close>, and \<open>write_cgroup_file\<close> for a value already converted by \<open>to_string\<close>: the file is
  opened without creating or truncating it.
\<close>

definition write_cgroup_file :: "('w, 'z) fs_env_scheme \<Rightarrow> path \<Rightarrow> string \<Rightarrow> ('w, wrapped_io_error, unit) st" where
  "write_cgroup_file env p data =
     st_bind (st_map_err (\<lambda>e. WOpen e p) (open_write env p)) (\<lambda>_.
     st_map_err (\<lambda>e. WWrite e p data) (write_all env p data))"

text \<open>\<open>str::split_inclusive\<close>: every part but the last ends with the separator.\<close>

fun split_inclusive :: "char \<Rightarrow> string \<Rightarrow> string list" where
  "split_inclusive c [] = []"
| "split_inclusive c (x # xs) =
     (if x = c then [x] # split_inclusive c xs
      else case split_inclusive c xs of [] \<Rightarrow> [[x]] | p # ps \<Rightarrow> (x # p) # ps)"

definition newline :: char where "newline = CHR 0x0A"

definition write_by_line :: "('w, 'z) fs_env_scheme \<Rightarrow> path \<Rightarrow> string \<Rightarrow> ('w, wrapped_io_error, unit) st" where
  "write_by_line env p data =
     st_for (\<lambda>line. st_map_err (\<lambda>e. WWrite e p line) (write_all env p line)) (split_inclusive newline data)"

definition write_cgroup_file_by_line :: "('w, 'z) fs_env_scheme \<Rightarrow> path \<Rightarrow> string \<Rightarrow> ('w, wrapped_io_error, unit) st" where
  "write_cgroup_file_by_line env p data =
     st_bind (st_map_err (\<lambda>e. WOpen e p) (open_write env p)) (\<lambda>_. write_by_line env p data)"

definition read_cgroup_file :: "('w, 'z) fs_env_scheme \<Rightarrow> path \<Rightarrow> 'w \<Rightarrow> (wrapped_io_error, string) outcome" where
  "read_cgroup_file env p w = map_err (\<lambda>e. WRead e p) (read_to_string env p w)"

section \<open>Detecting the setup\<close>

datatype cgroup_setup = Hybrid | Legacy | Unified

primrec show_cgroup_setup :: "cgroup_setup \<Rightarrow> string" where
  "show_cgroup_setup Hybrid = ''hybrid''"
| "show_cgroup_setup Legacy = ''legacy''"
| "show_cgroup_setup Unified = ''unified''"

datatype freezer_state = FreezerUndefined | Frozen | Thawed

datatype setup_error = SetupIo wrapped_io_error | NonDefault | FailedToDetect

definition DEFAULT_CGROUP_ROOT :: path where
  "DEFAULT_CGROUP_ROOT = [RootDir, Normal ''sys'', Normal ''fs'', Normal ''cgroup'']"

definition get_cgroup_setup_with_root :: "('w, 'z) fs_env_scheme \<Rightarrow> path \<Rightarrow> 'w \<Rightarrow> (setup_error, cgroup_setup) outcome" where
  "get_cgroup_setup_with_root env root_path w =
     (if path_exists env root_path w then
        bind_outcome (map_err (\<lambda>e. SetupIo (WOther e root_path)) (statfs_type env root_path w)) (\<lambda>t.
        if t = CGROUP2_SUPER_MAGIC then Ok Unified
        else if t = TMPFS_MAGIC then
          (let unified = in_dir root_path ''unified'' in
           if path_exists env unified w then
             bind_outcome (map_err (\<lambda>e. SetupIo (WOther e unified)) (statfs_type env unified w)) (\<lambda>t'.
             if t' = CGROUP2_SUPER_MAGIC then Ok Hybrid else Ok Legacy)
           else Ok Legacy)
        else Err FailedToDetect)
      else Err NonDefault)"

definition detect_cgroup_setup :: "('w, 'z) fs_env_scheme \<Rightarrow> 'w \<Rightarrow> (setup_error, cgroup_setup) outcome" where
  "detect_cgroup_setup env = get_cgroup_setup_with_root env DEFAULT_CGROUP_ROOT"

section \<open>The processes of a cgroup\<close>

definition CGROUP_PROCS :: string where "CGROUP_PROCS = ''cgroup.procs''"

fun parse_pids :: "path \<Rightarrow> string list \<Rightarrow> (wrapped_io_error, i32 list) outcome" where
  "parse_pids p [] = Ok []"
| "parse_pids p (l # ls) =
     bind_outcome (map_err (\<lambda>_. WOther InvalidData p) (parse_i32 l)) (\<lambda>n.
     bind_outcome (parse_pids p ls) (\<lambda>ns. Ok (word_of_int n # ns)))"

text \<open>The callback of \<open>get_all_pids\<close> for one directory.\<close>

definition dir_pids :: "('w, 'z) fs_env_scheme \<Rightarrow> path \<Rightarrow> 'w \<Rightarrow> (wrapped_io_error, i32 list) outcome" where
  "dir_pids env p w =
     (let file_path = in_dir p CGROUP_PROCS in
      if path_exists env file_path w
      then bind_outcome (map_err (\<lambda>e. WOpen e file_path) (open_lines env file_path w)) (parse_pids file_path)
      else Ok [])"

fun walk_entries :: "(path \<Rightarrow> (wrapped_io_error, i32 list) outcome) \<Rightarrow> (path \<Rightarrow> bool) \<Rightarrow> path \<Rightarrow> (os_error + path) list \<Rightarrow>
    (wrapped_io_error, i32 list) outcome" where
  "walk_entries rec isdir p [] = Ok []"
| "walk_entries rec isdir p (Inl e # es) = Err (WOpen e p)"
| "walk_entries rec isdir p (Inr q # es) =
     bind_outcome (if isdir q then rec q else Ok []) (\<lambda>a.
     bind_outcome (walk_entries rec isdir p es) (\<lambda>b. Ok (a @ b)))"

text \<open>
  \<open>get_all_pids\<close>: \<open>walk_dir\<close> with the callback, the directory before the entries. The fuel bounds the depth of the tree.
\<close>

fun walk_dir :: "nat \<Rightarrow> ('w, 'z) fs_env_scheme \<Rightarrow> path \<Rightarrow> 'w \<Rightarrow> (wrapped_io_error, i32 list) outcome" where
  "walk_dir 0 env p w = Diverge"
| "walk_dir (Suc n) env p w =
     bind_outcome (dir_pids env p w) (\<lambda>ps.
     bind_outcome (map_err (\<lambda>e. WRead e p) (read_dir env p w)) (\<lambda>es.
     bind_outcome (walk_entries (\<lambda>q. walk_dir n env q w) (\<lambda>q. path_is_dir env q w) p es) (\<lambda>qs.
     Ok (ps @ qs))))"

section \<open>Paths below the cgroup root\<close>

definition clean_cgroup_path :: "path \<Rightarrow> path" where
  "clean_cgroup_path p = foldl normalize_step [] p"

datatype join_safely_error = StripPrefixError path

definition cg_join_safely :: "path \<Rightarrow> path \<Rightarrow> (join_safely_error, path) outcome" where
  "cg_join_safely base p =
     (let p = clean_cgroup_path p in
      if is_relative p then Ok (path_join base p)
      else bind_outcome (ok_or (StripPrefixError p) (strip_prefix [RootDir] p)) (\<lambda>stripped. Ok (path_join base stripped)))"

section \<open>Removal with retries\<close>

text \<open>The loop for the attempts that remain; \<open>limit\<close> bounds the delay, in milliseconds.\<close>

fun delete_loop :: "('w, 'z) fs_env_scheme \<Rightarrow> path \<Rightarrow> nat option \<Rightarrow> nat \<Rightarrow> nat \<Rightarrow> nat \<Rightarrow> ('w, wrapped_io_error, unit) st" where
  "delete_loop env p limit 0 attempts delay w = (Err (WOther TimedOut p), w)"
| "delete_loop env p limit (Suc remaining) attempts delay w =
     (case remove_dir env p w of
        (Ok _, w) \<Rightarrow> (Ok (), w)
      | (Err _, w) \<Rightarrow>
          (let w = sleep_ms env delay w; attempts = attempts + 1; delay = delay * attempts;
               delay = (case limit of Some l \<Rightarrow> min delay l | None \<Rightarrow> delay)
           in delete_loop env p limit remaining attempts delay w)
      | (Panic, w) \<Rightarrow> (Panic, w)
      | (Diverge, w) \<Rightarrow> (Diverge, w))"

definition delete_with_retry :: "('w, 'z) fs_env_scheme \<Rightarrow> path \<Rightarrow> nat \<Rightarrow> nat option \<Rightarrow> ('w, wrapped_io_error, unit) st" where
  "delete_with_retry env p retries limit = delete_loop env p limit retries 0 10"

section \<open>Staying below the root\<close>

lemma clean_cgroup_path_normalize: "clean_cgroup_path p = path_normalize p"
  by (simp add: clean_cgroup_path_def path_normalize_def)

lemma cg_join_safely_names:
  assumes "wf_path p"
  shows "cg_join_safely base p = Ok (base @ map Normal (resolve [] p))"
proof -
  let ?q = "map Normal (resolve [] p)"
  have n: "list_all is_normal ?q"
    by (simp add: list_all_iff)
  show ?thesis
  proof (cases "is_absolute p")
    case True
    then show ?thesis
      using path_join_normal [OF n] by (simp add: cg_join_safely_def clean_cgroup_path_normalize normalize_wf [OF assms])
  next
    case False
    then show ?thesis
      using path_join_normal [OF n] normal_not_absolute [OF n]
      by (simp add: cg_join_safely_def clean_cgroup_path_normalize normalize_wf [OF assms])
  qed
qed

text \<open>
  C6. \<open>join_safely\<close> never leaves the cgroup root: for any path, with any number of \<open>..\<close>, it succeeds with
  the root followed by names only. These names are what is left when each \<open>..\<close> cancels the name
  before it and the \<open>..\<close> with nothing before them are dropped.
\<close>

theorem join_safely_below_root:
  assumes "wf_path p"
  shows "\<exists>q. cg_join_safely base p = Ok (base @ q) \<and> q = map Normal (resolve [] p) \<and> list_all is_normal q \<and>
    starts_with (base @ q) base"
  using assms by (simp add: cg_join_safely_names list_all_iff)

theorem join_safely_below_root_witness:
  "cg_join_safely DEFAULT_CGROUP_ROOT (parse_path ''/../a/../../b'') = Ok (DEFAULT_CGROUP_ROOT @ [Normal ''b''])"
proof -
  have "parse_path ''/../a/../../b'' = [RootDir, ParentDir, Normal ''a'', ParentDir, ParentDir, Normal ''b'']"
    by (simp add: parse_path_def parse_rest_def parse_component_def)
  then show ?thesis
    using join_safely_below_root [OF parse_path_wf, of DEFAULT_CGROUP_ROOT "''/../a/../../b''"] by simp
qed

section \<open>All processes of a cgroup\<close>

inductive subdir :: "('w, 'z) fs_env_scheme \<Rightarrow> 'w \<Rightarrow> path \<Rightarrow> path \<Rightarrow> bool" for env w where
  subdir_refl: "subdir env w p p"
| subdir_step: "read_dir env p w = Ok es \<Longrightarrow> Inr q \<in> set es \<Longrightarrow> path_is_dir env q w \<Longrightarrow> subdir env w q r \<Longrightarrow> subdir env w p r"

lemma subdir_iff:
  assumes "read_dir env p w = Ok es"
  shows "subdir env w p r \<longleftrightarrow> r = p \<or> (\<exists>q. Inr q \<in> set es \<and> path_is_dir env q w \<and> subdir env w q r)"
  using assms by (subst subdir.simps) auto

definition listed :: "('w, 'z) fs_env_scheme \<Rightarrow> 'w \<Rightarrow> path \<Rightarrow> i32 set" where
  "listed env w p = {x. \<exists>q xs. subdir env w p q \<and> dir_pids env q w = Ok xs \<and> x \<in> set xs}"

lemma listed_unfold:
  assumes "dir_pids env p w = Ok ps" "read_dir env p w = Ok es"
  shows "listed env w p = set ps \<union> (\<Union>q \<in> {q. Inr q \<in> set es \<and> path_is_dir env q w}. listed env w q)"
proof -
  have "x \<in> listed env w p \<longleftrightarrow> x \<in> set ps \<or> (\<exists>q. Inr q \<in> set es \<and> path_is_dir env q w \<and> x \<in> listed env w q)" for x
    unfolding listed_def mem_Collect_eq subdir_iff [OF assms(2)] using assms(1) by (metis outcome.inject(1))
  then show ?thesis
    by blast
qed

lemma walk_entries_Ok:
  "walk_entries rec isdir p es = Ok qs \<Longrightarrow>
     set qs = (\<Union>q \<in> {q. Inr q \<in> set es \<and> isdir q}. case rec q of Ok xs \<Rightarrow> set xs | _ \<Rightarrow> {}) \<and>
     (\<forall>q. Inr q \<in> set es \<and> isdir q \<longrightarrow> is_ok (rec q))"
proof (induction rec isdir p es arbitrary: qs rule: walk_entries.induct)
  case (3 rec isdir p q es)
  then show ?case
    by (cases "isdir q") (fastforce simp: outcome_simps is_ok_def)+
qed auto

text \<open>
  C32. \<open>get_all_pids\<close> finds every process of the cgroup and its descendants: when it succeeds, the pids
  it returns are exactly those that the \<open>cgroup.procs\<close> files of the directory and of all directories
  below it list.
\<close>

theorem get_all_pids_complete:
  assumes "walk_dir n env p w = Ok ps"
  shows "set ps = listed env w p"
  using assms
proof (induction n arbitrary: p ps)
  case (Suc n)
  obtain xs es qs where *: "dir_pids env p w = Ok xs" "read_dir env p w = Ok es"
      "walk_entries (\<lambda>q. walk_dir n env q w) (\<lambda>q. path_is_dir env q w) p es = Ok qs" "ps = xs @ qs"
    using Suc.prems by (auto simp: outcome_simps)
  have "(case walk_dir n env q w of Ok ys \<Rightarrow> set ys | _ \<Rightarrow> {}) = listed env w q" if "is_ok (walk_dir n env q w)" for q
    using Suc.IH [of q] that by (auto simp: is_ok_def split: outcome.splits)
  then have "set qs = (\<Union>q \<in> {q. Inr q \<in> set es \<and> path_is_dir env q w}. listed env w q)"
    using walk_entries_Ok [OF *(3)] by auto
  then show ?case
    using * listed_unfold [OF *(1,2)] by simp
qed simp

text \<open>The walk ends when the fuel exceeds the depth of the tree and the calls themselves end.\<close>

fun deep :: "nat \<Rightarrow> ('w, 'z) fs_env_scheme \<Rightarrow> 'w \<Rightarrow> path \<Rightarrow> bool" where
  "deep 0 env w p = False"
| "deep (Suc n) env w p \<longleftrightarrow> dir_pids env p w \<noteq> Diverge \<and>
     (case read_dir env p w of
        Ok es \<Rightarrow> \<forall>q. Inr q \<in> set es \<longrightarrow> path_is_dir env q w \<longrightarrow> deep n env w q
      | Diverge \<Rightarrow> False | _ \<Rightarrow> True)"

lemma walk_entries_ends:
  "(\<And>q. Inr q \<in> set es \<Longrightarrow> isdir q \<Longrightarrow> rec q \<noteq> Diverge) \<Longrightarrow> walk_entries rec isdir p es \<noteq> Diverge"
  by (induction rec isdir p es rule: walk_entries.induct) (auto simp: outcome_simps split: if_splits)

lemma get_all_pids_terminates: "deep n env w p \<Longrightarrow> walk_dir n env p w \<noteq> Diverge"
proof (induction n arbitrary: p)
  case (Suc n)
  then show ?case
    using walk_entries_ends [of _ "\<lambda>q. path_is_dir env q w" "\<lambda>q. walk_dir n env q w" p]
    by (auto simp: outcome_simps split: outcome.splits)
qed simp

section \<open>Bounded waiting\<close>

text \<open>
  C35. Removing a cgroup with retries waits at most for the number of retries times the limit of the
  delay, whatever the removals do.
\<close>

theorem delete_with_retry_bounded:
  assumes "\<forall>d w. slept (sleep_ms env d w) = slept w + d" and "\<forall>p w. slept (snd (remove_dir env p w)) = slept w" and "10 \<le> limit"
  shows "slept (snd (delete_with_retry env p retries (Some limit) w)) \<le> slept w + retries * limit"
proof -
  have "delay \<le> limit \<Longrightarrow> slept (snd (delete_loop env p (Some limit) remaining attempts delay w)) \<le> slept w + remaining * limit"
    for remaining attempts delay w
  proof (induction remaining arbitrary: attempts delay w)
    case (Suc remaining)
    obtain r w1 where r: "remove_dir env p w = (r, w1)"
      by (cases "remove_dir env p w")
    then have w1: "slept w1 = slept w"
      using assms(2) by (metis snd_conv)
    show ?case
    proof (cases r)
      case (Err e)
      let ?d = "min (delay * (attempts + 1)) limit"
      have "slept (snd (delete_loop env p (Some limit) remaining (attempts + 1) ?d (sleep_ms env delay w1)))
          \<le> slept (sleep_ms env delay w1) + remaining * limit"
        by (rule Suc.IH) simp
      then show ?thesis
        using Suc.prems r Err w1 assms(1) by (simp add: Let_def)
    qed (use r w1 in auto)
  qed simp
  then show ?thesis
    using assms(3) by (simp add: delete_with_retry_def)
qed

section \<open>A concrete file system\<close>

record demo_fs =
  df_file :: "path \<rightharpoonup> string"
  df_dirs :: "path list"
  df_log :: "(path \<times> string) list"
  df_slept :: nat
  df_killed :: "i32 list"

definition demo_fs_env :: "demo_fs fs_env" where
  "demo_fs_env =
     \<lparr>path_exists = (\<lambda>p w. df_file w p \<noteq> None \<or> p \<in> set (df_dirs w)),
      open_write = (\<lambda>p w. (if df_file w p = None then Err (Os 2) else Ok (), w)),
      write_all = (\<lambda>p d w. (Ok (), w\<lparr>df_file := (df_file w)(p \<mapsto> d), df_log := df_log w @ [(p, d)]\<rparr>)),
      fs_write = (\<lambda>p d w. (Ok (), w\<lparr>df_file := (df_file w)(p \<mapsto> d), df_log := df_log w @ [(p, d)]\<rparr>)),
      read_to_string = (\<lambda>p w. ok_or (Os 2) (df_file w p)),
      open_lines = (\<lambda>p w. ok_or (Os 2) (map_option str_lines (df_file w p))),
      create_dir = (\<lambda>p w. if p \<in> set (df_dirs w) then (Err (Os 17), w) else 
         (Ok (), w\<lparr>df_dirs := p # df_dirs w, df_file := (df_file w)(p @ [Normal CGROUP_PROCS] \<mapsto> '''')\<rparr>)),
      remove_dir = (\<lambda>p w. if p \<in> set (df_dirs w) then 
         (Ok (), w\<lparr>df_dirs := removeAll p (df_dirs w), df_file := (df_file w)(p := None)\<rparr>) else (Err (Os 2), w)),
      read_dir = (\<lambda>p w. Ok (map Inr (filter (\<lambda>q. q \<noteq> [] \<and> butlast q = p) (df_dirs w)))),
      path_is_dir = (\<lambda>p w. p \<in> set (df_dirs w)),
      statfs_type = (\<lambda>p w. Ok CGROUP2_SUPER_MAGIC),
      sleep_ms = (\<lambda>n w. w\<lparr>df_slept := df_slept w + n\<rparr>),
      send_sigkill = (\<lambda>p w. w\<lparr>df_killed := df_killed w @ [p]\<rparr>)\<rparr>"

definition empty_fs :: demo_fs where
  "empty_fs = \<lparr>df_file = Map.empty, df_dirs = [], df_log = [], df_slept = 0, df_killed = []\<rparr>"

definition demo_tree :: demo_fs where
  "demo_tree = empty_fs
     \<lparr>df_dirs := [[RootDir, Normal ''c''], [RootDir, Normal ''c'', Normal ''d'']],
      df_file := [[RootDir, Normal ''c'', Normal ''cgroup.procs''] \<mapsto> ''7'', [RootDir, Normal ''c'', Normal ''d'', Normal ''cgroup.procs''] \<mapsto> ''9'']\<rparr>"

theorem get_all_pids_complete_witness:
  "walk_dir 3 demo_fs_env [RootDir, Normal ''c''] demo_tree = Ok [7, 9] \<and> listed demo_fs_env demo_tree [RootDir, Normal ''c''] = {7, 9}"
proof -
  have w: "walk_dir 3 demo_fs_env [RootDir, Normal ''c''] demo_tree = Ok [7, 9]"
    by (simp add: numeral_3_eq_3 dir_pids_def demo_fs_env_def demo_tree_def empty_fs_def path_join_def CGROUP_PROCS_def
        str_lines_def split_terminator_def strip_cr_def parse_sint_def digit_val_def)
  from get_all_pids_complete [OF w] w show ?thesis
    by auto
qed

theorem delete_with_retry_bounded_witness:
  "df_slept (snd (delete_with_retry demo_fs_env [RootDir, Normal ''c''] 4 (Some 100) empty_fs)) \<le> 400"
proof -
  have "\<forall>d w. df_slept (sleep_ms demo_fs_env d w) = df_slept w + d" "\<forall>p w. df_slept (snd (remove_dir demo_fs_env p w)) = df_slept w"
    by (simp_all add: demo_fs_env_def)
  from delete_with_retry_bounded [OF this, of 100 "[RootDir, Normal ''c'']" 4 empty_fs] show ?thesis
    by (simp add: empty_fs_def)
qed

end
