(* ===== verification/Container_Lifecycle.thy ===== *)
theory Container_Lifecycle
  imports Hooks Cgroup_Fs
begin

text \<open>
  The commands of a container, \<open>libcontainer/src/container/container_\<close>\{\<open>start\<close>, \<open>kill\<close>, \<open>pause\<close>,
  \<open>resume\<close>, \<open>delete\<close>\}\<open>.rs\<close> with \<open>NotifySocket::notify_container_start\<close>. Each is a call over the
  container and the world. The cgroup manager of the container is an interface, as the trait
  \<open>CgroupManager\<close> is in the code: its operations are fields of \<open>runtime_env\<close>, keyed by the
  configuration the manager is created from.
\<close>

section \<open>The environment\<close>

record hooks_config =
  poststart :: "hook list option"
  poststop :: "hook list option"

record youki_config =
  config_hooks :: "hooks_config option"
  config_cgroup_path :: string

record cgroup_config =
  cgroup_path :: string
  systemd_cgroup :: bool
  container_name :: string

record 'w runtime_env = "'w state_env" +
  load_config :: "string \<Rightarrow> 'w \<Rightarrow> (string, youki_config) outcome"
  get_cgroup_setup :: "'w \<Rightarrow> (string, cgroup_setup) outcome"
  create_manager :: "cgroup_config \<Rightarrow> ('w, string, unit) st"
  cm_freeze :: "cgroup_config \<Rightarrow> freezer_state \<Rightarrow> ('w, string, unit) st"
  cm_get_all_pids :: "cgroup_config \<Rightarrow> 'w \<Rightarrow> (string, i32 list) outcome"
  cm_remove :: "cgroup_config \<Rightarrow> ('w, string, unit) st"
  sys_kill :: "i32 \<Rightarrow> nix_signal \<Rightarrow> ('w, nat, unit) st"
  current_dir :: "'w \<Rightarrow> (io_error, string) outcome"
  sys_chdir :: "string \<Rightarrow> ('w, nat, unit) st"
  unix_connect :: "string \<Rightarrow> ('w, io_error, u32) st"
  write_stream :: "u32 \<Rightarrow> string \<Rightarrow> ('w, io_error, unit) st"
  hook_ops :: "'w hook_env"
  cleanup_intel_rdt :: "string option \<Rightarrow> string option \<Rightarrow> bool option \<Rightarrow> string \<Rightarrow> ('w, string, unit) st"
  root_exists :: "string \<Rightarrow> 'w \<Rightarrow> bool"
  remove_dir_all :: "string \<Rightarrow> ('w, io_error, unit) st"

definition ESRCH :: nat where "ESRCH = 3"

definition NOTIFY_FILE :: string where "NOTIFY_FILE = ''notify.sock''"

section \<open>Helpers of the commands\<close>

text \<open>Errors that are only logged.\<close>

definition st_ignore_err :: "('s, 'e, unit) st \<Rightarrow> ('s, 'f, unit) st" where
  "st_ignore_err m s =
     (case m s of (Ok _, s') \<Rightarrow> (Ok (), s') | (Err _, s') \<Rightarrow> (Ok (), s') | (Panic, s') \<Rightarrow> (Panic, s') | (Diverge, s') \<Rightarrow> (Diverge, s'))"

text \<open>\<open>Container::spec\<close>.\<close>

definition container_spec :: "('w, 'z) runtime_env_scheme \<Rightarrow> ('w, youki_config) cmd" where
  "container_spec env = (\<lambda>(c, w). (map_err Config (load_config env (root c) w), c, w))"

definition cgroup_config_of :: "container \<Rightarrow> string \<Rightarrow> cgroup_config" where
  "cgroup_config_of c path =
     \<lparr>cgroup_path = path, systemd_cgroup = use_systemd (state c), container_name = id_of (state c)\<rparr>"

text \<open>The manager for the cgroup path of the container's configuration, as every command creates it.\<close>

definition cgroup_manager :: "('w, 'z) runtime_env_scheme \<Rightarrow> ('w, cgroup_config) cmd" where
  "cgroup_manager env =
     st_bind (container_spec env) (\<lambda>spec.
     st_bind (read_container (\<lambda>c. cgroup_config_of c (config_cgroup_path spec))) (\<lambda>cfg.
     st_bind (on_world (st_map_err CgroupCreate (create_manager env cfg))) (\<lambda>_.
     st_return cfg)))"

text \<open>\<open>self.set_status(st).save()?\<close>\<close>

definition set_status_save :: "('w, 'z) state_env_scheme \<Rightarrow> container_status \<Rightarrow> ('w, unit) cmd" where
  "set_status_save env st = st_bind (set_status_st env st) (\<lambda>_. container_save env)"

definition incorrect_status :: "('w, 'a) cmd" where
  "incorrect_status = (\<lambda>(c, w). (Err (IncorrectStatus (status (state c))), c, w))"

section \<open>Kill\<close>

text \<open>A process that is already gone is what the caller wants.\<close>

definition kill_pid :: "('w, 'z) runtime_env_scheme \<Rightarrow> nix_signal \<Rightarrow> i32 \<Rightarrow> ('w, nat, unit) st" where
  "kill_pid env sig p w =
     (case sys_kill env p sig w of
        (Err e, w') \<Rightarrow> (if e = ESRCH then Ok () else Err e, w')
      | (r, w') \<Rightarrow> (r, w'))"

text \<open>A process frozen by cgroup v1 is thawed so that it can receive SIGKILL.\<close>

definition thaw_after_kill :: "('w, 'z) runtime_env_scheme \<Rightarrow> nix_signal \<Rightarrow> ('w, unit) cmd" where
  "thaw_after_kill env sig =
     st_bind (read_container (\<lambda>c. status (state c))) (\<lambda>st.
     if st = Paused \<and> sig = SIGKILL then
       st_bind (\<lambda>(c, w). (map_err CgroupGet (get_cgroup_setup env w), c, w)) (\<lambda>setup.
       if setup = Legacy \<or> setup = Hybrid then
         st_bind (cgroup_manager env) (\<lambda>cfg.
         on_world (st_map_err CgroupManagerErr (cm_freeze env cfg Thawed)))
       else st_return ())
     else st_return ())"

definition kill_one_process :: "('w, 'z) runtime_env_scheme \<Rightarrow> nix_signal \<Rightarrow> ('w, unit) cmd" where
  "kill_one_process env sig =
     st_bind (read_container (\<lambda>c. pid (state c))) (\<lambda>p.
     st_bind (st_lift (ok_or (Other ''container process pid not found in state'') p)) (\<lambda>p.
     st_bind (on_world (st_map_err OtherSyscall (kill_pid env sig p))) (\<lambda>_.
     thaw_after_kill env sig)))"

definition kill_all_processes :: "('w, 'z) runtime_env_scheme \<Rightarrow> nix_signal \<Rightarrow> ('w, unit) cmd" where
  "kill_all_processes env sig =
     st_bind (cgroup_manager env) (\<lambda>cfg. on_world (
     st_bind (st_ignore_err (cm_freeze env cfg Frozen)) (\<lambda>_.
     st_bind (\<lambda>w. (map_err CgroupManagerErr (cm_get_all_pids env cfg w), w)) (\<lambda>pids.
     st_bind (st_map_err OtherSyscall (st_for (kill_pid env sig) pids)) (\<lambda>_.
     st_ignore_err (cm_freeze env cfg Thawed))))))"

definition do_kill :: "('w, 'z) runtime_env_scheme \<Rightarrow> nix_signal \<Rightarrow> bool \<Rightarrow> ('w, unit) cmd" where
  "do_kill env sig all = (if all then kill_all_processes env sig else kill_one_process env sig)"

definition container_kill :: "('w, 'z) runtime_env_scheme \<Rightarrow> nix_signal \<Rightarrow> bool \<Rightarrow> ('w, unit) cmd" where
  "container_kill env sig all =
     st_bind (refresh_status env) (\<lambda>_.
     st_bind (read_container (\<lambda>c. status (state c))) (\<lambda>st.
     st_bind
       (if can_kill st then do_kill env sig all
        else if all \<and> st = Stopped then do_kill env sig all
        else incorrect_status) (\<lambda>_.
     set_status_save env Stopped)))"

section \<open>Start\<close>

text \<open>
  \<open>NotifySocket::notify_container_start\<close>, for the parent and the file name of the socket's path.
\<close>

definition notify_container_start :: "('w, 'z) runtime_env_scheme \<Rightarrow> string \<Rightarrow> string option \<Rightarrow> string option \<Rightarrow>
    ('w, notify_error, unit) st" where
  "notify_container_start env path parent fname =
     st_bind (\<lambda>w. (map_err GetCwd (current_dir env w), w)) (\<lambda>cwd.
     st_bind (st_lift (ok_or (InvalidPath path) parent)) (\<lambda>workdir.
     st_bind (st_map_err (ChdirError workdir) (sys_chdir env workdir)) (\<lambda>_.
     st_bind (st_lift (ok_or (InvalidPath path) fname)) (\<lambda>socket_name.
     st_bind (st_map_err (Connect socket_name) (unix_connect env socket_name)) (\<lambda>stream.
     st_bind (st_map_err SendStartContainer (write_stream env stream ''start container'')) (\<lambda>_.
     st_map_err (ChdirError cwd) (sys_chdir env cwd)))))))"

text \<open>The hooks of a kind, when the configuration has hooks at all.\<close>

definition run_config_hooks :: "('w, 'z) runtime_env_scheme \<Rightarrow> youki_config \<Rightarrow> (hooks_config \<Rightarrow> hook list option) \<Rightarrow>
    (container \<Rightarrow> string option) \<Rightarrow> ('w, unit) cmd" where
  "run_config_hooks env config kind cwd =
     (case config_hooks config of
        Some hooks \<Rightarrow> (\<lambda>(c, w).
          on_world (st_map_err HookErr (run_hooks (hook_ops env) (kind hooks) (Some (state c)) (cwd c) None None)) (c, w))
      | None \<Rightarrow> st_return ())"

definition container_start :: "('w, 'z) runtime_env_scheme \<Rightarrow> ('w, unit) cmd" where
  "container_start env =
     st_bind (refresh_status env) (\<lambda>_.
     st_bind (read_container (\<lambda>c. status (state c))) (\<lambda>st.
     if \<not> can_start st then incorrect_status
     else
       st_bind (container_spec env) (\<lambda>config.
       st_bind (read_container root) (\<lambda>r.
       st_bind (on_world (st_map_err NotifyListener
         (notify_container_start env (r @ ''/'' @ NOTIFY_FILE) (Some r) (Some NOTIFY_FILE)))) (\<lambda>_.
       st_bind (set_status_save env Running) (\<lambda>_.
       run_config_hooks env config poststart (\<lambda>c. Some (root c))))))))"

section \<open>Pause and resume\<close>

definition container_pause :: "('w, 'z) runtime_env_scheme \<Rightarrow> ('w, unit) cmd" where
  "container_pause env =
     st_bind (refresh_status env) (\<lambda>_.
     st_bind (read_container (\<lambda>c. status (state c))) (\<lambda>st.
     if \<not> can_pause st then incorrect_status
     else
       st_bind (cgroup_manager env) (\<lambda>cfg.
       st_bind (on_world (st_map_err CgroupManagerErr (cm_freeze env cfg Frozen))) (\<lambda>_.
       set_status_save env Paused))))"

definition container_resume :: "('w, 'z) runtime_env_scheme \<Rightarrow> ('w, unit) cmd" where
  "container_resume env =
     st_bind (refresh_status env) (\<lambda>_.
     st_bind (read_container (\<lambda>c. status (state c))) (\<lambda>st.
     if \<not> can_resume st then incorrect_status
     else
       st_bind (cgroup_manager env) (\<lambda>cfg.
       st_bind (on_world (st_map_err CgroupManagerErr (cm_freeze env cfg Thawed))) (\<lambda>_.
       set_status_save env Running))))"

section \<open>Delete\<close>

text \<open>Removal of the cgroup and the \<open>poststop\<close> hooks, when the configuration can be read.\<close>

definition delete_cgroup :: "('w, 'z) runtime_env_scheme \<Rightarrow> ('w, unit) cmd" where
  "delete_cgroup env = (\<lambda>(c, w).
     (case load_config env (root c) w of
        Ok config \<Rightarrow>
          (let cfg = cgroup_config_of c (config_cgroup_path config) in
           st_bind (on_world (st_map_err CgroupCreate (create_manager env cfg))) (\<lambda>_.
           st_bind (on_world (st_map_err CgroupManagerErr (cm_remove env cfg))) (\<lambda>_.
           run_config_hooks env config poststop (\<lambda>_. None))) (c, w))
      | Err _ \<Rightarrow> (Ok (), c, w)
      | Panic \<Rightarrow> (Panic, c, w)
      | Diverge \<Rightarrow> (Diverge, c, w)))"

definition delete_root :: "('w, 'z) runtime_env_scheme \<Rightarrow> ('w, unit) cmd" where
  "delete_root env = (\<lambda>(c, w). on_world (st_map_err OtherIO (remove_dir_all env (root c))) (c, w))"

text \<open>Whether the container may be deleted; one that is created, or \<open>force\<close>, is killed first.\<close>

definition delete_guard :: "('w, 'z) runtime_env_scheme \<Rightarrow> bool \<Rightarrow> container_status \<Rightarrow> ('w, unit) cmd" where
  "delete_guard env force st =
     (case st of
        Stopped \<Rightarrow> st_return ()
      | Created \<Rightarrow> st_bind (do_kill env SIGKILL True) (\<lambda>_. set_status_save env Stopped)
      | _ \<Rightarrow> if force then st_bind (do_kill env SIGKILL True) (\<lambda>_. set_status_save env Stopped)
             else incorrect_status)"

definition delete_rdt :: "('w, 'z) runtime_env_scheme \<Rightarrow> ('w, unit) cmd" where
  "delete_rdt env = (\<lambda>(c, w).
     on_world (st_ignore_err (cleanup_intel_rdt env (intel_rdt_dir (state c)) (intel_rdt_monitoring_dir (state c))
       (clean_up_intel_rdt_subdirectory (state c)) (id_of (state c)))) (c, w))"

definition container_delete :: "('w, 'z) runtime_env_scheme \<Rightarrow> bool \<Rightarrow> ('w, unit) cmd" where
  "container_delete env force =
     st_bind (refresh_status env) (\<lambda>_.
     st_bind (read_container (\<lambda>c. status (state c))) (\<lambda>st.
     st_bind (delete_guard env force st) (\<lambda>_.
     st_bind (delete_rdt env) (\<lambda>_.
     (\<lambda>(c, w).
       if root_exists env (root c) w
       then st_bind (delete_cgroup env) (\<lambda>_. delete_root env) (c, w)
       else (Ok (), c, w))))))"

section \<open>The commands as one function\<close>

datatype command_kind = CStart | CKill nix_signal bool | CPause | CResume | CDelete bool

primrec run_cmd :: "('w, 'z) runtime_env_scheme \<Rightarrow> command_kind \<Rightarrow> ('w, unit) cmd" where
  "run_cmd env CStart = container_start env"
| "run_cmd env (CKill sig all) = container_kill env sig all"
| "run_cmd env CPause = container_pause env"
| "run_cmd env CResume = container_resume env"
| "run_cmd env (CDelete force) = container_delete env force"

text \<open>The documented automaton: the statuses in which a command is accepted and the one it leads to.\<close>

primrec permitted :: "command_kind \<Rightarrow> container_status \<Rightarrow> bool" where
  "permitted CStart st = (st = Created)"
| "permitted (CKill sig all) st = (st \<in> {Created, Running, Paused} \<or> all \<and> st = Stopped)"
| "permitted CPause st = (st = Running)"
| "permitted CResume st = (st = Paused)"
| "permitted (CDelete force) st = (st \<in> {Stopped, Created} \<or> force)"

primrec target :: "command_kind \<Rightarrow> container_status" where
  "target CStart = Running"
| "target (CKill sig all) = Stopped"
| "target CPause = Paused"
| "target CResume = Running"
| "target (CDelete force) = Stopped"

section \<open>What a command keeps\<close>

lemma st_keeps_on_world: "st_keeps I m \<Longrightarrow> st_keeps (\<lambda>(c, w). J c \<and> I w) (on_world m)"
  by (auto simp: st_keeps_def on_world_def split: prod.splits)

lemma st_keeps_read_container: "st_keeps K (read_container f)"
  by (auto simp: st_keeps_def read_container_def)

lemma st_keeps_ignore: "st_keeps I m \<Longrightarrow> st_keeps I (st_ignore_err m)"
  by (auto simp: st_keeps_def st_ignore_err_def split: prod.splits outcome.splits)

lemma st_keeps_look: "st_keeps K (\<lambda>(c, w). (f c w, c, w))" and st_keeps_look_world: "st_keeps I (\<lambda>w. (g w, w))"
  by (auto simp: st_keeps_def)

lemma st_keeps_incorrect: "st_keeps K incorrect_status"
  by (auto simp: st_keeps_def incorrect_status_def)

lemma st_keeps_at: "(\<And>c. st_keeps K (m c)) \<Longrightarrow> st_keeps K (\<lambda>(c, w). m c (c, w))"
  by (auto simp: st_keeps_def)

lemma st_keeps_world_if: "st_keeps K m \<Longrightarrow> st_keeps K (\<lambda>(c, w). if b c w then m (c, w) else (r, c, w))"
  by (auto simp: st_keeps_def)

lemmas cmd_keeps_intros = st_keeps_intros st_keeps_on_world st_keeps_read_container st_keeps_ignore
  st_keeps_look st_keeps_look_world st_keeps_incorrect

text \<open>
  An invariant of the world that the calls outside the state file and the container's directory keep:
  the cgroup manager, signals, the notify socket, the hooks.
\<close>

definition cgroup_keeps :: "('w, 'z) runtime_env_scheme \<Rightarrow> ('w \<Rightarrow> bool) \<Rightarrow> bool" where
  "cgroup_keeps env I \<longleftrightarrow>
     (\<forall>cfg. st_keeps I (create_manager env cfg)) \<and> (\<forall>cfg f. st_keeps I (cm_freeze env cfg f)) \<and>
     (\<forall>cfg. st_keeps I (cm_remove env cfg)) \<and> (\<forall>p s. st_keeps I (sys_kill env p s)) \<and>
     (\<forall>a b cl i. st_keeps I (cleanup_intel_rdt env a b cl i))"

definition notify_keeps :: "('w, 'z) runtime_env_scheme \<Rightarrow> ('w \<Rightarrow> bool) \<Rightarrow> bool" where
  "notify_keeps env I \<longleftrightarrow>
     (\<forall>d. st_keeps I (sys_chdir env d)) \<and> (\<forall>n. st_keeps I (unix_connect env n)) \<and> (\<forall>s x. st_keeps I (write_stream env s x))"

definition hooks_keep :: "'w hook_env \<Rightarrow> ('w \<Rightarrow> bool) \<Rightarrow> bool" where
  "hooks_keep env I \<longleftrightarrow>
     (\<forall>c. st_keeps I (spawn env c)) \<and> (\<forall>p x. st_keeps I (write_stdin env p x)) \<and> (\<forall>p. st_keeps I (wait_process env p)) \<and>
     (\<forall>p n. st_keeps I (wait_timeout env p n)) \<and> (\<forall>p s w. I w \<longrightarrow> I (kill_hook env p s w))"

definition env_keeps :: "('w, 'z) runtime_env_scheme \<Rightarrow> ('w \<Rightarrow> bool) \<Rightarrow> bool" where
  "env_keeps env I \<longleftrightarrow> cgroup_keeps env I \<and> notify_keeps env I \<and> hooks_keep (hook_ops env) I"

lemma send_state_keeps: "hooks_keep env I \<Longrightarrow> st_keeps I (send_state env p os)"
  unfolding send_state_def
  by (intro st_keeps_bind st_keeps_lift)
     (auto simp: st_keeps_def hooks_keep_def split: prod.splits outcome.splits io_error.splits, (metis snd_conv)+)

lemma wait_hook_keeps: "hooks_keep env I \<Longrightarrow> st_keeps I (wait_hook env p h)"
  unfolding wait_hook_def
  by (cases "hook_timeout h")
     (auto simp: st_keeps_def hooks_keep_def st_map_err_def split: prod.splits outcome.splits option.splits, (metis snd_conv)+)

lemma run_hooks_keeps:
  assumes "hooks_keep env I" shows "st_keeps I (run_hooks env hs s cwd p denv)"
proof -
  have "st_keeps I (spawn env x)" for x
    using assms by (simp add: hooks_keep_def)
  then have "st_keeps I (run_hook env cwd denv os h)" for os h
    unfolding run_hook_def by (intro st_keeps_intros send_state_keeps wait_hook_keeps assms)
  then show ?thesis
    unfolding run_hooks_def Let_def by (cases hs) (auto intro!: st_keeps_intros)
qed

lemma kill_pid_keeps: "cgroup_keeps env I \<Longrightarrow> st_keeps I (kill_pid env sig p)"
  by (auto simp: st_keeps_def kill_pid_def cgroup_keeps_def split: prod.splits outcome.splits) (metis snd_conv)+

lemma cgroup_manager_keeps: "cgroup_keeps env I \<Longrightarrow> st_keeps (\<lambda>(c, w). J c \<and> I w) (cgroup_manager env)"
  unfolding cgroup_manager_def container_spec_def
  by (intro cmd_keeps_intros) (simp add: cgroup_keeps_def)

lemma do_kill_keeps:
  assumes "cgroup_keeps env I" shows "st_keeps (\<lambda>(c, w). J c \<and> I w) (do_kill env sig all)"
proof -
  have "st_keeps I (cm_freeze env cfg f)" for cfg f
    using assms by (simp add: cgroup_keeps_def)
  then show ?thesis
    unfolding do_kill_def kill_all_processes_def kill_one_process_def thaw_after_kill_def
    by (intro cmd_keeps_intros cgroup_manager_keeps kill_pid_keeps assms)
qed

lemma notify_keeps_start: "notify_keeps env I \<Longrightarrow> st_keeps I (notify_container_start env path par fname)"
  unfolding notify_container_start_def by (intro cmd_keeps_intros) (auto simp: notify_keeps_def)

lemma run_config_hooks_keeps:
  "hooks_keep (hook_ops env) I \<Longrightarrow> st_keeps (\<lambda>(c, w). J c \<and> I w) (run_config_hooks env config kind cwd)"
  unfolding run_config_hooks_def
  by (cases "config_hooks config") (auto intro!: st_keeps_at [where m = "\<lambda>c. on_world (m' c)" for m'] cmd_keeps_intros run_hooks_keeps)

text \<open>
  What the commands do to the container is to set its status: to what a refresh finds, or to the
  target. A predicate that these changes keep, together with an invariant of the world that saving
  such a container and removing its directory keep, is kept by every command, however it ends.
\<close>

definition status_closed :: "(container \<Rightarrow> bool) \<Rightarrow> bool" where
  "status_closed J \<longleftrightarrow> (\<forall>c t st. J c \<longrightarrow> st \<in> {Running, Stopped, Paused, status (state c)} \<longrightarrow> J (set_status t st c))"

lemma set_status_save_keeps:
  assumes "status_closed J" "st \<in> {Running, Stopped, Paused}" "\<And>c. J c \<Longrightarrow> st_keeps I (state_save env (state c) (root c))"
  shows "st_keeps (\<lambda>(c, w). J c \<and> I w) (set_status_save env st)"
  unfolding set_status_save_def
proof (rule st_keeps_bind)
  show "st_keeps (\<lambda>(c, w). J c \<and> I w) (set_status_st env st)"
    using assms(1,2) by (auto simp: st_keeps_def set_status_st_def status_closed_def)
  show "st_keeps (\<lambda>(c, w). J c \<and> I w) (container_save env)"
    using assms(3) by (auto simp: st_keeps_def container_save_def on_world_def st_map_err_def split: prod.splits) (metis snd_conv)
qed

lemma refresh_status_keeps:
  assumes "status_closed J" shows "st_keeps (\<lambda>(c, w). J c \<and> I w) (refresh_status env)"
proof -
  have "st \<in> {Running, Stopped, Paused, status (state c)}" if "refreshed_status env c w = Ok st" for c w st
    using refreshed_status_cases [OF that] by (auto split: if_splits)
  then have "J (set_status (now env w) st c)" if "refreshed_status env c w = Ok st" "J c" for c w st
    using that assms unfolding status_closed_def by blast
  then show ?thesis
    unfolding st_keeps_def by (auto simp: refresh_status_eq split: outcome.splits)
qed

lemma delete_cgroup_keeps:
  assumes "env_keeps env I" shows "st_keeps (\<lambda>(c, w). J c \<and> I w) (delete_cgroup env)"
proof -
  have "st_keeps (\<lambda>(c, w). J c \<and> I w)
      (st_bind (on_world (st_map_err CgroupCreate (create_manager env cfg))) (\<lambda>_.
       st_bind (on_world (st_map_err CgroupManagerErr (cm_remove env cfg))) (\<lambda>_.
       run_config_hooks env config poststop (\<lambda>_. None))))" for cfg config
    using assms(1) unfolding env_keeps_def cgroup_keeps_def
    by (intro cmd_keeps_intros run_config_hooks_keeps) auto
  then show ?thesis
    unfolding delete_cgroup_def st_keeps_def by (simp add: Let_def split: outcome.splits)
qed

lemma delete_root_keeps:
  assumes "\<And>c. J c \<Longrightarrow> st_keeps I (remove_dir_all env (root c))"
  shows "st_keeps (\<lambda>(c, w). J c \<and> I w) (delete_root env)"
  using assms by (auto simp: st_keeps_def delete_root_def on_world_def st_map_err_def split: prod.splits) (metis snd_conv)

lemma delete_guard_keeps:
  assumes "cgroup_keeps env I" "status_closed J" "\<And>c. J c \<Longrightarrow> st_keeps I (state_save env (state c) (root c))"
  shows "st_keeps (\<lambda>(c, w). J c \<and> I w) (delete_guard env force st)"
proof -
  have "st_keeps (\<lambda>(c, w). J c \<and> I w) (st_bind (do_kill env SIGKILL True) (\<lambda>_. set_status_save env Stopped))"
    by (intro cmd_keeps_intros do_kill_keeps set_status_save_keeps assms) simp
  then show ?thesis
    unfolding delete_guard_def by (cases st) (auto intro: cmd_keeps_intros)
qed

lemma delete_rdt_keeps: "cgroup_keeps env I \<Longrightarrow> st_keeps (\<lambda>(c, w). J c \<and> I w) (delete_rdt env)"
  unfolding delete_rdt_def by (intro st_keeps_at cmd_keeps_intros) (simp add: cgroup_keeps_def)

lemma container_delete_keeps:
  assumes "env_keeps env I" "status_closed J" "\<And>c. J c \<Longrightarrow> st_keeps I (state_save env (state c) (root c))"
    "\<And>c. J c \<Longrightarrow> st_keeps I (remove_dir_all env (root c))"
  shows "st_keeps (\<lambda>(c, w). J c \<and> I w) (container_delete env force)"
proof -
  have "cgroup_keeps env I"
    using assms(1) by (simp add: env_keeps_def)
  then show ?thesis
    unfolding container_delete_def
    by (intro st_keeps_bind st_keeps_read_container refresh_status_keeps st_keeps_world_if delete_guard_keeps delete_rdt_keeps
        delete_cgroup_keeps delete_root_keeps assms)
qed

lemma run_cmd_keeps:
  assumes "env_keeps env I" "status_closed J" "\<And>c. J c \<Longrightarrow> st_keeps I (state_save env (state c) (root c))"
    "\<And>c. J c \<Longrightarrow> st_keeps I (remove_dir_all env (root c))"
  shows "st_keeps (\<lambda>(c, w). J c \<and> I w) (run_cmd env k)"
proof (cases k)
  case CStart
  have nk: "notify_keeps env I" "hooks_keep (hook_ops env) I"
    using assms(1) by (simp_all add: env_keeps_def)
  show ?thesis
    unfolding CStart run_cmd.simps container_start_def container_spec_def
    by (intro cmd_keeps_intros refresh_status_keeps notify_keeps_start set_status_save_keeps run_config_hooks_keeps assms nk) simp
next
  case (CKill sig all)
  have cg: "cgroup_keeps env I"
    using assms(1) by (simp add: env_keeps_def)
  show ?thesis
    unfolding CKill run_cmd.simps container_kill_def
    by (intro cmd_keeps_intros refresh_status_keeps do_kill_keeps set_status_save_keeps assms cg) simp
next
  case CPause
  have cg: "cgroup_keeps env I" "\<And>cfg f. st_keeps I (cm_freeze env cfg f)"
    using assms(1) by (simp_all add: env_keeps_def cgroup_keeps_def)
  show ?thesis
    unfolding CPause run_cmd.simps container_pause_def
    by (intro cmd_keeps_intros refresh_status_keeps cgroup_manager_keeps set_status_save_keeps assms cg) simp
next
  case CResume
  have cg: "cgroup_keeps env I" "\<And>cfg f. st_keeps I (cm_freeze env cfg f)"
    using assms(1) by (simp_all add: env_keeps_def cgroup_keeps_def)
  show ?thesis
    unfolding CResume run_cmd.simps container_resume_def
    by (intro cmd_keeps_intros refresh_status_keeps cgroup_manager_keeps set_status_save_keeps assms cg) simp
next
  case (CDelete force)
  then show ?thesis
    using container_delete_keeps [OF assms] by simp
qed

section \<open>Accepted and rejected commands\<close>

lemma run_cmd_refreshed:
  "refreshed_status env c w = Ok st \<Longrightarrow> refresh_status env (c, w) = (Ok (), set_status (now env w) st c, w)"
  by (simp add: refresh_status_eq)

text \<open>
  C9. A command that the automaton does not permit in the refreshed status fails with
  \<open>IncorrectStatus\<close> and has no effect at all: no signal is sent, no cgroup touched, no file written, no
  hook run. Only the refreshed status is kept in memory.
\<close>

theorem rejected_command_no_effect:
  assumes "refreshed_status env c w = Ok st" and "\<not> permitted k st"
  shows "run_cmd env k (c, w) = (Err (IncorrectStatus st), set_status (now env w) st c, w)"
  using assms
  by (cases k; cases st)
     (auto simp: container_start_def container_kill_def container_pause_def container_resume_def container_delete_def delete_guard_def
        st_bind_def run_cmd_refreshed read_container_def incorrect_status_def can_start_def can_kill_def can_pause_def can_resume_def)

lemma set_status_save_Ok:
  assumes "set_status_save env st (c, w) = (Ok (), c', w')"
  shows "c' = set_status (now env w) st c \<and> state_save env (state c') (root c') w = (Ok (), w')"
  using assms
  by (auto simp: set_status_save_def outcome_simps set_status_st_def container_save_def on_world_def st_map_err_def map_err_eq
      split: prod.splits)

text \<open>The calls that leave the container as it is.\<close>

lemma st_keepsD: "st_keeps K m \<Longrightarrow> m s = (r, s') \<Longrightarrow> K s \<Longrightarrow> K s'"
  unfolding st_keeps_def by (metis snd_conv)

lemma cmd_keepsD:
  assumes "st_keeps (\<lambda>(c, w). J c \<and> I w) m" "m (c, w) = (r, c', w')" "J c" "I w"
  shows "J c'" "I w'"
  using st_keepsD [OF assms(1,2)] assms(3,4) by simp_all

lemma same_container:
  assumes "m (c, w) = (r, c', w')" "\<And>J. st_keeps (\<lambda>(c, w). J c \<and> True) m"
  shows "c' = c"
  using st_keepsD [OF assms(2) [of "\<lambda>x. x = c"] assms(1)] by simp

lemma any_world: "env_keeps env (\<lambda>w. True)"
  by (simp add: env_keeps_def cgroup_keeps_def notify_keeps_def hooks_keep_def st_keeps_def)

lemma same_container_steps:
  "do_kill env sig all (c, w) = (r, c', w') \<Longrightarrow> c' = c"
  "cgroup_manager env (c, w) = (q, c', w') \<Longrightarrow> c' = c"
  "run_config_hooks env config kind cwd (c, w) = (r, c', w') \<Longrightarrow> c' = c"
  "delete_cgroup env (c, w) = (r, c', w') \<Longrightarrow> c' = c"
  "delete_root env (c, w) = (r, c', w') \<Longrightarrow> c' = c"
  using any_world [of env] unfolding env_keeps_def
  by (auto elim!: same_container intro!: do_kill_keeps cgroup_manager_keeps run_config_hooks_keeps delete_cgroup_keeps delete_root_keeps
      simp: env_keeps_def st_keeps_def [of "\<lambda>w. True"])

lemma on_world_Ok: "on_world m (c, w) = (r, c', w') \<longleftrightarrow> c' = c \<and> m w = (r, w')"
  by (auto simp: on_world_def split: prod.splits)

lemma read_container_Ok: "read_container f (c, w) = (r, c', w') \<longleftrightarrow> r = Ok (f c) \<and> c' = c \<and> w' = w"
  by (auto simp: read_container_def)

lemma incorrect_status_not_Ok [simp]: "incorrect_status s \<noteq> (Ok x, s')"
  by (cases s) (simp add: incorrect_status_def)

lemmas cmd_eqs = outcome_simps refresh_status_Ok on_world_Ok read_container_Ok

lemma start_Ok:
  assumes "container_start env (c, w) = (Ok (), c', w')"
  obtains w1 w2 config where "refreshed_status env c w = Ok Created" "c' = set_status (now env w1) Running (set_status (now env w) Created c)"
    "load_config env (root c) w = Ok config"
    "state_save env (state c') (root c') w1 = (Ok (), w2)" "run_config_hooks env config poststart (\<lambda>c. Some (root c)) (c', w2) = (Ok (), c', w')"
proof -
  obtain config w1 c2 w2 where *: "refreshed_status env c w = Ok Created" "load_config env (root c) w = Ok config"
    "set_status_save env Running (set_status (now env w) Created c, w1) = (Ok (), c2, w2)"
    "run_config_hooks env config poststart (\<lambda>c. Some (root c)) (c2, w2) = (Ok (), c', w')"
    using assms unfolding container_start_def by (auto simp: cmd_eqs can_start_def container_spec_def split: if_splits)
  moreover have "c2 = c'"
    using same_container_steps(3) *(4) by metis
  ultimately show thesis
    using that set_status_save_Ok [OF *(3)] by blast
qed

lemma delete_Ok_status:
  assumes "container_delete env force (c, w) = (Ok (), c', w')"
  shows "\<exists>st. refreshed_status env c w = Ok st \<and> permitted (CDelete force) st \<and> status (state c') = Stopped"
  using assms unfolding container_delete_def delete_guard_def delete_rdt_def
  by (auto simp: cmd_eqs split: if_splits container_status.splits dest!: set_status_save_Ok same_container_steps)

text \<open>
  C2. The commands implement the automaton: whenever a command succeeds it was permitted in the
  refreshed status and has left the container in its target status, with its identity (id, pid, bundle,
  directory, owner, annotations) unchanged.
\<close>

theorem command_refines_automaton:
  assumes "run_cmd env k (c, w) = (Ok (), c', w')"
  shows "\<exists>st. refreshed_status env c w = Ok st \<and> permitted k st \<and> status (state c') = target k \<and> identity c' = identity c"
proof -
  have "st_keeps (\<lambda>(c', w). identity c' = identity c \<and> True) (run_cmd env k)"
    by (rule run_cmd_keeps [OF any_world]) (auto simp: status_closed_def st_keeps_def)
  from st_keepsD [OF this assms] have id: "identity c' = identity c"
    by simp
  have "\<exists>st. refreshed_status env c w = Ok st \<and> permitted k st \<and> status (state c') = target k"
  proof (cases k)
    case CStart
    then show ?thesis
      using assms by (auto elim: start_Ok)
  next
    case (CDelete force)
    then show ?thesis
      using assms delete_Ok_status by fastforce
  next
    case (CKill sig all)
    then show ?thesis
      using assms by (auto simp: cmd_eqs container_kill_def can_kill_def split: if_splits container_status.splits dest!: set_status_save_Ok)
  qed (use assms in \<open>auto simp: cmd_eqs container_pause_def container_resume_def can_pause_def can_resume_def
         split: if_splits dest!: set_status_save_Ok\<close>)
  with id show ?thesis
    by blast
qed

section \<open>Sequences of commands\<close>

text \<open>
  Each command is a process of its own that loads the container from the state file. Between the
  commands the world changes as it likes (processes end, cgroups change), but nobody else writes
  the state file.
\<close>

abbreviation stored :: "('w, 'z) runtime_env_scheme \<Rightarrow> string \<Rightarrow> 'w \<Rightarrow> (io_error, state) outcome" where
  "stored env r w \<equiv> parse_state_file env (state_file_path r) w"

inductive cli_steps :: "('w, 'z) runtime_env_scheme \<Rightarrow> string \<Rightarrow> 'w \<Rightarrow> 'w \<Rightarrow> bool" for env r where
  cli_refl: "cli_steps env r w w"
| cli_cmd: "cli_steps env r w w1 \<Longrightarrow> container_load env r w1 = Ok c \<Longrightarrow> run_cmd env k (c, w1) = (res, c', w2) \<Longrightarrow> cli_steps env r w w2"
| cli_world: "cli_steps env r w w1 \<Longrightarrow> stored env r w2 = stored env r w1 \<Longrightarrow> cli_steps env r w w2"

text \<open>
  The state file under the calls of \<open>State::save\<close>: opening it may truncate it, writing buffers a state
  (\<open>pend\<close>) that may reach the file at once or when it is flushed. The other calls leave it alone, and
  removing the directory makes no readable state.
\<close>

definition open_law :: "('w, 'z) runtime_env_scheme \<Rightarrow> bool" where
  "open_law env \<longleftrightarrow> (\<forall>p q w. parse_state_file env q (snd (open_state_file env p w)) \<noteq> parse_state_file env q w \<longrightarrow>
     \<not> is_ok (parse_state_file env q (snd (open_state_file env p w))))"

definition write_law :: "('w, 'z) runtime_env_scheme \<Rightarrow> ('w \<Rightarrow> string \<Rightarrow> state option) \<Rightarrow> bool" where
  "write_law env pend \<longleftrightarrow>
     (\<forall>p q s w. parse_state_file env q (snd (write_state env p s w)) \<noteq> parse_state_file env q w \<longrightarrow>
        is_ok (parse_state_file env q (snd (write_state env p s w))) \<longrightarrow> parse_state_file env q (snd (write_state env p s w)) = Ok s) \<and>
     (\<forall>p s w. pend (snd (write_state env p s w)) p \<in> {None, Some s})"

definition flush_law :: "('w, 'z) runtime_env_scheme \<Rightarrow> ('w \<Rightarrow> string \<Rightarrow> state option) \<Rightarrow> bool" where
  "flush_law env pend \<longleftrightarrow>
     (\<forall>p q s w. parse_state_file env q (snd (flush_state env p w)) = Ok s \<longrightarrow> parse_state_file env q w = Ok s \<or> pend w p = Some s)"

definition remove_law :: "('w, 'z) runtime_env_scheme \<Rightarrow> bool" where
  "remove_law env \<longleftrightarrow> (\<forall>d q w. parse_state_file env q (snd (remove_dir_all env d w)) \<noteq> parse_state_file env q w \<longrightarrow>
     \<not> is_ok (parse_state_file env q (snd (remove_dir_all env d w))))"

definition state_file_law :: "('w, 'z) runtime_env_scheme \<Rightarrow> ('w \<Rightarrow> string \<Rightarrow> state option) \<Rightarrow> bool" where
  "state_file_law env pend \<longleftrightarrow> open_law env \<and> write_law env pend \<and> flush_law env pend \<and> remove_law env"

definition state_file_private :: "('w, 'z) runtime_env_scheme \<Rightarrow> bool" where
  "state_file_private env \<longleftrightarrow> (\<forall>p x. env_keeps env (\<lambda>w. parse_state_file env p w = x))"

lemma is_ok_Ok: "is_ok (Ok x)"
  by (simp add: is_ok_def)

lemma st_keeps_fun: "(\<And>x. st_keeps (\<lambda>w. f w = x) m) \<Longrightarrow> st_keeps (\<lambda>w. P (f w)) m"
  unfolding st_keeps_def by metis

lemma env_keeps_fun: "(\<And>x. env_keeps env (\<lambda>w. f w = x)) \<Longrightarrow> env_keeps env (\<lambda>w. P (f w))"
  unfolding env_keeps_def cgroup_keeps_def notify_keeps_def hooks_keep_def
  by (intro conjI allI impI st_keeps_fun [where f = f and P = P]) auto

lemma state_file_lawD:
  assumes "state_file_law env pend"
  shows "parse_state_file env q (snd (open_state_file env p w)) = Ok s \<Longrightarrow> parse_state_file env q w = Ok s"
    "parse_state_file env q (snd (write_state env p s0 w)) = Ok s \<Longrightarrow> parse_state_file env q w = Ok s \<or> s = s0"
    "pend (snd (write_state env p s0 w)) p = Some s \<Longrightarrow> s = s0"
    "parse_state_file env q (snd (flush_state env p w)) = Ok s \<Longrightarrow> parse_state_file env q w = Ok s \<or> pend w p = Some s"
    "parse_state_file env q (snd (remove_dir_all env d w)) = Ok s \<Longrightarrow> parse_state_file env q w = Ok s"
proof -
  show "parse_state_file env q (snd (open_state_file env p w)) = Ok s \<Longrightarrow> parse_state_file env q w = Ok s"
    using assms unfolding state_file_law_def open_law_def by (metis is_ok_Ok)
  show "parse_state_file env q (snd (write_state env p s0 w)) = Ok s \<Longrightarrow> parse_state_file env q w = Ok s \<or> s = s0"
    using assms unfolding state_file_law_def write_law_def by (metis is_ok_Ok outcome.inject(1))
  show "pend (snd (write_state env p s0 w)) p = Some s \<Longrightarrow> s = s0"
    using assms unfolding state_file_law_def write_law_def by (metis insertE option.distinct(1) option.inject singletonD)
  show "parse_state_file env q (snd (flush_state env p w)) = Ok s \<Longrightarrow> parse_state_file env q w = Ok s \<or> pend w p = Some s"
    using assms unfolding state_file_law_def flush_law_def by metis
  show "parse_state_file env q (snd (remove_dir_all env d w)) = Ok s \<Longrightarrow> parse_state_file env q w = Ok s"
    using assms unfolding state_file_law_def remove_law_def by (metis is_ok_Ok)
qed

lemma st_map_err_snd: "st_map_err h m w = (x, w') \<Longrightarrow> w' = snd (m w)"
  by (auto simp: st_map_err_def split: prod.splits)

lemma state_save_ends:
  assumes "w1 = snd (open_state_file env (state_file_path r) w)" "w2 = snd (write_state env (state_file_path r) s w1)"
    "w3 = snd (flush_state env (state_file_path r) w2)"
  shows "snd (state_save env s r w) \<in> {w1, w2, w3}"
  unfolding state_save_def Let_def assms
  by (simp add: st_bind_def st_map_err_def st_return_def split: prod.split outcome.split)

lemma state_save_keeps:
  assumes "state_file_law env pend" "G s0"
  shows "st_keeps (\<lambda>w. \<forall>s. parse_state_file env q w = Ok s \<longrightarrow> G s) (state_save env s0 r)"
  unfolding st_keeps_def
proof (intro allI impI)
  fix w s assume w: "\<forall>s. parse_state_file env q w = Ok s \<longrightarrow> G s" and s: "parse_state_file env q (snd (state_save env s0 r w)) = Ok s"
  define w1 where "w1 = snd (open_state_file env (state_file_path r) w)"
  define w2 where "w2 = snd (write_state env (state_file_path r) s0 w1)"
  define w3 where "w3 = snd (flush_state env (state_file_path r) w2)"
  note law = state_file_lawD [OF assms(1)]
  have 1: "G s" if "parse_state_file env q w1 = Ok s" for s
    using law(1) w that unfolding w1_def by blast
  have 2: "G s" if "parse_state_file env q w2 = Ok s" for s
    using law(2) 1 that assms(2) unfolding w2_def by blast
  have "pend w2 (state_file_path r) = Some s \<Longrightarrow> G s" for s
    using law(3) assms(2) unfolding w2_def by blast
  then have "G s" if "parse_state_file env q w3 = Ok s" for s
    using law(4) 2 that unfolding w3_def by blast
  then show "G s"
    using 1 2 s state_save_ends [OF w1_def w2_def w3_def] by auto
qed

definition started :: "container \<Rightarrow> bool" where
  "started c \<longleftrightarrow> status (state c) \<noteq> Creating \<and> status (state c) \<noteq> Created"

lemma started_closed: "status_closed started"
  by (auto simp: status_closed_def started_def)

lemma container_load_stored:
  assumes "container_load env r w = Ok c"
  shows "\<exists>s. stored env r w = Ok s \<and> refresh_status env (\<lparr>state = s, root = r\<rparr>, w) = (Ok (), c, w)"
  using assms by (auto simp: container_load_def state_load_def Let_def outcome_simps refresh_status_eq split: prod.splits outcome.splits)

lemma container_load_started:
  assumes "container_load env r w = Ok c" "\<forall>s. stored env r w = Ok s \<longrightarrow> started \<lparr>state = s, root = r\<rparr>"
  shows "started c"
proof -
  obtain s where s: "stored env r w = Ok s" "refresh_status env (\<lparr>state = s, root = r\<rparr>, w) = (Ok (), c, w)"
    using container_load_stored [OF assms(1)] by blast
  have "st_keeps (\<lambda>(c, w). started c \<and> True) (refresh_status env)"
    by (rule refresh_status_keeps [OF started_closed])
  from st_keepsD [OF this s(2)] show ?thesis
    using assms(2) s(1) by simp
qed

lemma cli_steps_started:
  assumes "state_file_law env pend" "state_file_private env" "cli_steps env r w w'"
    "\<forall>s. stored env r w = Ok s \<longrightarrow> status s \<notin> {Creating, Created}"
  shows "\<forall>s. stored env r w' = Ok s \<longrightarrow> status s \<notin> {Creating, Created}"
  using assms(3,4)
proof (induction rule: cli_steps.induct)
  case (cli_cmd w w1 c k res c' w2)
  let ?G = "\<lambda>s. status s \<notin> {Creating, Created}"
  let ?I = "\<lambda>w. \<forall>s. stored env r w = Ok s \<longrightarrow> ?G s"
  have I: "?I w1"
    using cli_cmd by blast
  have c: "started c"
    using container_load_started [OF cli_cmd.hyps(2)] I by (auto simp: started_def)
  have "st_keeps (\<lambda>(c, w). started c \<and> ?I w) (run_cmd env k)"
  proof (rule run_cmd_keeps [OF _ started_closed])
    show "env_keeps env ?I"
      using assms(2) by (intro env_keeps_fun [where P = "\<lambda>y. \<forall>s. y = Ok s \<longrightarrow> ?G s"]) (simp add: state_file_private_def)
    show "st_keeps ?I (state_save env (state x) (root x))" if "started x" for x
      using that by (intro state_save_keeps [OF assms(1)]) (simp add: started_def)
    show "st_keeps ?I (remove_dir_all env (root x))" for x
      unfolding st_keeps_def using state_file_lawD(5) [OF assms(1)] by blast
  qed
  from cmd_keepsD [OF this cli_cmd.hyps(3) c I] show ?case by blast
next
  case (cli_world w w1 w2)
  then show ?case
    by metis
qed blast

lemma stored_by_save:
  assumes "state_store env" "state_save env s r w = (Ok (), w')" shows "stored env r w' = Ok s"
  using state_save_load [OF assms] by (auto simp: state_load_def Let_def outcome_simps)

lemma hooks_keep_stored:
  assumes "state_file_private env" "run_config_hooks env config kind cwd (c, w) = (r, c', w')"
  shows "stored env q w' = stored env q w"
proof -
  have "st_keeps (\<lambda>(c, w'). True \<and> stored env q w' = stored env q w) (run_config_hooks env config kind cwd)"
    using assms(1) by (intro run_config_hooks_keeps) (simp add: state_file_private_def env_keeps_def)
  from cmd_keepsD(2) [OF this assms(2)] show ?thesis
    by simp
qed

lemma start_stored:
  assumes "state_store env" "state_file_private env" "container_start env (c, w) = (Ok (), c', w')"
  shows "stored env (root c') w' = Ok (state c') \<and> status (state c') = Running \<and> root c' = root c"
  using assms(3)
proof (rule start_Ok)
  fix w1 w2 config
  assume *: "c' = set_status (now env w1) Running (set_status (now env w) Created c)"
    "state_save env (state c') (root c') w1 = (Ok (), w2)"
    "run_config_hooks env config poststart (\<lambda>c. Some (root c)) (c', w2) = (Ok (), c', w')"
  show ?thesis
    using stored_by_save [OF assms(1) *(2)] hooks_keep_stored [OF assms(2) *(3)] *(1) by simp
qed

text \<open>
  C30. A successful command is on disk: after \<open>start\<close>, \<open>kill\<close>, \<open>pause\<close> or \<open>resume\<close> has succeeded, the
  state file holds exactly the container's state in memory, so the next command loads it.
\<close>

theorem success_is_persisted:
  assumes "state_store env" and "state_file_private env" and "run_cmd env k (c, w) = (Ok (), c', w')"
    and "\<forall>force. k \<noteq> CDelete force"
  shows "stored env (root c') w' = Ok (state c')"
proof (cases k)
  case CStart
  then show ?thesis
    using start_stored [OF assms(1,2), of c w c' w'] assms(3) by auto
next
  case (CDelete force)
  then show ?thesis
    using assms(4) by simp
qed (use assms(3) in \<open>auto simp: cmd_eqs container_kill_def container_pause_def container_resume_def split: if_splits
       dest!: set_status_save_Ok stored_by_save [OF assms(1)]\<close>)

lemma container_load_root:
  assumes "container_load env r w = Ok c" shows "root c = r"
  using assms by (auto simp: container_load_def outcome_simps refresh_status_eq split: prod.splits outcome.splits)

text \<open>
  C5. A container is started at most once: after a successful \<open>start\<close>, no sequence of commands, however
  each of them ends, with any changes of the processes and cgroups between them, leads to a state in
  which \<open>start\<close> succeeds again.
\<close>

theorem start_at_most_once:
  assumes "state_file_law env pend" and "state_file_private env" and "state_store env"
    and "container_load env r w = Ok c" and "container_start env (c, w) = (Ok (), c', w1)"
    and "cli_steps env r w1 w2" and "container_load env r w2 = Ok d"
  shows "fst (container_start env (d, w2)) \<noteq> Ok ()"
proof -
  have "stored env r w1 = Ok (state c')" "status (state c') = Running"
    using start_stored [OF assms(3,2,5)] container_load_root [OF assms(4)] by auto
  then have "\<forall>s. stored env r w2 = Ok s \<longrightarrow> status s \<notin> {Creating, Created}"
    using cli_steps_started [OF assms(1,2,6)] by simp
  then have "started d"
    using container_load_started [OF assms(7)] by (simp add: started_def)
  then have "refreshed_status env d w2 \<noteq> Ok Created"
    using refreshed_status_cases [of env d w2 Created] by (auto simp: started_def split: if_splits)
  then show ?thesis
    using start_Ok [of env d w2] by (metis prod.collapse unit.exhaust)
qed

section \<open>Signals to all processes\<close>

lemma st_for_log:
  assumes "\<And>x w. log (snd (f x w)) = log w @ [g x]" "st_for f xs w = (Ok (), w')"
  shows "log w' = log w @ map g xs"
  using st_for_prefix [of log f g, OF assms] by auto

lemma ignore_err_snd: "snd (st_ignore_err m w) = snd (m w)"
  by (simp add: st_ignore_err_def split: prod.splits outcome.splits)

text \<open>An observer of the signals that are sent.\<close>

definition kill_log :: "('w, 'z) runtime_env_scheme \<Rightarrow> ('w \<Rightarrow> (i32 \<times> nix_signal) list) \<Rightarrow> bool" where
  "kill_log env log \<longleftrightarrow>
     (\<forall>p s w. log (snd (sys_kill env p s w)) = log w @ [(p, s)]) \<and>
     (\<forall>cfg w. log (snd (create_manager env cfg w)) = log w) \<and> (\<forall>cfg f w. log (snd (cm_freeze env cfg f w)) = log w)"

lemma kill_pid_snd: "snd (kill_pid env sig p w) = snd (sys_kill env p sig w)"
  by (simp add: kill_pid_def split: prod.splits outcome.splits)

text \<open>
  C13. Killing all processes of a container signals every process of its cgroup: when \<open>do_kill\<close> with
  \<open>all\<close> succeeds, the signals sent are, in order, the given one to each process that the cgroup listed
  once the manager had been told to freeze it, and none else.
\<close>

theorem kill_all_signals_every_process:
  assumes "kill_log env log" and "do_kill env sig True (c, w) = (Ok (), c', w')"
  shows "\<exists>config w0 pids. load_config env (root c) w = Ok config \<and>
    (let cfg = cgroup_config_of c (config_cgroup_path config) in
     create_manager env cfg w = (Ok (), w0) \<and> cm_get_all_pids env cfg (snd (cm_freeze env cfg Frozen w0)) = Ok pids) \<and>
    log w' = log w @ map (\<lambda>p. (p, sig)) pids"
proof -
  obtain config cfg w0 pids w1 w2 where *: "load_config env (root c) w = Ok config" "cfg = cgroup_config_of c (config_cgroup_path config)"
    "create_manager env cfg w = (Ok (), w0)" "cm_get_all_pids env cfg w1 = Ok pids"
    "st_for (kill_pid env sig) pids w1 = (Ok (), w2)"
    "st_ignore_err (cm_freeze env cfg Frozen) w0 = (Ok () :: (libcontainer_error, unit) outcome, w1)"
    "st_ignore_err (cm_freeze env cfg Thawed) w2 = (Ok () :: (libcontainer_error, unit) outcome, w')"
    using assms(2) unfolding do_kill_def kill_all_processes_def cgroup_manager_def container_spec_def
    by (auto simp: cmd_eqs)
  have w1: "w1 = snd (cm_freeze env cfg Frozen w0)"
    using *(6) by (metis ignore_err_snd snd_conv)
  have "log w2 = log w1 @ map (\<lambda>p. (p, sig)) pids"
    using assms(1) *(5) by (intro st_for_log) (auto simp: kill_pid_snd kill_log_def)
  moreover have "w' = snd (cm_freeze env cfg Thawed w2)"
    using *(7) by (metis ignore_err_snd snd_conv)
  moreover have "log w0 = log w"
    using assms(1) *(3) unfolding kill_log_def by (metis snd_conv)
  ultimately have "log w' = log w @ map (\<lambda>p. (p, sig)) pids"
    using assms(1) w1 by (simp add: kill_log_def)
  then show ?thesis
    using *(1-4) w1 unfolding Let_def by blast
qed

lemma ignore_err_not_Err: "st_ignore_err m w \<noteq> (Err e, w')"
  by (auto simp: st_ignore_err_def split: prod.splits outcome.splits)

text \<open>An observer of the freezer: a successful request decides it, signals do not touch it.\<close>

definition freezer_law :: "('w, 'z) runtime_env_scheme \<Rightarrow> ('w \<Rightarrow> bool) \<Rightarrow> bool" where
  "freezer_law env frz \<longleftrightarrow>
     (\<forall>cfg f w w'. cm_freeze env cfg f w = (Ok (), w') \<longrightarrow> frz w' = (f = Frozen)) \<and>
     (\<forall>p s w. frz (snd (sys_kill env p s w)) = frz w)"

lemma kill_pids_freezer: "freezer_law env frz \<Longrightarrow> frz (snd (st_for (kill_pid env sig) pids w)) = frz w"
proof (induction pids arbitrary: w)
  case (Cons p pids)
  obtain r w1 where k: "kill_pid env sig p w = (r, w1)"
    by (cases "kill_pid env sig p w")
  have "frz (snd (kill_pid env sig p w)) = frz w"
    using Cons.prems by (simp add: kill_pid_snd freezer_law_def)
  then show ?case
    using Cons.IH [OF Cons.prems, of w1] k by (cases r) (simp_all add: st_bind_def)
qed (simp add: st_return_def)

text \<open>
  C37. When one of the signals of \<open>do_kill\<close> with \<open>all\<close> fails, for example for lack of permission, the
  command stops there and does not thaw the cgroup that it has frozen: the container's processes stay
  frozen after the failed command.
\<close>

theorem failed_kill_all_leaves_frozen:
  assumes "freezer_law env frz" and "\<forall>cfg w. fst (cm_freeze env cfg Frozen w) = Ok ()"
    and "do_kill env sig True (c, w) = (Err (OtherSyscall e), c', w')"
  shows "frz w'"
proof -
  obtain cfg w0 w1 pids where *: "st_ignore_err (cm_freeze env cfg Frozen) w0 = (Ok () :: (libcontainer_error, unit) outcome, w1)"
    "st_for (kill_pid env sig) pids w1 = (Err e, w')"
    using assms(3) unfolding do_kill_def kill_all_processes_def cgroup_manager_def container_spec_def
    by (auto simp: cmd_eqs st_bind_eq_Err st_map_err_eq_Err ignore_err_not_Err map_err_eq)
  have "cm_freeze env cfg Frozen w0 = (Ok (), w1)"
    using *(1) assms(2) by (metis ignore_err_snd prod.collapse snd_conv)
  then have "frz w1"
    using assms(1) unfolding freezer_law_def by blast
  then show ?thesis
    using kill_pids_freezer [OF assms(1), of sig pids w1] *(2) by simp
qed

section \<open>A process that survives the signal\<close>

text \<open>
  C38. \<open>kill\<close> records the container as stopped after any signal. When the process handles the signal and
  lives on, the next command finds the container \<open>Running\<close>, even if it was only created and has never
  been started; \<open>start\<close> then refuses it.
\<close>

theorem surviving_process_becomes_running:
  assumes "state_store env" and "container_kill env sig all (c, w) = (Ok (), c', w')" and "alive env c' w'"
    and "open_for_read env (state_file_path (root c')) w' = Ok ()"
  shows "\<exists>d. container_load env (root c') w' = Ok d \<and> status (state d) = Running \<and>
    fst (container_start env (d, w')) = Err (IncorrectStatus Running)"
proof -
  have s: "status (state c') = Stopped" "stored env (root c') w' = Ok (state c')"
    using assms(2) by (auto simp: cmd_eqs container_kill_def split: if_splits dest!: set_status_save_Ok stored_by_save [OF assms(1)])
  have al: "lookup_proc env p w' = ProcStat OtherProcState" if "pid (state c') = Some p" for p
    using assms(3) that by (auto simp: alive_def)
  obtain p where p: "pid (state c') = Some p"
    using assms(3) by (auto simp: alive_def)
  let ?d = "set_status (now env w') Running \<lparr>state = state c', root = root c'\<rparr>"
  have "container_load env (root c') w' = Ok ?d"
    using s al p assms(4) by (simp add: container_load_def state_load_def Let_def refresh_status_eq refreshed_status_def)
  moreover have "refreshed_status env ?d w' = Ok Running"
    using al p by (simp add: refreshed_status_def)
  ultimately show ?thesis
    by (auto simp: container_start_def st_bind_def refresh_status_eq read_container_def can_start_def incorrect_status_def)
qed

section \<open>Deletion\<close>

definition st_err_keeps :: "('e \<Rightarrow> bool) \<Rightarrow> ('s \<Rightarrow> bool) \<Rightarrow> ('s, 'e, 'a) st \<Rightarrow> bool" where
  "st_err_keeps P K m \<longleftrightarrow> (\<forall>s e s'. K s \<longrightarrow> m s = (Err e, s') \<longrightarrow> P e \<longrightarrow> K s')"

lemma st_err_keeps_bind: "st_keeps K m \<Longrightarrow> (\<And>x. st_err_keeps P K (f x)) \<Longrightarrow> st_err_keeps P K (st_bind m f)"
  unfolding st_err_keeps_def st_bind_eq_Err by (metis st_keepsD)

lemma st_err_keepsD:
  assumes "st_err_keeps P (\<lambda>(c, w). J c \<and> I w) m" "m (c, w) = (Err e, c', w')" "P e" "J c" "I w"
  shows "I w'"
  using assms unfolding st_err_keeps_def by blast

lemma st_err_keeps_world_if: "st_err_keeps P K m \<Longrightarrow> st_err_keeps P K (\<lambda>(c, w). if b c w then m (c, w) else (Ok r, c, w))"
  by (auto simp: st_err_keeps_def split: if_splits)

lemma delete_root_err_keeps: "st_err_keeps (\<lambda>e. \<forall>io. e \<noteq> OtherIO io) K (delete_root env)"
  by (auto simp: st_err_keeps_def delete_root_def on_world_Ok st_map_err_eq_Err)

lemma delete_err_keeps:
  assumes "env_keeps env I" "status_closed J" "\<And>c. J c \<Longrightarrow> st_keeps I (state_save env (state c) (root c))"
  shows "st_err_keeps (\<lambda>e. \<forall>io. e \<noteq> OtherIO io) (\<lambda>(c, w). J c \<and> I w) (container_delete env force)"
proof -
  have "cgroup_keeps env I"
    using assms(1) by (simp add: env_keeps_def)
  then show ?thesis
    unfolding container_delete_def
    by (intro st_err_keeps_bind st_keeps_read_container refresh_status_keeps st_err_keeps_world_if delete_guard_keeps delete_rdt_keeps
        delete_cgroup_keeps delete_root_err_keeps assms)
qed

text \<open>
  C14. Deletion removes the container's directory last. When \<open>delete\<close> succeeds the directory is gone;
  when it fails before the removal, because the container may not be deleted, a signal, the cgroup or
  a hook failed, the directory is still there and the command can be repeated.
\<close>

theorem delete_removes_root_last:
  assumes "\<forall>d w w'. remove_dir_all env d w = (Ok (), w') \<longrightarrow> \<not> root_exists env d w'"
    and "env_keeps env (root_exists env (root c))"
    and "\<forall>s. st_keeps (root_exists env (root c)) (state_save env s (root c))"
    and "container_delete env force (c, w) = (res, c', w')"
  shows "(res = Ok () \<longrightarrow> \<not> root_exists env (root c) w') \<and>
    (\<forall>e. res = Err e \<and> (\<forall>io. e \<noteq> OtherIO io) \<and> root_exists env (root c) w \<longrightarrow> root_exists env (root c) w')"
proof -
  let ?J = "\<lambda>d. root d = root c"
  have cl: "status_closed ?J"
    by (simp add: status_closed_def)
  have save: "st_keeps (root_exists env (root c)) (state_save env (state d) (root d))" if "?J d" for d
    using assms(3) that by simp
  have err: "root_exists env (root c) w'" if "res = Err e" "\<forall>io. e \<noteq> OtherIO io" "root_exists env (root c) w" for e
    using st_err_keepsD [OF delete_err_keeps [where J = ?J and I = "root_exists env (root c)", OF assms(2) cl save] assms(4) [unfolded that(1)]]
      that(2,3) by simp
  have "st_keeps (\<lambda>(d, w). ?J d \<and> True) (container_delete env force)"
    by (rule container_delete_keeps [OF any_world cl]) (simp_all add: st_keeps_def)
  from cmd_keepsD(1) [OF this assms(4)] have r: "root c' = root c"
    by simp
  have "\<not> root_exists env (root c) w'" if ok: "res = Ok ()"
  proof -
    obtain c1 w1 where *: "(if root_exists env (root c1) w1 then st_bind (delete_cgroup env) (\<lambda>_. delete_root env) (c1, w1) else (Ok (), c1, w1)) = (Ok (), c', w')"
      using assms(4) ok unfolding container_delete_def by (auto simp: cmd_eqs)
    then show ?thesis
      using r assms(1) by (cases "root_exists env (root c1) w1") (auto simp: cmd_eqs delete_root_def)
  qed
  with err show ?thesis
    by blast
qed

section \<open>A concrete runtime\<close>

text \<open>
  A world with one container of two processes: SIGKILL ends process 7, which ignores other signals, and
  process 8 may not be signalled with SIGTERM.
\<close>

definition demo_run_hooks :: "demo_world hook_env" where
  "demo_run_hooks =
     \<lparr>spawn = (\<lambda>c w. (Ok 100, w\<lparr>d_hooks := d_hooks w @ [cmd_path c]\<rparr>)), encode_state = (\<lambda>os. Some (st_id os)),
      write_stdin = (\<lambda>p s w. (Ok (), w)), wait_process = (\<lambda>p w. (Ok (Some 0), w)),
      wait_timeout = (\<lambda>p n w. (Ok (Some (Some 0)), w)), kill_hook = (\<lambda>p s w. w)\<rparr>"

definition demo_config :: youki_config where
  "demo_config = \<lparr>config_hooks = Some \<lparr>poststart = Some [demo_hook ''/bin/true''], poststop = None\<rparr>, config_cgroup_path = ''/c1''\<rparr>"

definition demo_env :: "demo_world runtime_env" where
  "demo_env =
     \<lparr>now = now demo_state_env, lookup_proc = lookup_proc demo_state_env, open_state_file = open_state_file demo_state_env,
      write_state = write_state demo_state_env, flush_state = flush_state demo_state_env,
      open_for_read = open_for_read demo_state_env, parse_state_file = parse_state_file demo_state_env,
      load_config = (\<lambda>r w. Ok demo_config), get_cgroup_setup = (\<lambda>w. Ok Unified), create_manager = (\<lambda>cfg w. (Ok (), w)),
      cm_freeze = (\<lambda>cfg f w. (Ok (), w\<lparr>d_frozen := (f = Frozen)\<rparr>)), cm_get_all_pids = (\<lambda>cfg w. Ok [7, 8]),
      cm_remove = (\<lambda>cfg w. (Ok (), w)),
      sys_kill = (\<lambda>p s w. (if p = 8 \<and> s = SIGTERM then Err 1 else Ok (),
        w\<lparr>d_kills := d_kills w @ [(p, s)], d_proc := (if s = SIGKILL then (d_proc w)(p := NoProcess) else d_proc w)\<rparr>)),
      current_dir = (\<lambda>w. Ok ''/''), sys_chdir = (\<lambda>d w. (Ok (), w)), unix_connect = (\<lambda>n w. (Ok 3, w)),
      write_stream = (\<lambda>s x w. (Ok (), w)), hook_ops = demo_run_hooks,
      cleanup_intel_rdt = (\<lambda>a b x i w. (Ok (), w)), root_exists = (\<lambda>d w. d_root w),
      remove_dir_all = (\<lambda>d w. (Ok (), w\<lparr>d_root := False, d_file := Map.empty\<rparr>))\<rparr>"

lemma demo_env_keeps:
  assumes "\<And>w x. I (w\<lparr>d_hooks := x\<rparr>) = I w" "\<And>w x. I (w\<lparr>d_frozen := x\<rparr>) = I w" "\<And>w x y. I (w\<lparr>d_kills := x, d_proc := y\<rparr>) = I w"
  shows "env_keeps demo_env I"
  using assms by (simp add: env_keeps_def cgroup_keeps_def notify_keeps_def hooks_keep_def st_keeps_def demo_env_def demo_run_hooks_def)

lemma demo_state_store: "state_store demo_env" "state_file_private demo_env" "state_file_law demo_env (\<lambda>w p. None)"
proof -
  show "state_store demo_env"
    by (auto simp: state_store_def demo_env_def demo_state_env_def)
  show "state_file_private demo_env"
    unfolding state_file_private_def by (intro allI demo_env_keeps) (simp_all add: demo_env_def demo_state_env_def)
  show "state_file_law demo_env (\<lambda>w p. None)"
    by (auto simp: state_file_law_def open_law_def write_law_def flush_law_def remove_law_def demo_env_def demo_state_env_def is_ok_def)
qed

lemma demo_laws: "kill_log demo_env d_kills" "freezer_law demo_env d_frozen" "\<forall>cfg w. fst (cm_freeze demo_env cfg Frozen w) = Ok ()"
  by (simp_all add: kill_log_def freezer_law_def demo_env_def)

abbreviation demo_alive :: demo_world where
  "demo_alive \<equiv> demo_init (ProcStat OtherProcState)"

lemmas demo_run_defs = demo_env_def demo_run_hooks_def demo_config_def demo_defs st_bind_def on_world_def read_container_def
  st_map_err_def st_return_def st_lift_def st_ignore_err_def container_spec_def cgroup_manager_def cgroup_config_of_def refresh_status_eq
  refreshed_status_def set_status_save_def set_status_st_def set_status_def container_save_def state_save_def state_file_path_def Let_def

theorem rejected_command_no_effect_witness:
  "run_cmd demo_env CStart (demo_container Running, demo_alive) =
     (Err (IncorrectStatus Running), set_status 42 Running (demo_container Running), demo_alive)"
proof -
  have "refreshed_status demo_env (demo_container Running) demo_alive = Ok Running" "now demo_env demo_alive = 42"
    by (simp_all add: demo_run_defs)
  then show ?thesis
    using rejected_command_no_effect [of demo_env "demo_container Running" demo_alive Running CStart] by simp
qed

lemma demo_pause: "\<exists>c' w'. run_cmd demo_env CPause (demo_container Running, demo_alive) = (Ok (), c', w')"
  by (simp add: container_pause_def can_pause_def demo_run_defs)

lemma demo_start: "\<exists>c' w'. container_start demo_env (demo_container Created, demo_alive) = (Ok (), c', w')"
  by (simp add: container_start_def can_start_def notify_container_start_def run_config_hooks_def run_hooks_def run_hook_def send_state_def
      wait_hook_def check_exit_def demo_hook_def oci_state_of_def oci_status_def demo_run_defs)

theorem command_refines_automaton_witness:
  "\<exists>c' w'. run_cmd demo_env CPause (demo_container Running, demo_alive) = (Ok (), c', w') \<and> status (state c') = Paused"
  using demo_pause command_refines_automaton [of demo_env CPause "demo_container Running" demo_alive] by fastforce

theorem success_is_persisted_witness:
  "\<exists>c' w'. run_cmd demo_env CPause (demo_container Running, demo_alive) = (Ok (), c', w') \<and> stored demo_env (root c') w' = Ok (state c')"
  using demo_pause success_is_persisted [OF demo_state_store(1,2), of CPause "demo_container Running" demo_alive] by fastforce

lemma demo_load:
  "container_load demo_env ''/run/c1'' (demo_alive\<lparr>d_file := [''/run/c1/state.json'' \<mapsto> state (demo_container Created)]\<rparr>) =
     Ok (set_status 42 Created (demo_container Created))"
  by (simp add: container_load_def state_load_def demo_run_defs)

theorem start_at_most_once_witness:
  "\<exists>c' w1. let w = demo_alive\<lparr>d_file := [''/run/c1/state.json'' \<mapsto> state (demo_container Created)]\<rparr>;
               c = set_status 42 Created (demo_container Created)
    in container_load demo_env ''/run/c1'' w = Ok c \<and> container_start demo_env (c, w) = (Ok (), c', w1) \<and>
       (\<forall>d. container_load demo_env ''/run/c1'' w1 = Ok d \<longrightarrow> fst (container_start demo_env (d, w1)) \<noteq> Ok ())"
proof -
  let ?w = "demo_alive\<lparr>d_file := [''/run/c1/state.json'' \<mapsto> state (demo_container Created)]\<rparr>"
  let ?c = "set_status 42 Created (demo_container Created)"
  obtain c' w1 where st: "container_start demo_env (?c, ?w) = (Ok (), c', w1)"
    by (simp add: container_start_def can_start_def notify_container_start_def run_config_hooks_def run_hooks_def run_hook_def send_state_def
        wait_hook_def check_exit_def demo_hook_def oci_state_of_def oci_status_def demo_run_defs)
  show ?thesis
    using start_at_most_once [OF demo_state_store(3,2,1) demo_load st cli_refl] demo_load st unfolding Let_def by blast
qed

theorem kill_all_signals_every_process_witness:
  "\<exists>c' w'. do_kill demo_env SIGKILL True (demo_container Running, demo_alive) = (Ok (), c', w') \<and>
     d_kills w' = [(7, SIGKILL), (8, SIGKILL)]"
proof -
  obtain c' w' where k: "do_kill demo_env SIGKILL True (demo_container Running, demo_alive) = (Ok (), c', w')"
    by (simp add: do_kill_def kill_all_processes_def kill_pid_def demo_run_defs)
  from kill_all_signals_every_process [OF demo_laws(1) k] have "d_kills w' = d_kills demo_alive @ [(7, SIGKILL), (8, SIGKILL)]"
    by (auto simp: Let_def demo_env_def)
  with k show ?thesis
    by (simp add: demo_init_def)
qed

theorem failed_kill_all_leaves_frozen_witness:
  "\<exists>c' w'. do_kill demo_env SIGTERM True (demo_container Running, demo_alive) = (Err (OtherSyscall 1), c', w') \<and> d_frozen w'"
proof -
  obtain c' w' where k: "do_kill demo_env SIGTERM True (demo_container Running, demo_alive) = (Err (OtherSyscall 1), c', w')"
    by (simp add: do_kill_def kill_all_processes_def kill_pid_def ESRCH_def demo_run_defs)
  from failed_kill_all_leaves_frozen [OF demo_laws(2,3) k] k show ?thesis
    by blast
qed

theorem surviving_process_becomes_running_witness:
  "\<exists>c' w' d. container_kill demo_env SIGTERM False (demo_container Created, demo_alive) = (Ok (), c', w') \<and>
     container_load demo_env (root c') w' = Ok d \<and> status (state d) = Running"
proof -
  obtain c' w' where k: "container_kill demo_env SIGTERM False (demo_container Created, demo_alive) = (Ok (), c', w')"
      "alive demo_env c' w'" "open_for_read demo_env (state_file_path (root c')) w' = Ok ()"
    by (simp add: container_kill_def can_kill_def do_kill_def kill_one_process_def thaw_after_kill_def kill_pid_def alive_def demo_run_defs)
  from surviving_process_becomes_running [OF demo_state_store(1) k] k(1) show ?thesis
    by blast
qed

theorem delete_removes_root_last_witness:
  "\<exists>c' w'. container_delete demo_env False (demo_container Stopped, demo_init NoProcess) = (Ok (), c', w') \<and>
     \<not> root_exists demo_env ''/run/c1'' w'"
proof -
  have law: "\<forall>d w w'. remove_dir_all demo_env d w = (Ok (), w') \<longrightarrow> \<not> root_exists demo_env d w'"
    by (auto simp: demo_env_def)
  have keep: "env_keeps demo_env (root_exists demo_env r)" for r
    by (intro demo_env_keeps) (simp_all add: demo_env_def)
  have save: "\<forall>s. st_keeps (root_exists demo_env r) (state_save demo_env s r)" for r
    by (simp add: st_keeps_def demo_run_defs)
  obtain c' w' where d: "container_delete demo_env False (demo_container Stopped, demo_init NoProcess) = (Ok (), c', w')"
    by (simp add: container_delete_def delete_guard_def delete_rdt_def delete_cgroup_def delete_root_def run_config_hooks_def run_hooks_def
        oci_state_of_def oci_status_def demo_run_defs)
  from delete_removes_root_last [OF law keep save d] d show ?thesis
    by (simp add: demo_container_def)
qed

end
