(* ===== verification/Cgroup_Stats.thy ===== *)
theory Cgroup_Stats
  imports Cgroup_Fs "HOL-Library.AList"
begin

text \<open>
  Reading statistics, \<open>libcgroups/src/stats.rs\<close>: the parsers of the flat keyed, nested keyed, single
  value and pressure stall formats of cgroup files. The text conversion of \<open>f64\<close> is a parameter.
\<close>

section \<open>Slices of strings\<close>

text \<open>\<open>&s[i..]\<close> and \<open>&s[..i]\<close> panic beyond the end and inside a character.\<close>

definition char_boundary :: "string \<Rightarrow> nat \<Rightarrow> bool" where
  "char_boundary s i \<longleftrightarrow> i \<le> length s \<and> (i < length s \<longrightarrow> \<not> utf8_cont (as_bytes s ! i))"

definition str_from :: "string \<Rightarrow> nat \<Rightarrow> ('e, string) outcome" where
  "str_from s i = (if char_boundary s i then Ok (drop i s) else Panic)"

definition str_to :: "string \<Rightarrow> nat \<Rightarrow> ('e, string) outcome" where
  "str_to s i = (if char_boundary s i then Ok (take i s) else Panic)"

section \<open>Data\<close>

record cpu_usage =
  usage_total :: u64
  usage_user :: u64
  usage_kernel :: u64
  per_core_usage_total :: "u64 list"
  per_core_usage_user :: "u64 list"
  per_core_usage_kernel :: "u64 list"

record cpu_throttling =
  periods :: u64
  throttled_periods :: u64
  throttled_time :: u64

record 'f psi_data =
  avg10 :: 'f
  avg60 :: 'f
  avg300 :: 'f

record 'f psi_stats =
  psi_some :: "'f psi_data"
  psi_full :: "'f psi_data"

record 'f cpu_stats =
  cpu_usage_of :: cpu_usage
  cpu_throttling_of :: cpu_throttling
  cpu_psi :: "'f psi_stats"

record memory_data =
  mem_usage :: u64
  mem_max_usage :: u64
  mem_fail_count :: u64
  mem_limit :: u64

record 'f memory_stats =
  memory_of :: memory_data
  memswap_of :: memory_data
  kernel_of :: memory_data
  kernel_tcp_of :: memory_data
  mem_cache :: u64
  mem_hierarchy :: bool
  mem_stats :: "string \<rightharpoonup> u64"
  mem_psi :: "'f psi_stats"

record pid_stats =
  pids_current :: u64
  pids_limit :: u64

record blkio_device_stat =
  blk_major :: u64
  blk_minor :: u64
  op_type :: "string option"
  blk_value :: u64

record 'f blkio_stats =
  service_bytes :: "blkio_device_stat list"
  serviced :: "blkio_device_stat list"
  blk_time :: "blkio_device_stat list"
  blk_sectors :: "blkio_device_stat list"
  blk_service_time :: "blkio_device_stat list"
  blk_wait_time :: "blkio_device_stat list"
  blk_queued :: "blkio_device_stat list"
  blk_merged :: "blkio_device_stat list"
  blk_psi :: "'f psi_stats"

record hugetlb_stats =
  huge_usage :: u64
  huge_max_usage :: u64
  huge_fail_count :: u64

definition show_u64 :: "u64 \<Rightarrow> string" where
  "show_u64 n = nat_to_string (unat n)"

definition show_blkio_device_stat :: "blkio_device_stat \<Rightarrow> string" where
  "show_blkio_device_stat s =
     (case op_type s of
        Some op \<Rightarrow> show_u64 (blk_major s) @ '':'' @ show_u64 (blk_minor s) @ '' '' @ op @ '' '' @ show_u64 (blk_value s)
      | None \<Rightarrow> show_u64 (blk_major s) @ '':'' @ show_u64 (blk_minor s) @ '' '' @ show_u64 (blk_value s))"

definition no_memory_data :: memory_data where
  "no_memory_data = \<lparr>mem_usage = 0, mem_max_usage = 0, mem_fail_count = 0, mem_limit = 0\<rparr>"

definition no_psi :: "'f \<Rightarrow> 'f psi_stats" where
  "no_psi z = \<lparr>psi_some = \<lparr>avg10 = z, avg60 = z, avg300 = z\<rparr>, psi_full = \<lparr>avg10 = z, avg60 = z, avg300 = z\<rparr>\<rparr>"

section \<open>Parsers\<close>

definition parse_value :: "string \<Rightarrow> (int_error, u64) outcome" where
  "parse_value s = map_outcome of_nat (parse_u64 s)"

definition parse_single_value :: "('w, 'z) fs_env_scheme \<Rightarrow> path \<Rightarrow> 'w \<Rightarrow> (wrapped_io_error, u64) outcome" where
  "parse_single_value env p w =
     bind_outcome (read_cgroup_file env p w) (\<lambda>v.
     let v = trim v in
     if v = ''max'' then Ok (- 1)
     else map_err (\<lambda>_. WOther InvalidData p) (parse_value v))"

datatype flat_error = FlatIo wrapped_io_error | FlatDoesNotConform path | FailedToParse string path int_error

fun flat_entries :: "path \<Rightarrow> string list \<Rightarrow> (string \<rightharpoonup> u64) \<Rightarrow> (flat_error, string \<rightharpoonup> u64) outcome" where
  "flat_entries p [] m = Ok m"
| "flat_entries p (l # ls) m =
     (case split_ascii_whitespace l of
        [k, v] \<Rightarrow> bind_outcome (map_err (FailedToParse k p) (parse_value v)) (\<lambda>n. flat_entries p ls (m(k \<mapsto> n)))
      | _ \<Rightarrow> Err (FlatDoesNotConform p))"

definition parse_flat_keyed_data :: "('w, 'z) fs_env_scheme \<Rightarrow> path \<Rightarrow> 'w \<Rightarrow> (flat_error, string \<rightharpoonup> u64) outcome" where
  "parse_flat_keyed_data env p w =
     bind_outcome (map_err FlatIo (read_cgroup_file env p w)) (\<lambda>d. flat_entries p (str_lines d) Map.empty)"

datatype nested_error = NestedIo wrapped_io_error | NestedDoesNotConform path

text \<open>The table is a list of keys and values, without duplicate keys; a later entry replaces an earlier one.\<close>

fun nested_entries :: "path \<Rightarrow> string list \<Rightarrow> (string \<times> string list) list \<Rightarrow> (nested_error, (string \<times> string list) list) outcome" where
  "nested_entries p [] m = Ok m"
| "nested_entries p (l # ls) m =
     (case split_ascii_whitespace l of
        k # v # vs \<Rightarrow>
          (if list_all (\<lambda>x. CHR ''='' \<in> set x) (v # vs) then nested_entries p ls (AList.update k (v # vs) m)
           else Err (NestedDoesNotConform p))
      | _ \<Rightarrow> Err (NestedDoesNotConform p))"

definition parse_nested_keyed_data :: "('w, 'z) fs_env_scheme \<Rightarrow> path \<Rightarrow> 'w \<Rightarrow> (nested_error, (string \<times> string list) list) outcome" where
  "parse_nested_keyed_data env p w =
     bind_outcome (map_err NestedIo (read_cgroup_file env p w)) (\<lambda>d. nested_entries p (str_lines d) [])"

datatype device_number_error = TooManyNumbers string nat | MalformedNumber string int_error

definition parse_device_number :: "string \<Rightarrow> (device_number_error, u64 \<times> u64) outcome" where
  "parse_device_number device =
     (case split_terminator (CHR '':'') device of
        [a, b] \<Rightarrow>
          bind_outcome (map_err (MalformedNumber device) (parse_value a)) (\<lambda>major.
          bind_outcome (map_err (MalformedNumber device) (parse_value b)) (\<lambda>minor. Ok (major, minor)))
      | ns \<Rightarrow> Err (TooManyNumbers device (length ns)))"

datatype pid_stats_error = PidIo wrapped_io_error | ParseCurrent int_error | ParseLimit int_error

definition read_pid_stats :: "('w, 'z) fs_env_scheme \<Rightarrow> path \<Rightarrow> 'w \<Rightarrow> (pid_stats_error, pid_stats) outcome" where
  "read_pid_stats env p w =
     bind_outcome (map_err PidIo (read_cgroup_file env (in_dir p ''pids.current'') w)) (\<lambda>current.
     bind_outcome (map_err ParseCurrent (parse_value (trim current))) (\<lambda>cur.
     bind_outcome (map_err PidIo (read_cgroup_file env (in_dir p ''pids.max'') w)) (\<lambda>limit.
     if trim limit \<noteq> ''max''
     then bind_outcome (map_err ParseLimit (parse_value (trim limit))) (\<lambda>l. Ok \<lparr>pids_current = cur, pids_limit = l\<rparr>)
     else Ok \<lparr>pids_current = cur, pids_limit = 0\<rparr>)))"

fun psi_fields :: "(string \<Rightarrow> 'f option) \<Rightarrow> path \<Rightarrow> string list \<Rightarrow> 'f psi_data \<Rightarrow> (wrapped_io_error, 'f psi_data) outcome" where
  "psi_fields parse_f64 p [] d = Ok d"
| "psi_fields parse_f64 p (kv # kvs) d =
     (case split_once (CHR ''='') kv of
        Some (k, v) \<Rightarrow>
          (if k = ''avg10'' then
             bind_outcome (ok_or (WOther InvalidData p) (parse_f64 v)) (\<lambda>x. psi_fields parse_f64 p kvs (d\<lparr>avg10 := x\<rparr>))
           else if k = ''avg60'' then
             bind_outcome (ok_or (WOther InvalidData p) (parse_f64 v)) (\<lambda>x. psi_fields parse_f64 p kvs (d\<lparr>avg60 := x\<rparr>))
           else if k = ''avg300'' then
             bind_outcome (ok_or (WOther InvalidData p) (parse_f64 v)) (\<lambda>x. psi_fields parse_f64 p kvs (d\<lparr>avg300 := x\<rparr>))
           else psi_fields parse_f64 p kvs d)
      | None \<Rightarrow> psi_fields parse_f64 p kvs d)"

definition parse_psi :: "(string \<Rightarrow> 'f option) \<Rightarrow> 'f \<Rightarrow> string \<Rightarrow> path \<Rightarrow> (wrapped_io_error, 'f psi_data) outcome" where
  "parse_psi parse_f64 zero stat_line p =
     psi_fields parse_f64 p (split_ascii_whitespace stat_line) \<lparr>avg10 = zero, avg60 = zero, avg300 = zero\<rparr>"

fun psi_lines :: "(string \<Rightarrow> 'f option) \<Rightarrow> 'f \<Rightarrow> path \<Rightarrow> string list \<Rightarrow> 'f psi_stats \<Rightarrow> (wrapped_io_error, 'f psi_stats) outcome" where
  "psi_lines parse_f64 zero p [] s = Ok s"
| "psi_lines parse_f64 zero p (l # ls) s =
     bind_outcome (str_to l 4) (\<lambda>h.
     if h = ''some'' then
       bind_outcome (bind_outcome (str_from l 4) (\<lambda>t. parse_psi parse_f64 zero t p)) (\<lambda>d. psi_lines parse_f64 zero p ls (s\<lparr>psi_some := d\<rparr>))
     else if h = ''full'' then
       bind_outcome (bind_outcome (str_from l 4) (\<lambda>t. parse_psi parse_f64 zero t p)) (\<lambda>d. psi_lines parse_f64 zero p ls (s\<lparr>psi_full := d\<rparr>))
     else psi_lines parse_f64 zero p ls s)"

definition read_psi_stats :: "(string \<Rightarrow> 'f option) \<Rightarrow> 'f \<Rightarrow> ('w, 'z) fs_env_scheme \<Rightarrow> path \<Rightarrow> 'w \<Rightarrow> (wrapped_io_error, 'f psi_stats) outcome" where
  "read_psi_stats parse_f64 zero env psi_file w =
     bind_outcome (read_cgroup_file env psi_file w) (\<lambda>psi. psi_lines parse_f64 zero psi_file (str_lines psi) (no_psi zero))"

section \<open>Huge page sizes\<close>

datatype page_sizes_error = PageIo os_error | PageParse string int_error | PageFailed string

definition strip_str_prefix :: "string \<Rightarrow> string \<Rightarrow> string option" where
  "strip_str_prefix p s = (if prefix p s then Some (drop (length p) s) else None)"

definition strip_str_suffix :: "string \<Rightarrow> string \<Rightarrow> string option" where
  "strip_str_suffix p s = (if suffix p s then Some (take (length s - length p) s) else None)"

definition page_moniker :: "nat \<Rightarrow> string" where
  "page_moniker kb =
     (if 2 ^ 20 \<le> kb then nat_to_string (kb div 2 ^ 20) @ ''GB''
      else if 2 ^ 10 \<le> kb then nat_to_string (kb div 2 ^ 10) @ ''MB''
      else nat_to_string kb @ ''KB'')"

definition extract_page_size :: "string \<Rightarrow> (page_sizes_error, string) outcome" where
  "extract_page_size dir_name =
     (case Option.bind (strip_str_prefix ''hugepages-'' dir_name) (strip_str_suffix ''kB'') of
        Some digits \<Rightarrow> bind_outcome (map_err (PageParse digits) (parse_u64 digits)) (\<lambda>n. Ok (page_moniker n))
      | None \<Rightarrow> Err (PageFailed dir_name))"

definition HUGEPAGES :: path where
  "HUGEPAGES = [RootDir, Normal ''sys'', Normal ''kernel'', Normal ''mm'', Normal ''hugepages'']"

fun page_size_entries :: "('w, 'z) fs_env_scheme \<Rightarrow> 'w \<Rightarrow> (os_error + path) list \<Rightarrow> (page_sizes_error, string list) outcome" where
  "page_size_entries env w [] = Ok []"
| "page_size_entries env w (Inl e # es) = Err (PageIo e)"
| "page_size_entries env w (Inr q # es) =
     (if \<not> path_is_dir env q w then page_size_entries env w es
      else
        bind_outcome (unwrap (file_name q)) (\<lambda>dir_name.
        bind_outcome (extract_page_size dir_name) (\<lambda>s.
        bind_outcome (page_size_entries env w es) (\<lambda>ss. Ok (s # ss)))))"

definition supported_page_sizes :: "('w, 'z) fs_env_scheme \<Rightarrow> 'w \<Rightarrow> (page_sizes_error, string list) outcome" where
  "supported_page_sizes env w = bind_outcome (map_err PageIo (read_dir env HUGEPAGES w)) (page_size_entries env w)"

section \<open>Printing and parsing tables\<close>

lemma words_by_word: "\<forall>c \<in> set u. \<not> p c \<Longrightarrow> words_by p acc (u @ x) = words_by p (rev u @ acc) x"
  by (induction u arbitrary: acc) auto

lemma words_by_one: "u \<noteq> [] \<Longrightarrow> \<forall>c \<in> set u. \<not> p c \<Longrightarrow> words_by p [] u = [u]"
  using words_by_word [of u p "[]" "[]"] by simp

lemma words_by_Cons: "u \<noteq> [] \<Longrightarrow> \<forall>c \<in> set u. \<not> p c \<Longrightarrow> p x \<Longrightarrow> words_by p [] (u @ x # v) = u # words_by p [] v"
  by (simp add: words_by_word)

definition word_str :: "string \<Rightarrow> bool" where
  "word_str u \<longleftrightarrow> u \<noteq> [] \<and> list_all (\<lambda>c. \<not> ascii_ws c) u"

lemma split_ascii_two: "word_str a \<Longrightarrow> word_str b \<Longrightarrow> split_ascii_whitespace (a @ '' '' @ b) = [a, b]"
  using words_by_Cons [of a ascii_ws "CHR '' ''" b] words_by_one [of b ascii_ws]
  by (simp add: split_ascii_whitespace_def word_str_def list_all_iff ascii_ws_def)

lemma split_on_lines:
  "\<forall>l \<in> set ls. c \<notin> set l \<Longrightarrow> split_on c (concat (map (\<lambda>l. l @ [c]) ls)) = ls @ [[]]"
  by (induction ls) (auto simp: split_on_append)

lemma str_lines_concat:
  assumes "\<forall>l \<in> set ls. CHR 0x0A \<notin> set l \<and> (l \<noteq> [] \<longrightarrow> last l \<noteq> CHR 0x0D)"
  shows "str_lines (concat (map (\<lambda>l. l @ [CHR 0x0A]) ls)) = ls"
proof -
  have "map strip_cr ls = ls"
    using assms by (intro map_idI) (auto simp: strip_cr_def)
  then show ?thesis
    using assms split_on_lines [of ls "CHR 0x0A"] by (simp add: str_lines_def)
qed

lemma word_str_show_u64: "word_str (show_u64 n)"
proof -
  have "\<not> ascii_ws c" if "c \<in> set (show_u64 n)" for c
    using nat_to_string_digits [of c "unat n"] that by (auto simp: show_u64_def ascii_ws_def digit_val_def)
  then show ?thesis
    by (auto simp: word_str_def list_all_iff show_u64_def)
qed

lemma word_str_no_crlf: "word_str u \<Longrightarrow> CHR 0x0A \<notin> set u \<and> CHR 0x0D \<notin> set u"
  by (auto simp: word_str_def list_all_iff ascii_ws_def)

lemma parse_value_show [simp]: "parse_value (show_u64 n) = Ok n"
proof -
  have "unat n \<le> 2 ^ 64 - 1"
    using unsigned_less [where 'a = nat, of n] by simp
  then show ?thesis
    by (simp add: parse_value_def show_u64_def)
qed

definition flat_line :: "string \<times> u64 \<Rightarrow> string" where
  "flat_line kv = fst kv @ '' '' @ show_u64 (snd kv)"

lemma flat_line_ok: "word_str (fst kv) \<Longrightarrow> CHR 0x0A \<notin> set (flat_line kv) \<and> last (flat_line kv) \<noteq> CHR 0x0D"
proof -
  assume k: "word_str (fst kv)"
  have "last (flat_line kv) \<in> set (show_u64 (snd kv))"
    by (simp add: flat_line_def show_u64_def)
  then show ?thesis
    using word_str_no_crlf [OF k] word_str_no_crlf [OF word_str_show_u64 [of "snd kv"]] by (auto simp: flat_line_def)
qed

lemma flat_entries_lines:
  "\<forall>kv \<in> set kvs. word_str (fst kv) \<Longrightarrow> flat_entries p (map flat_line kvs) m = Ok (m ++ map_of (rev kvs))"
proof (induction kvs arbitrary: m)
  case (Cons kv kvs)
  have "split_ascii_whitespace (flat_line kv) = [fst kv, show_u64 (snd kv)]"
    using Cons.prems word_str_show_u64 by (simp only: flat_line_def split_ascii_two list.set_intros)
  then show ?case
    using Cons by (cases kv) (auto simp: map_add_def fun_eq_iff split: option.splits)
qed simp

text \<open>
  C34. A flat keyed file, one \<open>key value\<close> line per entry as the kernel writes \<open>cpu.stat\<close> or \<open>memory.stat\<close>,
  is read back as the table it was written from; of two lines for a key the later one counts.
\<close>

theorem flat_keyed_roundtrip:
  assumes "read_to_string env p w = Ok (concat (map (\<lambda>kv. flat_line kv @ [CHR 0x0A]) kvs))" and "\<forall>kv \<in> set kvs. word_str (fst kv)"
  shows "parse_flat_keyed_data env p w = Ok (map_of (rev kvs))"
proof -
  have "str_lines (concat (map (\<lambda>kv. flat_line kv @ [CHR 0x0A]) kvs)) = map flat_line kvs"
    using str_lines_concat [of "map flat_line kvs"] assms(2) flat_line_ok by (auto simp: comp_def)
  then show ?thesis
    using assms flat_entries_lines [OF assms(2), of p Map.empty] by (simp add: parse_flat_keyed_data_def read_cgroup_file_def)
qed

theorem flat_keyed_roundtrip_witness:
  "parse_flat_keyed_data demo_fs_env [RootDir, Normal ''cpu.stat'']
     (empty_fs\<lparr>df_file := [[RootDir, Normal ''cpu.stat''] \<mapsto> flat_line (''usage_usec'', 7) @ [CHR 0x0A] @ flat_line (''nr_periods'', 9) @ [CHR 0x0A]]\<rparr>)
     = Ok [''usage_usec'' \<mapsto> 7, ''nr_periods'' \<mapsto> 9]"
proof -
  let ?kvs = "[(''usage_usec'', 7 :: u64), (''nr_periods'', 9)]"
  let ?p = "[RootDir, Normal ''cpu.stat'']"
  let ?w = "empty_fs\<lparr>df_file := [?p \<mapsto> concat (map (\<lambda>kv. flat_line kv @ [CHR 0x0A]) ?kvs)]\<rparr>"
  have "read_to_string demo_fs_env ?p ?w = Ok (concat (map (\<lambda>kv. flat_line kv @ [CHR 0x0A]) ?kvs))"
    by (simp add: demo_fs_env_def)
  moreover have "\<forall>kv \<in> set ?kvs. word_str (fst kv)"
    by (simp add: word_str_def ascii_ws_def)
  ultimately have "parse_flat_keyed_data demo_fs_env ?p ?w = Ok (map_of (rev ?kvs))"
    by (rule flat_keyed_roundtrip)
  then show ?thesis
    by (simp add: fun_upd_twist)
qed

section \<open>Short lines of a pressure file\<close>

text \<open>
  C0. The pressure parser slices the first four bytes of every line without looking at its length: a
  line of fewer than four bytes, an empty one for example, makes it panic instead of being skipped.
\<close>

theorem psi_short_line_panics:
  assumes "length l < 4" shows "psi_lines parse_f64 zero p (l # ls) s = Panic"
  using assms by (simp add: str_to_def char_boundary_def)

theorem psi_short_line_panics_witness: "psi_lines Some [] [] ([] # [''some avg10=1'']) (no_psi []) = Panic"
  by (rule psi_short_line_panics) simp

section \<open>Page sizes\<close>

text \<open>
  The name that the kernel gives to a huge page directory is turned into the size name of the hugetlb
  files: the number in kB, in the largest unit that it reaches.
\<close>

lemma extract_page_size_name:
  assumes "n < 2 ^ 64"
  shows "extract_page_size (''hugepages-'' @ nat_to_string n @ ''kB'') = Ok (page_moniker n)"
proof -
  have "strip_str_prefix ''hugepages-'' (''hugepages-'' @ nat_to_string n @ ''kB'') = Some (nat_to_string n @ ''kB'')"
    by (simp add: strip_str_prefix_def)
  moreover have "strip_str_suffix ''kB'' (nat_to_string n @ ''kB'') = Some (nat_to_string n)"
    by (simp add: strip_str_suffix_def suffix_def)
  moreover have "parse_u64 (nat_to_string n) = Ok n"
    using assms by simp
  ultimately show ?thesis
    by (simp add: extract_page_size_def)
qed

end
