(* ===== verification/Cgroup_V2_Controllers.thy ===== *)
theory Cgroup_V2_Controllers
  imports Cgroup_Stats
begin

text \<open>
  The controllers of cgroup v2: \<open>libcgroups/src/v2/\<close>\{\<open>cpu\<close>, \<open>cpuset\<close>, \<open>hugetlb\<close>, \<open>io\<close>, \<open>memory\<close>, \<open>pids\<close>,
  \<open>unified\<close>, \<open>freezer\<close>\}\<open>.rs\<close>. Each \<open>apply\<close> turns a part of the OCI resources into writes of cgroup files,
  each \<open>stats\<close> reads such files. Signed 64-bit numbers are \<open>int\<close>, unsigned ones \<open>nat\<close>, where no arithmetic
  is done on them.
\<close>

unbundle bit_operations_syntax

section \<open>Resources\<close>

record linux_cpu =
  cpu_shares :: "nat option"
  cpu_quota :: "int option"
  cpu_burst :: "nat option"
  cpu_period :: "nat option"
  cpu_realtime_runtime :: "int option"
  cpu_realtime_period :: "nat option"
  cpu_cpus :: "string option"
  cpu_mems :: "string option"
  cpu_idle :: "int option"

record linux_memory =
  mem_limit_of :: "int option"
  mem_reservation_of :: "int option"
  mem_swap_of :: "int option"

record linux_hugepage_limit =
  page_size :: string
  huge_limit :: int

record weight_device =
  wd_major :: int
  wd_minor :: int
  wd_weight :: "16 word option"

record throttle_device =
  td_major :: int
  td_minor :: int
  td_rate :: nat

record linux_block_io =
  io_weight :: "16 word option"
  io_leaf_weight :: "16 word option"
  io_weight_device :: "weight_device list option"
  io_throttle_read_bps :: "throttle_device list option"
  io_throttle_write_bps :: "throttle_device list option"
  io_throttle_read_iops :: "throttle_device list option"
  io_throttle_write_iops :: "throttle_device list option"

section \<open>CPU\<close>

datatype v2_cpu_error = CpuIo wrapped_io_error | RealtimeV2

definition is_realtime_requested :: "linux_cpu \<Rightarrow> bool" where
  "is_realtime_requested cpu \<longleftrightarrow> cpu_realtime_period cpu \<noteq> None \<or> cpu_realtime_runtime cpu \<noteq> None"

text \<open>
  The conversion of shares to a weight. \<open>fit\<close> is the floating point expression for the shares between the
  extremes, rounded up.
\<close>

definition convert_shares_to_cgroup2 :: "(nat \<Rightarrow> nat) \<Rightarrow> nat \<Rightarrow> nat" where
  "convert_shares_to_cgroup2 fit shares =
     (if shares = 0 then 0
      else if shares \<le> 2 then 1
      else if 262144 \<le> shares then 10000
      else max 1 (min 10000 (fit shares)))"

definition create_period_only_value :: "('w, 'z) fs_env_scheme \<Rightarrow> path \<Rightarrow> nat \<Rightarrow> 'w \<Rightarrow> (v2_cpu_error, string option) outcome" where
  "create_period_only_value env cpu_max_file period w =
     bind_outcome (map_err CpuIo (read_cgroup_file env cpu_max_file w)) (\<lambda>old.
     case split_whitespace old of
       old_quota # _ \<Rightarrow> Ok (Some (old_quota @ '' '' @ nat_to_string period))
     | [] \<Rightarrow> Ok None)"

definition new_cpu_max :: "('w, 'z) fs_env_scheme \<Rightarrow> path \<Rightarrow> linux_cpu \<Rightarrow> 'w \<Rightarrow> (v2_cpu_error, string option) outcome" where
  "new_cpu_max env cpu_max_file cpu w =
     (case (cpu_quota cpu, cpu_period cpu) of
        (None, Some period) \<Rightarrow> create_period_only_value env cpu_max_file period w
      | (Some quota, None) \<Rightarrow> Ok (Some (if 0 < quota then int_to_string quota else ''max''))
      | (Some quota, Some period) \<Rightarrow>
          Ok (Some ((if 0 < quota then int_to_string quota else ''max'') @ '' '' @ nat_to_string period))
      | (None, None) \<Rightarrow> Ok None)"

definition write_opt :: "('w, 'z) fs_env_scheme \<Rightarrow> path \<Rightarrow> string option \<Rightarrow> ('w, wrapped_io_error, unit) st" where
  "write_opt env p v = (case v of Some d \<Rightarrow> write_cgroup_file env p d | None \<Rightarrow> st_return ())"

definition v2_cpu_apply :: "('w, 'z) fs_env_scheme \<Rightarrow> (nat \<Rightarrow> nat) \<Rightarrow> path \<Rightarrow> linux_cpu \<Rightarrow> ('w, v2_cpu_error, unit) st" where
  "v2_cpu_apply env fit p cpu =
     (if is_realtime_requested cpu \<and>
         (0 < (case cpu_realtime_runtime cpu of Some r \<Rightarrow> r | None \<Rightarrow> 0) \<or> 0 < (case cpu_realtime_period cpu of Some q \<Rightarrow> q | None \<Rightarrow> 0))
      then st_fail RealtimeV2
      else
        st_bind
          (case cpu_shares cpu of
             Some shares \<Rightarrow>
               (let weight = convert_shares_to_cgroup2 fit shares in
                if weight \<noteq> 0 then st_map_err CpuIo (write_cgroup_file env (in_dir p ''cpu.weight'') (nat_to_string weight))
                else st_return ())
           | None \<Rightarrow> st_return ()) (\<lambda>_.
        st_bind (\<lambda>w. (new_cpu_max env (in_dir p ''cpu.max'') cpu w, w)) (\<lambda>cpu_max.
        st_bind (st_map_err CpuIo (write_opt env (in_dir p ''cpu.max'') cpu_max)) (\<lambda>_.
        st_bind (st_map_err CpuIo (write_opt env (in_dir p ''cpu.max.burst'') (map_option nat_to_string (cpu_burst cpu)))) (\<lambda>_.
        st_map_err CpuIo (write_opt env (in_dir p ''cpu.idle'') (map_option int_to_string (cpu_idle cpu))))))))"

datatype v2_cpu_stats_error = CpuStatsIo wrapped_io_error | CpuStatsFlat flat_error | MissingField string path

definition get_field :: "path \<Rightarrow> (string \<rightharpoonup> u64) \<Rightarrow> string \<Rightarrow> (v2_cpu_stats_error, u64) outcome" where
  "get_field p t name = ok_or (MissingField name p) (t name)"

definition get_or_zero :: "(string \<rightharpoonup> u64) \<Rightarrow> string \<Rightarrow> u64" where
  "get_or_zero t name = (case t name of Some v \<Rightarrow> v | None \<Rightarrow> 0)"

definition v2_cpu_stats :: "(string \<Rightarrow> 'f option) \<Rightarrow> 'f \<Rightarrow> ('w, 'z) fs_env_scheme \<Rightarrow> path \<Rightarrow> 'w \<Rightarrow> (v2_cpu_stats_error, 'f cpu_stats) outcome" where
  "v2_cpu_stats parse_f64 zero env p w =
     (let stats_path = in_dir p ''cpu.stat'' in
      bind_outcome (map_err CpuStatsFlat (parse_flat_keyed_data env stats_path w)) (\<lambda>t.
      bind_outcome (get_field stats_path t ''usage_usec'') (\<lambda>usage.
      bind_outcome (get_field stats_path t ''user_usec'') (\<lambda>user.
      bind_outcome (get_field stats_path t ''system_usec'') (\<lambda>system.
      bind_outcome (map_err CpuStatsIo (read_psi_stats parse_f64 zero env (in_dir p ''cpu.pressure'') w)) (\<lambda>psi.
      Ok \<lparr>cpu_usage_of = \<lparr>usage_total = usage * 1000, usage_user = user * 1000, usage_kernel = system * 1000,
                          per_core_usage_total = [], per_core_usage_user = [], per_core_usage_kernel = []\<rparr>,
          cpu_throttling_of = \<lparr>periods = get_or_zero t ''nr_periods'', throttled_periods = get_or_zero t ''nr_throttled'',
                               throttled_time = get_or_zero t ''throttled_usec'' * 1000\<rparr>,
          cpu_psi = psi\<rparr>))))))"

section \<open>CPU sets and process limits\<close>

definition v2_cpuset_apply :: "('w, 'z) fs_env_scheme \<Rightarrow> path \<Rightarrow> linux_cpu \<Rightarrow> ('w, wrapped_io_error, unit) st" where
  "v2_cpuset_apply env p cpu =
     st_bind (write_opt env (in_dir p ''cpuset.cpus'') (cpu_cpus cpu)) (\<lambda>_.
     write_opt env (in_dir p ''cpuset.mems'') (cpu_mems cpu))"

definition pids_limit_value :: "int \<Rightarrow> string" where
  "pids_limit_value limit = (if limit = 0 then ''1'' else if 1 \<le> limit then int_to_string limit else ''max'')"

definition v2_pids_apply :: "('w, 'z) fs_env_scheme \<Rightarrow> path \<Rightarrow> int \<Rightarrow> ('w, wrapped_io_error, unit) st" where
  "v2_pids_apply env p limit = write_cgroup_file env (in_dir p ''pids.max'') (pids_limit_value limit)"

section \<open>Memory\<close>

datatype v2_memory_error =
    MemIo wrapped_io_error
  | MemoryValue int
  | SwapValue int
  | SwapTooSmall int int
  | SwapWithoutLimit
  | MemoryReservation int

definition memory_set :: "('w, 'z) fs_env_scheme \<Rightarrow> path \<Rightarrow> int \<Rightarrow> ('w, wrapped_io_error, unit) st" where
  "memory_set env p val =
     (if val = 0 then st_return ()
      else if val = - 1 then write_cgroup_file env p ''max''
      else write_cgroup_file env p (int_to_string val))"

definition set_swap :: "('w, 'z) fs_env_scheme \<Rightarrow> path \<Rightarrow> int \<Rightarrow> ('w, wrapped_io_error, unit) st" where
  "set_swap env p val w =
     (let swap_path = in_dir p ''memory.swap.max'' in
      case (if val = - 1 then write_cgroup_file env swap_path ''max'' w
            else write_cgroup_file env swap_path (int_to_string val) w) of
        (Err e, w') \<Rightarrow> if \<not> (val = - 1 \<or> val = 0) \<or> \<not> is_not_found (inner_error e) then (Err e, w') else (Ok (), w')
      | (r, w') \<Rightarrow> (r, w'))"

definition memory_limits :: "('w, 'z) fs_env_scheme \<Rightarrow> path \<Rightarrow> linux_memory \<Rightarrow> ('w, v2_memory_error, unit) st" where
  "memory_limits env p memory =
     (let memory_max = in_dir p ''memory.max'' in
      case mem_limit_of memory of
        Some limit \<Rightarrow>
          (if limit < - 1 then st_fail (MemoryValue limit)
           else case mem_swap_of memory of
             Some swap \<Rightarrow>
               (if swap < - 1 then st_fail (SwapValue swap)
                else
                  st_bind
                    (if swap = - 1 \<or> limit = - 1 then
                       if swap \<noteq> 0 then st_map_err MemIo (set_swap env p swap) else st_return ()
                     else if swap < limit then st_fail (SwapTooSmall swap limit)
                     else if swap \<noteq> 0 then st_map_err MemIo (set_swap env p (swap - limit))
                     else st_return ()) (\<lambda>_.
                  st_map_err MemIo (memory_set env memory_max limit)))
           | None \<Rightarrow>
               st_bind (if limit = - 1 then st_map_err MemIo (set_swap env p (- 1)) else st_return ()) (\<lambda>_.
               st_map_err MemIo (memory_set env memory_max limit)))
      | None \<Rightarrow> (if mem_swap_of memory \<noteq> None then st_fail SwapWithoutLimit else st_return ()))"

definition v2_memory_apply :: "('w, 'z) fs_env_scheme \<Rightarrow> path \<Rightarrow> linux_memory \<Rightarrow> ('w, v2_memory_error, unit) st" where
  "v2_memory_apply env p memory =
     (if mem_reservation_of memory = None \<and> mem_limit_of memory = None \<and> mem_swap_of memory = None then st_return ()
      else
        st_bind (memory_limits env p memory) (\<lambda>_.
        case mem_reservation_of memory of
          Some reservation \<Rightarrow>
            (if reservation < - 1 then st_fail (MemoryReservation reservation)
             else st_map_err MemIo (memory_set env (in_dir p ''memory.low'') reservation))
        | None \<Rightarrow> st_return ()))"

datatype v2_memory_stats_error = MemStatsIo wrapped_io_error | MemStatsFlat flat_error

definition get_memory_data :: "('w, 'z) fs_env_scheme \<Rightarrow> path \<Rightarrow> string \<Rightarrow> string \<Rightarrow> 'w \<Rightarrow> (v2_memory_stats_error, memory_data) outcome" where
  "get_memory_data env p file_prefix fail_event w =
     bind_outcome (map_err MemStatsIo (parse_single_value env (in_dir p (file_prefix @ ''.current'')) w)) (\<lambda>usage.
     bind_outcome (map_err MemStatsIo (parse_single_value env (in_dir p (file_prefix @ ''.max'')) w)) (\<lambda>limit.
     (let peak = parse_single_value env (in_dir p (file_prefix @ ''.peak'')) w in
      if peak = Panic then Panic else if peak = Diverge then Diverge
      else
        bind_outcome (map_err MemStatsFlat (parse_flat_keyed_data env (in_dir p (file_prefix @ ''.events'')) w)) (\<lambda>events.
        Ok \<lparr>mem_usage = usage, mem_max_usage = (case peak of Ok v \<Rightarrow> v | _ \<Rightarrow> 0), mem_fail_count = get_or_zero events fail_event,
            mem_limit = limit\<rparr>))))"

definition v2_memory_stats :: "(string \<Rightarrow> 'f option) \<Rightarrow> 'f \<Rightarrow> ('w, 'z) fs_env_scheme \<Rightarrow> path \<Rightarrow> 'w \<Rightarrow> (v2_memory_stats_error, 'f memory_stats) outcome" where
  "v2_memory_stats parse_f64 zero env p w =
     bind_outcome (get_memory_data env p ''memory'' ''oom'' w) (\<lambda>memory.
     bind_outcome (get_memory_data env p ''memory.swap'' ''fail'' w) (\<lambda>memswap.
     bind_outcome (map_err MemStatsFlat (parse_flat_keyed_data env (in_dir p ''memory.stat'') w)) (\<lambda>stats.
     bind_outcome (map_err MemStatsIo (read_psi_stats parse_f64 zero env (in_dir p ''memory.pressure'') w)) (\<lambda>psi.
     Ok \<lparr>memory_of = memory, memswap_of = memswap, kernel_of = no_memory_data, kernel_tcp_of = no_memory_data, mem_cache = 0,
         mem_hierarchy = True, mem_stats = stats, mem_psi = psi\<rparr>))))"

section \<open>Huge pages\<close>

datatype v2_hugetlb_error = HugeIo wrapped_io_error | HugeParse string int_error | MustBePowerOfTwo string

definition is_digit :: "char \<Rightarrow> bool" where
  "is_digit c \<longleftrightarrow> digit_val c \<noteq> None"

definition is_power_of_two :: "u64 \<Rightarrow> bool" where
  "is_power_of_two number \<longleftrightarrow> number \<noteq> 0 \<and> number AND (if 1 \<le> number then number - 1 else 0) = 0"

text \<open>The page size is part of the file name as it is given; a slash in it makes a path of several components.\<close>

definition hugetlb_file :: "path \<Rightarrow> string \<Rightarrow> string \<Rightarrow> path" where
  "hugetlb_file p size_name suff = path_join p (parse_path (''hugetlb.'' @ size_name @ suff))"

definition v2_hugetlb_apply :: "('w, 'z) fs_env_scheme \<Rightarrow> path \<Rightarrow> linux_hugepage_limit \<Rightarrow> ('w, v2_hugetlb_error, unit) st" where
  "v2_hugetlb_apply env p hugetlb =
     (let page_size_raw = takeWhile is_digit (page_size hugetlb) in
      st_bind (st_lift (map_err (HugeParse page_size_raw) (parse_value page_size_raw))) (\<lambda>n.
      if \<not> is_power_of_two n then st_fail (MustBePowerOfTwo page_size_raw)
      else
        st_bind (st_map_err HugeIo (write_cgroup_file env (hugetlb_file p (page_size hugetlb) ''.max'') (int_to_string (huge_limit hugetlb)))) (\<lambda>_ w.
        (let rsvd_file_path = hugetlb_file p (page_size hugetlb) ''.rsvd.max'' in
         if path_exists env rsvd_file_path w
         then st_map_err HugeIo (write_cgroup_file env rsvd_file_path (int_to_string (huge_limit hugetlb))) w
         else (Ok (), w)))))"

datatype v2_hugetlb_stats_error = HugeStatsIo wrapped_io_error | HugeStatsSizes page_sizes_error | ParseMax path int_error

definition stats_for_page_size :: "('w, 'z) fs_env_scheme \<Rightarrow> path \<Rightarrow> string \<Rightarrow> 'w \<Rightarrow> (v2_hugetlb_stats_error, hugetlb_stats) outcome" where
  "stats_for_page_size env p size_name w =
     (let rsvd = hugetlb_file p size_name ''.rsvd.events'';
          (suff, path, r) =
            (case read_cgroup_file env rsvd w of
               Err _ \<Rightarrow> ('''', hugetlb_file p size_name ''.events'', read_cgroup_file env (hugetlb_file p size_name ''.events'') w)
             | r \<Rightarrow> (''.rsvd'', rsvd, r))
      in
      bind_outcome (map_err HugeStatsIo r) (\<lambda>events.
      bind_outcome
        (case find (prefix ''max'') (str_lines events) of
           Some l \<Rightarrow> bind_outcome (str_from l 3) (\<lambda>t. map_err (ParseMax path) (parse_value (trim t)))
         | None \<Rightarrow> Ok 0) (\<lambda>fail_count.
      bind_outcome (map_err HugeStatsIo (parse_single_value env (hugetlb_file p size_name (suff @ ''.current'')) w)) (\<lambda>usage.
      Ok \<lparr>huge_usage = usage, huge_max_usage = 0, huge_fail_count = fail_count\<rparr>))))"

fun page_size_stats :: "('w, 'z) fs_env_scheme \<Rightarrow> path \<Rightarrow> 'w \<Rightarrow> string list \<Rightarrow> (string \<rightharpoonup> hugetlb_stats) \<Rightarrow>
    (v2_hugetlb_stats_error, string \<rightharpoonup> hugetlb_stats) outcome" where
  "page_size_stats env p w [] m = Ok m"
| "page_size_stats env p w (s # ss) m =
     bind_outcome (stats_for_page_size env p s w) (\<lambda>st. page_size_stats env p w ss (m(s \<mapsto> st)))"

definition v2_hugetlb_stats :: "('w, 'z) fs_env_scheme \<Rightarrow> path \<Rightarrow> 'w \<Rightarrow> (v2_hugetlb_stats_error, string \<rightharpoonup> hugetlb_stats) outcome" where
  "v2_hugetlb_stats env p w =
     bind_outcome (map_err HugeStatsSizes (supported_page_sizes env w)) (\<lambda>page_sizes. page_size_stats env p w page_sizes Map.empty)"

section \<open>Block I/O\<close>

datatype v2_io_error = IoIo wrapped_io_error | LeafWeight | InvalidWeight "16 word"

definition convert_cfq_io_weight_to_bfq :: "16 word \<Rightarrow> 16 word" where
  "convert_cfq_io_weight_to_bfq v =
     (if v = 0 then 0 else ucast (1 + (ucast v - 10) * 9999 div 990 :: u32))"

definition show_u16 :: "16 word \<Rightarrow> string" where
  "show_u16 n = nat_to_string (unat n)"

definition device_line :: "int \<Rightarrow> int \<Rightarrow> string \<Rightarrow> string" where
  "device_line major minor rest = int_to_string major @ '':'' @ int_to_string minor @ '' '' @ rest"

definition write_weight_device :: "('w, 'z) fs_env_scheme \<Rightarrow> path \<Rightarrow> weight_device \<Rightarrow> ('w, wrapped_io_error, unit) st" where
  "write_weight_device env p wd =
     (case wd_weight wd of
        Some weight \<Rightarrow> write_cgroup_file env (in_dir p ''io.bfq.weight'') (device_line (wd_major wd) (wd_minor wd) (show_u16 weight))
      | None \<Rightarrow> st_return ())"

text \<open>The four throttling loops differ in the key that they write.\<close>

definition write_throttle :: "('w, 'z) fs_env_scheme \<Rightarrow> path \<Rightarrow> string \<Rightarrow> throttle_device list option \<Rightarrow> ('w, wrapped_io_error, unit) st" where
  "write_throttle env p key devices =
     (case devices of
        Some ds \<Rightarrow>
          st_for (\<lambda>d. write_cgroup_file env (in_dir p ''io.max'')
            (device_line (td_major d) (td_minor d) (key @ ''='' @ nat_to_string (td_rate d)))) ds
      | None \<Rightarrow> st_return ())"

definition write_io_weight :: "('w, 'z) fs_env_scheme \<Rightarrow> path \<Rightarrow> 16 word \<Rightarrow> ('w, v2_io_error, unit) st" where
  "write_io_weight env p weight =
     (if weight = 0 then st_return ()
      else if \<not> (10 \<le> weight \<and> weight \<le> 1000) then st_fail (InvalidWeight weight)
      else (\<lambda>w.
        let cgroup_file = in_dir p ''io.bfq.weight'' in
        if path_exists env cgroup_file w then st_map_err IoIo (write_cgroup_file env cgroup_file (show_u16 weight)) w
        else st_map_err IoIo (write_cgroup_file env (in_dir p ''io.weight'') (show_u16 (convert_cfq_io_weight_to_bfq weight))) w))"

definition v2_io_apply :: "('w, 'z) fs_env_scheme \<Rightarrow> path \<Rightarrow> linux_block_io \<Rightarrow> ('w, v2_io_error, unit) st" where
  "v2_io_apply env p blkio =
     (if (case io_leaf_weight blkio of Some l \<Rightarrow> 0 < l | None \<Rightarrow> False) then st_fail LeafWeight
      else
        st_bind (case io_weight blkio of Some weight \<Rightarrow> write_io_weight env p weight | None \<Rightarrow> st_return ()) (\<lambda>_.
        st_map_err IoIo (
        st_bind (case io_weight_device blkio of Some wds \<Rightarrow> st_for (write_weight_device env p) wds | None \<Rightarrow> st_return ()) (\<lambda>_.
        st_bind (write_throttle env p ''rbps'' (io_throttle_read_bps blkio)) (\<lambda>_.
        st_bind (write_throttle env p ''wbps'' (io_throttle_write_bps blkio)) (\<lambda>_.
        st_bind (write_throttle env p ''riops'' (io_throttle_read_iops blkio)) (\<lambda>_.
        write_throttle env p ''wiops'' (io_throttle_write_iops blkio))))))))"

datatype v2_io_stats_error = IoStatsIo wrapped_io_error | IoStatsNested nested_error | IoStatsDevice device_number_error | IoStatsInt int_error

definition io_value :: "u64 \<Rightarrow> u64 \<Rightarrow> string \<Rightarrow> string \<Rightarrow> nat \<Rightarrow> (v2_io_stats_error, blkio_device_stat) outcome" where
  "io_value major minor op v n =
     bind_outcome (str_from v n) (\<lambda>t.
     bind_outcome (map_err IoStatsInt (parse_value t)) (\<lambda>x.
     Ok \<lparr>blk_major = major, blk_minor = minor, op_type = Some op, blk_value = x\<rparr>))"

fun io_values :: "u64 \<Rightarrow> u64 \<Rightarrow> string list \<Rightarrow> blkio_device_stat list \<times> blkio_device_stat list \<Rightarrow>
    (v2_io_stats_error, blkio_device_stat list \<times> blkio_device_stat list) outcome" where
  "io_values major minor [] (sb, sd) = Ok (sb, sd)"
| "io_values major minor (v # vs) (sb, sd) =
     (if prefix ''rbytes'' v then bind_outcome (io_value major minor ''read'' v 7) (\<lambda>s. io_values major minor vs (sb @ [s], sd))
      else if prefix ''wbytes'' v then bind_outcome (io_value major minor ''write'' v 7) (\<lambda>s. io_values major minor vs (sb @ [s], sd))
      else if prefix ''rios'' v then bind_outcome (io_value major minor ''read'' v 5) (\<lambda>s. io_values major minor vs (sb, sd @ [s]))
      else if prefix ''wios'' v then bind_outcome (io_value major minor ''write'' v 5) (\<lambda>s. io_values major minor vs (sb, sd @ [s]))
      else io_values major minor vs (sb, sd))"

fun io_entries :: "(string \<times> string list) list \<Rightarrow> blkio_device_stat list \<times> blkio_device_stat list \<Rightarrow>
    (v2_io_stats_error, blkio_device_stat list \<times> blkio_device_stat list) outcome" where
  "io_entries [] acc = Ok acc"
| "io_entries ((k, vs) # es) acc =
     bind_outcome (map_err IoStatsDevice (parse_device_number k)) (\<lambda>(major, minor).
     bind_outcome (io_values major minor vs acc) (io_entries es))"

text \<open>\<open>iter\<close> is the order in which the hash map is iterated.\<close>

definition v2_io_stats :: "(string \<Rightarrow> 'f option) \<Rightarrow> 'f \<Rightarrow> ((string \<times> string list) list \<Rightarrow> (string \<times> string list) list) \<Rightarrow>
    ('w, 'z) fs_env_scheme \<Rightarrow> path \<Rightarrow> 'w \<Rightarrow> (v2_io_stats_error, 'f blkio_stats) outcome" where
  "v2_io_stats parse_f64 zero iter env p w =
     bind_outcome (map_err IoStatsNested (parse_nested_keyed_data env (in_dir p ''io.stat'') w)) (\<lambda>keyed_data.
     bind_outcome (io_entries (iter keyed_data) ([], [])) (\<lambda>(sb, sd).
     bind_outcome (map_err IoStatsIo (read_psi_stats parse_f64 zero env (in_dir p ''io.pressure'') w)) (\<lambda>psi.
     Ok \<lparr>service_bytes = sb, serviced = sd, blk_time = [], blk_sectors = [], blk_service_time = [], blk_wait_time = [],
         blk_queued = [], blk_merged = [], blk_psi = psi\<rparr>)))"

section \<open>Unified resources\<close>

datatype controller_type = Cpu | CpuSet | Io | Memory | HugeTlb | Pids

primrec show_controller_type :: "controller_type \<Rightarrow> string" where
  "show_controller_type Cpu = ''cpu''"
| "show_controller_type CpuSet = ''cpuset''"
| "show_controller_type Io = ''io''"
| "show_controller_type Memory = ''memory''"
| "show_controller_type HugeTlb = ''hugetlb''"
| "show_controller_type Pids = ''pids''"

datatype v2_unified_error =
    UnifiedIo wrapped_io_error
  | SubsystemNotAvailable string wrapped_io_error
  | InvalidFilename string
  | InvalidFormat string

text \<open>One entry of the map; the entries come in the order in which the hash map is iterated.\<close>

definition unified_entry :: "('w, 'z) fs_env_scheme \<Rightarrow> path \<Rightarrow> controller_type list \<Rightarrow> string \<times> string \<Rightarrow> ('w, v2_unified_error, unit) st" where
  "unified_entry env p controllers = (\<lambda>(cgroup_file, val).
     if CHR ''/'' \<in> set cgroup_file then st_fail (InvalidFilename cgroup_file)
     else if CHR ''.'' \<notin> set cgroup_file \<or> prefix ''.'' cgroup_file then st_fail (InvalidFormat cgroup_file)
     else st_map_err (\<lambda>err.
       let subsystem = (case split_once (CHR ''.'') cgroup_file of Some (s, _) \<Rightarrow> s | None \<Rightarrow> cgroup_file) in
       if list_ex (\<lambda>c. show_controller_type c = subsystem) controllers then UnifiedIo err
       else SubsystemNotAvailable subsystem err)
       (write_cgroup_file_by_line env (path_join p (parse_path cgroup_file)) val))"

definition v2_unified_apply :: "('w, 'z) fs_env_scheme \<Rightarrow> (string \<times> string) list \<Rightarrow> path \<Rightarrow> controller_type list \<Rightarrow> ('w, v2_unified_error, unit) st" where
  "v2_unified_apply env unified p controllers = st_for (unified_entry env p controllers) unified"

section \<open>Freezer\<close>

datatype v2_freezer_error =
    FreezerIo wrapped_io_error
  | FreezerNotSupported wrapped_io_error
  | ExpectedToBe freezer_state freezer_state
  | UnknownState string
  | FreezerTimeout nat
  | InvalidUtf8

text \<open>Reading with a handle: opening for reading, one byte, the lines of \<open>cgroup.events\<close> from its beginning, rewinding.\<close>

record 'w v2_env = "'w fs_env" +
  open_read :: "path \<Rightarrow> 'w \<Rightarrow> (os_error, unit) outcome"
  read_byte :: "path \<Rightarrow> 'w \<Rightarrow> (os_error, u8) outcome"
  event_lines :: "path \<Rightarrow> 'w \<Rightarrow> (os_error, string list) outcome"
  rewind_file :: "path \<Rightarrow> 'w \<Rightarrow> (os_error, unit) outcome"

text \<open>The polling loop of \<open>wait_frozen\<close>, for the iterations that remain of 1000.\<close>

fun wait_loop :: "('w, 'z) v2_env_scheme \<Rightarrow> path \<Rightarrow> nat \<Rightarrow> ('w, v2_freezer_error, freezer_state) st" where
  "wait_loop env p 0 w = (Err (FreezerTimeout (10 * 1000)), w)"
| "wait_loop env p (Suc n) w =
     (case event_lines env p w of
        Ok ls \<Rightarrow>
          (case find (prefix ''frozen '') ls of
             None \<Rightarrow> (Ok FreezerUndefined, w)
           | Some l \<Rightarrow>
               if prefix ''frozen 1'' l then (Ok Frozen, w)
               else
                 (let w = sleep_ms env 10 w in
                  case rewind_file env p w of
                    Ok _ \<Rightarrow> wait_loop env p n w
                  | Err e \<Rightarrow> (Err (FreezerIo (WOther e p)), w)
                  | Panic \<Rightarrow> (Panic, w) | Diverge \<Rightarrow> (Diverge, w)))
      | Err e \<Rightarrow> (Err (FreezerIo (WRead e p)), w)
      | Panic \<Rightarrow> (Panic, w) | Diverge \<Rightarrow> (Diverge, w))"

definition wait_frozen :: "('w, 'z) v2_env_scheme \<Rightarrow> path \<Rightarrow> ('w, v2_freezer_error, freezer_state) st" where
  "wait_frozen env p =
     (let p = in_dir p ''cgroup.events'' in
      st_bind (\<lambda>w. (map_err (\<lambda>e. FreezerIo (WOpen e p)) (open_read env p w), w)) (\<lambda>_. wait_loop env p 1000))"

definition read_freezer_state :: "('w, 'z) v2_env_scheme \<Rightarrow> path \<Rightarrow> ('w, v2_freezer_error, freezer_state) st" where
  "read_freezer_state env p =
     (let target = in_dir p ''cgroup.freeze'' in
      st_bind (\<lambda>w. (map_err (\<lambda>e. FreezerIo (WOpen e target)) (open_read env target w), w)) (\<lambda>_.
      st_bind (\<lambda>w. (map_err (\<lambda>e. FreezerIo (WRead e target)) (read_byte env target w), w)) (\<lambda>b.
      st_bind (st_lift (ok_or InvalidUtf8 (from_utf8 [b]))) (\<lambda>st.
      if st = ''0'' then st_return Thawed
      else if st = ''1'' then wait_frozen env p
      else st_fail (UnknownState st)))))"

definition freezer_confirm :: "('w, 'z) v2_env_scheme \<Rightarrow> path \<Rightarrow> freezer_state \<Rightarrow> ('w, v2_freezer_error, unit) st" where
  "freezer_confirm env p fs =
     st_bind (read_freezer_state env p) (\<lambda>actual.
     if actual \<noteq> fs then st_fail (ExpectedToBe fs actual) else st_return ())"

definition v2_freezer_apply :: "('w, 'z) v2_env_scheme \<Rightarrow> freezer_state \<Rightarrow> path \<Rightarrow> ('w, v2_freezer_error, unit) st" where
  "v2_freezer_apply env fs p =
     (if fs = FreezerUndefined then st_return ()
      else
        (let state_str = (if fs = Frozen then ''1'' else ''0''); target = in_dir p ''cgroup.freeze'' in
         (\<lambda>w. case open_write env target w of
            (Err e, w') \<Rightarrow> if fs = Frozen then (Err (FreezerNotSupported (WOpen e target)), w') else (Ok (), w')
          | (Ok _, w') \<Rightarrow>
              st_bind (st_map_err (\<lambda>e. FreezerIo (WWrite e target state_str)) (write_all env target state_str)) (\<lambda>_.
              freezer_confirm env p fs) w'
          | (Panic, w') \<Rightarrow> (Panic, w') | (Diverge, w') \<Rightarrow> (Diverge, w'))))"

section \<open>What the controllers write\<close>

text \<open>An observer of the data that is written successfully, in order.\<close>

definition write_log :: "('w, 'z) fs_env_scheme \<Rightarrow> ('w \<Rightarrow> (path \<times> string) list) \<Rightarrow> bool" where
  "write_log env log \<longleftrightarrow>
     (\<forall>p w. log (snd (open_write env p w)) = log w) \<and>
     (\<forall>p d w. log (snd (write_all env p d w)) = (if fst (write_all env p d w) = Ok () then log w @ [(p, d)] else log w))"

lemma write_cgroup_file_log:
  assumes "write_log env log" "write_cgroup_file env p d w = (r, w')"
  shows "log w' = (if r = Ok () then log w @ [(p, d)] else log w)"
proof -
  obtain r1 w1 where o: "open_write env p w = (r1, w1)"
    by (cases "open_write env p w")
  then have l1: "log w1 = log w"
    using assms(1) unfolding write_log_def by (metis snd_conv)
  obtain r2 w2 where a: "write_all env p d w1 = (r2, w2)"
    by (cases "write_all env p d w1")
  then have l2: "log w2 = (if r2 = Ok () then log w1 @ [(p, d)] else log w1)"
    using assms(1) unfolding write_log_def by (metis fst_conv snd_conv)
  show ?thesis
    using assms(2) o a l1 l2 by (cases r1; cases r2) (auto simp: write_cgroup_file_def st_bind_def st_map_err_def)
qed

text \<open>A call that adds the given writes when it succeeds.\<close>

definition adds :: "('w \<Rightarrow> (path \<times> string) list) \<Rightarrow> ('w, 'e, 'a) st \<Rightarrow> (path \<times> string) list \<Rightarrow> bool" where
  "adds log m xs \<longleftrightarrow> (\<forall>w x w'. m w = (Ok x, w') \<longrightarrow> log w' = log w @ xs)"

lemma adds_return: "adds log (st_return x) []" and adds_fail: "adds log (st_fail e) xs"
  by (auto simp: adds_def st_return_def st_fail_def)

lemma adds_write: "write_log env log \<Longrightarrow> adds log (write_cgroup_file env p d) [(p, d)]"
  by (auto simp: adds_def dest: write_cgroup_file_log)

lemma adds_map_err: "adds log m xs \<Longrightarrow> adds log (st_map_err h m) xs"
  by (auto simp: adds_def outcome_simps)

lemma adds_bind: "adds log m xs \<Longrightarrow> (\<And>x. adds log (f x) ys) \<Longrightarrow> adds log (st_bind m f) (xs @ ys)"
  by (fastforce simp: adds_def outcome_simps)

lemma adds_for: "(\<And>x. x \<in> set xs \<Longrightarrow> adds log (f x) (g x)) \<Longrightarrow> adds log (st_for f xs) (concat (map g xs))"
proof (induction xs)
  case (Cons x xs)
  then show ?case
    using adds_bind [of log "f x" "g x" "\<lambda>_. st_for f xs"] by simp
qed (simp add: adds_return)

lemma adds_write_opt:
  "write_log env log \<Longrightarrow> adds log (write_opt env p v) (case v of Some d \<Rightarrow> [(p, d)] | None \<Rightarrow> [])"
  by (auto simp: write_opt_def adds_write adds_return split: option.splits)

definition limit_value :: "int \<Rightarrow> string" where
  "limit_value v = (if v = - 1 then ''max'' else int_to_string v)"

lemma adds_memory_set:
  "write_log env log \<Longrightarrow> adds log (memory_set env p v) (if v = 0 then [] else [(p, limit_value v)])"
  by (auto simp: memory_set_def limit_value_def adds_write adds_return)

text \<open>
  The swap limit that cgroup v2 needs for an OCI memory limit and memory+swap limit: \<open>None\<close> leaves it
  alone.
\<close>

definition swap_limit :: "int \<Rightarrow> int option \<Rightarrow> int option" where
  "swap_limit limit swap =
     (case swap of
        None \<Rightarrow> if limit = - 1 then Some (- 1) else None
      | Some s \<Rightarrow> if s = 0 then None else if s = - 1 \<or> limit = - 1 then Some s else Some (s - limit))"

definition swap_writes :: "path \<Rightarrow> int option \<Rightarrow> (path \<times> string) list set" where
  "swap_writes p v =
     (case v of
        None \<Rightarrow> {[]}
      | Some s \<Rightarrow> (if s = - 1 \<or> s = 0 then {[]} else {}) \<union> {[(in_dir p ''memory.swap.max'', limit_value s)]})"

lemma set_swap_log:
  assumes "write_log env log" "set_swap env p v w = (Ok x, w')"
  shows "\<exists>sw \<in> swap_writes p (Some v). log w' = log w @ sw"
proof -
  let ?f = "in_dir p ''memory.swap.max''"
  obtain r where r: "write_cgroup_file env ?f (limit_value v) w = (r, w')"
    using assms(2) by (auto simp: set_swap_def Let_def limit_value_def split: if_splits prod.splits outcome.splits)
  have "r = Ok () \<or> v = - 1 \<or> v = 0"
    using assms(2) r by (cases r) (auto simp: set_swap_def Let_def limit_value_def split: if_splits prod.splits outcome.splits)
  then show ?thesis
    using write_cgroup_file_log [OF assms(1) r] by (auto simp: swap_writes_def)
qed

lemma memory_limits_log:
  assumes "write_log env log" "memory_limits env p mem w = (Ok x, w')" "mem_limit_of mem = Some limit"
  shows "- 1 \<le> limit \<and> (\<exists>sw \<in> swap_writes p (swap_limit limit (mem_swap_of mem)).
    log w' = log w @ sw @ (if limit = 0 then [] else [(in_dir p ''memory.max'', limit_value limit)]))"
proof -
  have set: "log w2 = log w1 @ (if v = 0 then [] else [(in_dir p ''memory.max'', limit_value v)])"
    if "memory_set env (in_dir p ''memory.max'') v w1 = (Ok y, w2)" for w1 w2 y v
    using adds_memory_set [OF assms(1)] that unfolding adds_def by blast
  show ?thesis
    using assms(2,3) unfolding memory_limits_def Let_def
    by (cases "mem_swap_of mem")
       (auto simp: outcome_simps swap_limit_def swap_writes_def split: if_splits dest!: set set_swap_log [OF assms(1)])
qed


section \<open>Weights and page sizes\<close>

text \<open>
  C31. The conversion of a block I/O weight neither wraps around nor leaves the range of cgroup v2: it maps
  the weights 10 to 1000 to the weights 1 to 10000, the ends to the ends, and keeps their order.
\<close>

theorem io_weight_conversion:
  assumes "10 \<le> v" and "v \<le> v'" and "v' \<le> 1000"
  shows "unat (convert_cfq_io_weight_to_bfq v) = 1 + (unat v - 10) * 9999 div 990 \<and>
    convert_cfq_io_weight_to_bfq v \<in> {1..10000} \<and>
    convert_cfq_io_weight_to_bfq v \<le> convert_cfq_io_weight_to_bfq v' \<and>
    convert_cfq_io_weight_to_bfq 10 = 1 \<and> convert_cfq_io_weight_to_bfq 1000 = 10000"
proof -
  have conv: "unat (convert_cfq_io_weight_to_bfq x) = 1 + (unat x - 10) * 9999 div 990" if "10 \<le> x" "x \<le> 1000" for x
  proof -
    have x: "10 \<le> unat x" "unat x \<le> 1000" "x \<noteq> 0"
      using that by (auto simp: word_le_nat_alt)
    have "unat (ucast x - 10 :: u32) = unat x - 10"
      using x by (subst unat_sub) (simp_all add: word_le_nat_alt unsigned_ucast_eq take_bit_nat_eq_self)
    then have "unat ((ucast x - 10) * 9999 :: u32) = (unat x - 10) * 9999"
      using x by (subst unat_mult_lem [THEN iffD1]) auto
    then have "unat ((ucast x - 10) * 9999 div 990 :: u32) = (unat x - 10) * 9999 div 990"
      by (simp add: unat_div_distrib)
    moreover have "(unat x - 10) * 9999 div 990 \<le> 9999"
      using x by (simp add: div_le_mono [of "(unat x - 10) * 9999" "990 * 9999" 990, simplified])
    ultimately have "unat (1 + (ucast x - 10) * 9999 div 990 :: u32) = 1 + (unat x - 10) * 9999 div 990"
      by (subst unat_add_lem [THEN iffD1]) auto
    then show ?thesis
      using x \<open>(unat x - 10) * 9999 div 990 \<le> 9999\<close>
      by (simp add: convert_cfq_io_weight_to_bfq_def unsigned_ucast_eq take_bit_nat_eq_self)
  qed
  have v: "10 \<le> v" "v \<le> 1000" "10 \<le> v'" "v' \<le> 1000"
    using assms by (auto simp: word_le_nat_alt)
  then have n: "10 \<le> unat v" "unat v \<le> unat v'" "unat v' \<le> 1000"
    using assms by (auto simp: word_le_nat_alt)
  have mono: "(unat v - 10) * 9999 div 990 \<le> (unat v' - 10) * 9999 div 990"
    using n by (intro div_le_mono mult_le_mono1 diff_le_mono)
  moreover have "(unat v' - 10) * 9999 div 990 \<le> 990 * 9999 div 990"
    using n by (intro div_le_mono mult_le_mono1) simp
  ultimately have "convert_cfq_io_weight_to_bfq v \<in> {1..10000}" "convert_cfq_io_weight_to_bfq v \<le> convert_cfq_io_weight_to_bfq v'"
    using conv [OF v(1,2)] conv [OF v(3,4)] by (simp_all add: word_le_nat_alt)
  moreover have "convert_cfq_io_weight_to_bfq 10 = 1" "convert_cfq_io_weight_to_bfq 1000 = 10000"
    by (simp_all add: convert_cfq_io_weight_to_bfq_def)
  ultimately show ?thesis
    using conv [OF v(1,2)] by blast
qed

theorem io_weight_conversion_witness: "unat (convert_cfq_io_weight_to_bfq 500) = 4950"
  using io_weight_conversion [of 500 500] by simp

lemma high_bit:
  assumes "m < 2 ^ Suc k" "2 ^ k \<le> m" shows "bit (m :: nat) k"
proof -
  have "m div 2 ^ k = 1"
    using assms by (intro div_nat_eqI) simp_all
  then show ?thesis
    by (simp add: bit_iff_odd)
qed

lemma and_pred_zero_iff:
  assumes "0 < (n :: nat)" shows "n AND (n - 1) = 0 \<longleftrightarrow> (\<exists>k. n = 2 ^ k)"
proof
  assume z: "n AND (n - 1) = 0"
  obtain k where k: "2 ^ k \<le> n" "n < 2 ^ Suc k"
    using ex_power_ivl1 [of 2 n] assms by auto
  have "n = 2 ^ k"
  proof (rule ccontr)
    assume "n \<noteq> 2 ^ k"
    then have "bit n k" "bit (n - 1) k"
      using k by (auto intro!: high_bit)
    then have "bit (n AND (n - 1)) k"
      by (simp add: bit_and_iff)
    then show False
      using z by simp
  qed
  then show "\<exists>k. n = 2 ^ k" ..
next
  assume "\<exists>k. n = 2 ^ k"
  then obtain k where "n = 2 ^ k" ..
  moreover have "(2 :: nat) ^ k AND mask k = 0"
    by (simp flip: take_bit_eq_mask)
  ultimately show "n AND (n - 1) = 0"
    by (simp add: mask_eq_exp_minus_1)
qed

text \<open>
  C32. The bit test for huge page sizes is exact: it accepts the powers of two of 64 bits and nothing
  else.
\<close>

theorem power_of_two_test: "is_power_of_two n \<longleftrightarrow> (\<exists>k < 64. unat n = 2 ^ k)"
proof (cases "n = 0")
  case False
  then have pos: "0 < unat n" "1 \<le> n"
    by (simp_all add: unat_gt_0 word_le_nat_alt Suc_le_eq)
  have "n AND (n - 1) = 0 \<longleftrightarrow> unat (n AND (n - 1)) = 0"
    by (simp add: unat_eq_zero)
  also have "unat (n AND (n - 1)) = unat n AND (unat n - 1)"
    using pos by (simp add: unsigned_and_eq unat_sub)
  finally have "is_power_of_two n \<longleftrightarrow> (\<exists>k. unat n = 2 ^ k)"
    using False pos and_pred_zero_iff [OF pos(1)] by (simp add: is_power_of_two_def)
  moreover have "k < 64" if "unat n = 2 ^ k" for k
  proof -
    have "(2 :: nat) ^ k < 2 ^ 64"
      using unsigned_less [where 'a = nat, of n] that by simp
    then show ?thesis
      by (rule power_less_imp_less_exp [rotated]) simp
  qed
  ultimately show ?thesis
    by blast
qed (simp add: is_power_of_two_def)

section \<open>CPU limits\<close>

lemma weight_range: "shares \<noteq> 0 \<Longrightarrow> convert_shares_to_cgroup2 fit shares \<in> {1..10000}"
  by (simp add: convert_shares_to_cgroup2_def)

definition quota_value :: "int \<Rightarrow> nat option \<Rightarrow> string" where
  "quota_value quota period =
     (if 0 < quota then int_to_string quota else ''max'') @ (case period of Some q \<Rightarrow> '' '' @ nat_to_string q | None \<Rightarrow> [])"

text \<open>
  C19. A successful \<open>apply\<close> of the CPU controller with a quota writes, in this order: the weight for nonzero
  shares, which lies in 1 to 10000 whatever the floating point fit gives; the quota, \<open>max\<close> if it is
  not positive, with the period if there is one; the burst; the idle setting. Nothing else is written.
\<close>

theorem cpu_limits_applied:
  assumes "write_log env log" and "v2_cpu_apply env fit p cpu w = (Ok (), w')" and "cpu_quota cpu = Some quota"
  shows "\<exists>wt. log w' = log w @ wt @ [(in_dir p ''cpu.max'', quota_value quota (cpu_period cpu))] @
      (case cpu_burst cpu of Some b \<Rightarrow> [(in_dir p ''cpu.max.burst'', nat_to_string b)] | None \<Rightarrow> []) @
      (case cpu_idle cpu of Some i \<Rightarrow> [(in_dir p ''cpu.idle'', int_to_string i)] | None \<Rightarrow> []) \<and>
    (case cpu_shares cpu of
       None \<Rightarrow> wt = []
     | Some s \<Rightarrow> if s = 0 then wt = [] else \<exists>n \<in> {1..10000}. wt = [(in_dir p ''cpu.weight'', nat_to_string n)])"
proof -
  let ?sh = "case cpu_shares cpu of
      Some s \<Rightarrow> (let weight = convert_shares_to_cgroup2 fit s in
        if weight \<noteq> 0 then st_map_err CpuIo (write_cgroup_file env (in_dir p ''cpu.weight'') (nat_to_string weight)) else st_return ())
    | None \<Rightarrow> st_return ()"
  obtain w1 w2 w3 where *: "?sh w = (Ok (), w1)" "write_cgroup_file env (in_dir p ''cpu.max'') (quota_value quota (cpu_period cpu)) w1 = (Ok (), w2)"
    "write_opt env (in_dir p ''cpu.max.burst'') (map_option nat_to_string (cpu_burst cpu)) w2 = (Ok (), w3)"
    "write_opt env (in_dir p ''cpu.idle'') (map_option int_to_string (cpu_idle cpu)) w3 = (Ok (), w')"
    using assms(2,3)
    by (auto simp: v2_cpu_apply_def outcome_simps new_cpu_max_def quota_value_def write_opt_def st_return_def split: if_splits option.splits)
  have 2: "log w2 = log w1 @ [(in_dir p ''cpu.max'', quota_value quota (cpu_period cpu))]"
    using write_cgroup_file_log [OF assms(1) *(2)] by simp
  have 3: "log w3 = log w2 @ (case cpu_burst cpu of Some b \<Rightarrow> [(in_dir p ''cpu.max.burst'', nat_to_string b)] | None \<Rightarrow> [])"
    using adds_write_opt [OF assms(1)] *(3) by (fastforce simp: adds_def split: option.splits)
  have 4: "log w' = log w3 @ (case cpu_idle cpu of Some i \<Rightarrow> [(in_dir p ''cpu.idle'', int_to_string i)] | None \<Rightarrow> [])"
    using adds_write_opt [OF assms(1)] *(4) by (fastforce simp: adds_def split: option.splits)
  show ?thesis
  proof (cases "\<exists>s. cpu_shares cpu = Some s \<and> s \<noteq> 0")
    case True
    then obtain s where s: "cpu_shares cpu = Some s" "s \<noteq> 0"
      by blast
    then have n: "convert_shares_to_cgroup2 fit s \<in> {1..10000}"
      by (intro weight_range)
    then have "write_cgroup_file env (in_dir p ''cpu.weight'') (nat_to_string (convert_shares_to_cgroup2 fit s)) w = (Ok (), w1)"
      using *(1) s by (simp add: Let_def outcome_simps)
    then show ?thesis
      using write_cgroup_file_log [OF assms(1)] 2 3 4 s n by fastforce
  next
    case False
    then have "w1 = w"
      using *(1) by (auto simp: st_return_def convert_shares_to_cgroup2_def split: option.splits)
    then show ?thesis
      using 2 3 4 False by (auto split: option.splits)
  qed
qed

section \<open>Unified entries stay in the cgroup\<close>

lemma concat_split_inclusive: "concat (split_inclusive c s) = s"
proof (induction s)
  case (Cons x xs)
  then show ?case
    by (cases "split_inclusive c xs") auto
qed simp

lemma write_by_line_adds:
  assumes "write_log env log"
  shows "adds log (write_cgroup_file_by_line env p d) (map (\<lambda>l. (p, l)) (split_inclusive newline d))"
proof -
  have "adds log (st_map_err (\<lambda>e. WWrite e p l) (write_all env p l)) [(p, l)]" for l
    using assms unfolding adds_def write_log_def by (metis fst_conv snd_conv st_map_err_eq_Ok unit.exhaust)
  then have "adds log (write_by_line env p d) (concat (map (\<lambda>l. [(p, l)]) (split_inclusive newline d)))"
    unfolding write_by_line_def by (intro adds_for)
  moreover have "adds log (st_map_err (\<lambda>e. WOpen e p) (open_write env p)) []"
    using assms unfolding adds_def write_log_def by (auto simp: outcome_simps) (metis snd_conv)
  ultimately have "adds log (write_cgroup_file_by_line env p d) ([] @ concat (map (\<lambda>l. [(p, l)]) (split_inclusive newline d)))"
    unfolding write_cgroup_file_by_line_def by (intro adds_bind)
  then show ?thesis
    by (simp add: concat_map_singleton)
qed

lemma parse_path_name: "wf_name s \<Longrightarrow> parse_path s = [Normal s]"
  by (cases s) (auto simp: parse_path_def wf_name_def split_on_no_sep parse_rest_def parse_component_def)

definition unified_name :: "string \<Rightarrow> bool" where
  "unified_name n \<longleftrightarrow> CHR ''/'' \<notin> set n \<and> CHR ''.'' \<in> set n \<and> \<not> prefix ''.'' n"

lemma unified_name_wf: "unified_name n \<Longrightarrow> wf_name n"
  by (auto simp: unified_name_def wf_name_def)

lemma unified_entry_eq:
  "unified_entry env p cs (n, v) =
     (if CHR ''/'' \<in> set n then st_fail (InvalidFilename n)
      else if \<not> unified_name n then st_fail (InvalidFormat n)
      else st_map_err (\<lambda>err.
        let subsystem = (case split_once (CHR ''.'') n of Some (s, _) \<Rightarrow> s | None \<Rightarrow> n) in
        if list_ex (\<lambda>c. show_controller_type c = subsystem) cs then UnifiedIo err else SubsystemNotAvailable subsystem err)
        (write_cgroup_file_by_line env (in_dir p n) v))"
  using parse_path_name [OF unified_name_wf, of n] by (auto simp: unified_entry_def unified_name_def)

lemma st_for_all_ok: "st_for f xs w = (Ok (), w') \<Longrightarrow> \<forall>x \<in> set xs. \<exists>w1 w2. f x w1 = (Ok (), w2)"
  by (induction xs arbitrary: w) (auto simp: outcome_simps)

text \<open>
  C18. Unified entries can only write files directly in the cgroup: when they are applied successfully,
  every name is a plain file name, without a slash and not starting with a dot, and each value has been
  written to the file of that name in the cgroup's directory, line by line, in full.
\<close>

theorem unified_writes_inside_cgroup:
  assumes "write_log env log" and "v2_unified_apply env unified p cs w = (Ok (), w')"
  shows "log w' = log w @ concat (map (\<lambda>(n, v). map (\<lambda>l. (path_join p [Normal n], l)) (split_inclusive newline v)) unified) \<and>
    (\<forall>(n, v) \<in> set unified. wf_name n \<and> concat (split_inclusive newline v) = v)"
proof -
  have "adds log (unified_entry env p cs e) (case e of (n, v) \<Rightarrow> map (\<lambda>l. (in_dir p n, l)) (split_inclusive newline v))" for e
    using write_by_line_adds [OF assms(1)] by (cases e) (auto simp: unified_entry_eq adds_fail adds_map_err)
  then have "adds log (v2_unified_apply env unified p cs)
      (concat (map (\<lambda>e. case e of (n, v) \<Rightarrow> map (\<lambda>l. (in_dir p n, l)) (split_inclusive newline v)) unified))"
    unfolding v2_unified_apply_def by (intro adds_for)
  moreover have "wf_name n" if "(n, v) \<in> set unified" for n v
    using st_for_all_ok [of "unified_entry env p cs" unified w w'] assms(2) that unified_name_wf [of n]
    by (fastforce simp: v2_unified_apply_def unified_entry_eq outcome_simps split: if_splits)
  ultimately show ?thesis
    using assms(2) by (auto simp: adds_def concat_split_inclusive)
qed

section \<open>The freezer\<close>

lemma wait_loop_Ok:
  assumes "wait_loop env p n w = (Ok Frozen, w')"
  shows "\<exists>ls l. event_lines env p w' = Ok ls \<and> find (prefix ''frozen '') ls = Some l \<and> prefix ''frozen 1'' l"
  using assms
  by (induction env p n w rule: wait_loop.induct) (auto simp: Let_def split: outcome.splits option.splits if_splits)

text \<open>
  C20. A freeze is confirmed: when freezing a cgroup succeeds, the last thing it read is a \<open>cgroup.events\<close>
  file in which the kernel reports the cgroup as frozen; a cgroup that has only been asked to freeze
  is never reported as frozen.
\<close>

theorem freeze_confirmed:
  assumes "v2_freezer_apply env Frozen p w = (Ok (), w')"
  shows "\<exists>ls l. event_lines env (in_dir p ''cgroup.events'') w' = Ok ls \<and> find (prefix ''frozen '') ls = Some l \<and> prefix ''frozen 1'' l"
proof -
  obtain w1 where "freezer_confirm env p Frozen w1 = (Ok (), w')"
    using assms by (auto simp: v2_freezer_apply_def Let_def outcome_simps split: prod.splits outcome.splits)
  then have "wait_loop env (in_dir p ''cgroup.events'') 1000 w1 = (Ok Frozen, w')"
    by (auto simp: freezer_confirm_def read_freezer_state_def wait_frozen_def Let_def outcome_simps split: if_splits)
  then show ?thesis
    by (rule wait_loop_Ok)
qed

section \<open>A concrete cgroup\<close>

lemma demo_write_log: "write_log demo_fs_env df_log"
  by (simp add: write_log_def demo_fs_env_def)

definition demo_cgroup :: "string list \<Rightarrow> demo_fs" where
  "demo_cgroup names = empty_fs\<lparr>df_file := (\<lambda>p. if p \<in> set (map (\<lambda>n. [RootDir, Normal n]) names) then Some '''' else None)\<rparr>"

lemmas demo_cgroup_defs = demo_fs_env_def demo_cgroup_def empty_fs_def write_cgroup_file_def st_bind_def st_map_err_def st_return_def
  path_join_def is_absolute_def


theorem cpu_limits_applied_witness:
  "\<exists>w' n. v2_cpu_apply demo_fs_env (\<lambda>_. 99999) [RootDir]
       \<lparr>cpu_shares = Some 1024, cpu_quota = Some (- 1), cpu_burst = None, cpu_period = Some 5, cpu_realtime_runtime = None,
        cpu_realtime_period = None, cpu_cpus = None, cpu_mems = None, cpu_idle = None\<rparr> (demo_cgroup [''cpu.weight'', ''cpu.max'']) = (Ok (), w') \<and>
     n \<in> {1..10000} \<and> df_log w' = [([RootDir, Normal ''cpu.weight''], nat_to_string n), ([RootDir, Normal ''cpu.max''], ''max '' @ nat_to_string 5)]"
proof -
  let ?c = "\<lparr>cpu_shares = Some 1024, cpu_quota = Some (- 1), cpu_burst = None, cpu_period = Some 5, cpu_realtime_runtime = None,
        cpu_realtime_period = None, cpu_cpus = None, cpu_mems = None, cpu_idle = None\<rparr>"
  let ?w = "demo_cgroup [''cpu.weight'', ''cpu.max'']"
  obtain w' where r: "v2_cpu_apply demo_fs_env (\<lambda>_. 99999) [RootDir] ?c ?w = (Ok (), w')"
    by (simp add: v2_cpu_apply_def is_realtime_requested_def convert_shares_to_cgroup2_def new_cpu_max_def write_opt_def demo_cgroup_defs)
  have "df_log ?w = []"
    by (simp add: demo_cgroup_def empty_fs_def)
  with cpu_limits_applied [OF demo_write_log r, of "- 1"] r show ?thesis
    by (auto simp: quota_value_def path_join_def)
qed

theorem unified_writes_inside_cgroup_witness:
  "\<exists>w'. v2_unified_apply demo_fs_env [(''memory.min'', ''5'')] [RootDir] [Memory] (demo_cgroup [''memory.min'']) = (Ok (), w') \<and>
        df_log w' = [([RootDir, Normal ''memory.min''], ''5'')]"
proof -
  let ?w = "demo_cgroup [''memory.min'']"
  obtain w' where r: "v2_unified_apply demo_fs_env [(''memory.min'', ''5'')] [RootDir] [Memory] ?w = (Ok (), w')"
    by (simp add: v2_unified_apply_def unified_entry_def write_cgroup_file_by_line_def write_by_line_def parse_path_def parse_rest_def
        parse_component_def newline_def demo_cgroup_defs)
  from unified_writes_inside_cgroup [OF demo_write_log r] r show ?thesis
    by (simp add: path_join_def newline_def demo_cgroup_def empty_fs_def)
qed

definition demo_v2_env :: "demo_fs v2_env" where
  "demo_v2_env =
     \<lparr>path_exists = path_exists demo_fs_env, open_write = open_write demo_fs_env, write_all = write_all demo_fs_env,
      fs_write = fs_write demo_fs_env, read_to_string = read_to_string demo_fs_env, open_lines = open_lines demo_fs_env,
      create_dir = create_dir demo_fs_env, remove_dir = remove_dir demo_fs_env, read_dir = read_dir demo_fs_env,
      path_is_dir = path_is_dir demo_fs_env, statfs_type = statfs_type demo_fs_env, sleep_ms = sleep_ms demo_fs_env,
      send_sigkill = send_sigkill demo_fs_env, open_read = (\<lambda>p w. Ok ()),
      read_byte = (\<lambda>p w. ok_or (Os 5) (map_option (\<lambda>s. hd (as_bytes s)) (df_file w p))),
      event_lines = (\<lambda>p w. Ok [''populated 1'', ''frozen 1'']), rewind_file = (\<lambda>p w. Ok ())\<rparr>"

lemma demo_v2_env_simps [simp]:
  "open_write demo_v2_env = open_write demo_fs_env" "write_all demo_v2_env = write_all demo_fs_env"
  "open_read demo_v2_env = (\<lambda>p w. Ok ())"
  "read_byte demo_v2_env = (\<lambda>p w. ok_or (Os 5) (map_option (\<lambda>s. hd (as_bytes s)) (df_file w p)))"
  "event_lines demo_v2_env = (\<lambda>p w. Ok [''populated 1'', ''frozen 1''])"
  by (simp_all add: demo_v2_env_def)

theorem freeze_confirmed_witness:
  "\<exists>w' ls. v2_freezer_apply demo_v2_env Frozen [RootDir] (demo_cgroup [''cgroup.freeze'']) = (Ok (), w') \<and>
     event_lines demo_v2_env [RootDir, Normal ''cgroup.events''] w' = Ok ls"
proof -
  have loop: "wait_loop demo_v2_env p 1000 w = (Ok Frozen, w)" for p w
    using wait_loop.simps(2) [of demo_v2_env p 999 w] by simp
  have "wait_frozen demo_v2_env [RootDir] w = (Ok Frozen, w)" for w
    by (simp add: wait_frozen_def loop st_bind_def)
  moreover have "from_utf8 [hd (as_bytes ''1'')] = Some ''1''"
    by code_simp
  ultimately have "freezer_confirm demo_v2_env [RootDir] Frozen w = (Ok (), w)"
    if "df_file w [RootDir, Normal ''cgroup.freeze''] = Some ''1''" for w
    using that by (simp add: freezer_confirm_def read_freezer_state_def Let_def st_lift_def st_bind_def st_return_def path_join_def is_absolute_def)
  then obtain w' where r: "v2_freezer_apply demo_v2_env Frozen [RootDir] (demo_cgroup [''cgroup.freeze'']) = (Ok (), w')"
    by (simp add: v2_freezer_apply_def Let_def demo_cgroup_defs)
  from freeze_confirmed [OF r] r show ?thesis
    by (auto simp: path_join_def)
qed

end
