(* ===== verification/Device_Rules.thy ===== *)
theory Device_Rules
  imports Rust_Strings
begin

text \<open>
  The device rules of a container and what they mean: the \<open>Emulator\<close> of
  \<open>libcgroups/src/v2/devices/emulator.rs\<close>, the default device lists of \<open>libcgroups/src/common.rs\<close>, and
  the specification of a rule list as the verdict of the last rule that applies.
  The types \<open>LinuxDeviceType\<close>, \<open>LinuxDeviceCgroup\<close> and \<open>LinuxDevice\<close> belong to the crate \<open>oci_spec\<close>; of
  its functions, the default device type and the conversion of a device into a rule are parameters.
\<close>

section \<open>Data\<close>

datatype device_type = DevA | DevB | DevC | DevU | DevP

record device_rule =
  allow :: bool
  rtyp :: "device_type option"
  major :: "i64 option"
  minor :: "i64 option"
  access :: "string option"

record linux_device =
  dev_path :: string
  dev_typ :: device_type
  dev_major :: i64
  dev_minor :: i64
  dev_file_mode :: "u32 option"

section \<open>The emulator\<close>

record emulator =
  default_allow :: bool
  rules :: "device_rule list"

definition with_default_allow :: "bool \<Rightarrow> emulator" where
  "with_default_allow b = \<lparr>default_allow = b, rules = []\<rparr>"

definition typ_or :: "device_type \<Rightarrow> device_rule \<Rightarrow> device_type" where
  "typ_or dflt r = (case rtyp r of Some t \<Rightarrow> t | None \<Rightarrow> dflt)"

definition add_rule :: "device_type \<Rightarrow> device_rule \<Rightarrow> emulator \<Rightarrow> emulator" where
  "add_rule dflt rule em =
     (if typ_or dflt rule = DevA then em\<lparr>default_allow := allow rule, rules := []\<rparr>
      else if access rule = None then em
      else em\<lparr>rules := rules em @ [rule]\<rparr>)"

definition add_rules :: "device_type \<Rightarrow> device_rule list \<Rightarrow> emulator \<Rightarrow> emulator" where
  "add_rules dflt rs em = foldl (\<lambda>em r. add_rule dflt r em) em rs"

section \<open>The default devices\<close>

definition default_allow_devices :: "device_rule list" where
  "default_allow_devices =
     [\<lparr>allow = True, rtyp = Some DevC, major = None, minor = None, access = Some ''m''\<rparr>,
      \<lparr>allow = True, rtyp = Some DevB, major = None, minor = None, access = Some ''m''\<rparr>,
      \<lparr>allow = True, rtyp = Some DevC, major = Some 5, minor = Some 1, access = Some ''rwm''\<rparr>,
      \<lparr>allow = True, rtyp = Some DevC, major = Some 136, minor = None, access = Some ''rwm''\<rparr>,
      \<lparr>allow = True, rtyp = Some DevC, major = Some 5, minor = Some 2, access = Some ''rwm''\<rparr>,
      \<lparr>allow = True, rtyp = Some DevC, major = Some 10, minor = Some 200, access = Some ''rwm''\<rparr>]"

definition default_devices :: "linux_device list" where
  "default_devices =
     [\<lparr>dev_path = ''/dev/null'', dev_typ = DevC, dev_major = 1, dev_minor = 3, dev_file_mode = Some 54\<rparr>,
      \<lparr>dev_path = ''/dev/zero'', dev_typ = DevC, dev_major = 1, dev_minor = 5, dev_file_mode = Some 54\<rparr>,
      \<lparr>dev_path = ''/dev/full'', dev_typ = DevC, dev_major = 1, dev_minor = 7, dev_file_mode = Some 54\<rparr>,
      \<lparr>dev_path = ''/dev/tty'', dev_typ = DevC, dev_major = 5, dev_minor = 0, dev_file_mode = Some 54\<rparr>,
      \<lparr>dev_path = ''/dev/urandom'', dev_typ = DevC, dev_major = 1, dev_minor = 9, dev_file_mode = Some 54\<rparr>,
      \<lparr>dev_path = ''/dev/random'', dev_typ = DevC, dev_major = 1, dev_minor = 8, dev_file_mode = Some 54\<rparr>]"

text \<open>
  The list \<open>apply_devices\<close> feeds to the emulator: the rules of the container, then the default
  devices converted by \<open>to_rule\<close>, then the default rules.
\<close>

definition all_rules :: "(linux_device \<Rightarrow> device_rule) \<Rightarrow> device_rule list option \<Rightarrow> device_rule list" where
  "all_rules to_rule linux_devices =
     (case linux_devices of Some ds \<Rightarrow> ds | None \<Rightarrow> []) @ map to_rule default_devices @ default_allow_devices"

section \<open>What a list of rules means\<close>

text \<open>
  A rule of type \<open>a\<close> applies to every access; a rule without an access string applies to none;
  the others apply where \<open>matches\<close> says so. The last rule that applies decides.
\<close>

definition applies :: "device_type \<Rightarrow> (device_rule \<Rightarrow> bool) \<Rightarrow> device_rule \<Rightarrow> bool" where
  "applies dflt matches r \<longleftrightarrow> typ_or dflt r = DevA \<or> (access r \<noteq> None \<and> matches r)"

definition verdict :: "device_type \<Rightarrow> (device_rule \<Rightarrow> bool) \<Rightarrow> bool \<Rightarrow> device_rule list \<Rightarrow> bool" where
  "verdict dflt matches d rs =
     (case find (applies dflt matches) (rev rs) of Some r \<Rightarrow> allow r | None \<Rightarrow> d)"

text \<open>First match on the reversed list of the emulator, which is how the program looks rules up.\<close>

definition emulator_verdict :: "(device_rule \<Rightarrow> bool) \<Rightarrow> emulator \<Rightarrow> bool" where
  "emulator_verdict matches em =
     (case find matches (rev (rules em)) of Some r \<Rightarrow> allow r | None \<Rightarrow> default_allow em)"

lemma verdict_snoc:
  "verdict dflt matches d (rs @ [r]) = (if applies dflt matches r then allow r else verdict dflt matches d rs)"
  by (simp add: verdict_def)

lemma verdict_append: "verdict dflt matches d (rs @ rs') = verdict dflt matches (verdict dflt matches d rs) rs'"
  by (induction rs' rule: rev_induct)
     (simp_all add: verdict_snoc flip: append_assoc, simp add: verdict_def)

lemma add_rules_snoc: "add_rules dflt (rs @ [r]) em = add_rule dflt r (add_rules dflt rs em)"
  by (simp add: add_rules_def)

lemma add_rule_verdict:
  "emulator_verdict matches (add_rule dflt r em)
     = (if applies dflt matches r then allow r else emulator_verdict matches em)"
  by (auto simp: emulator_verdict_def add_rule_def applies_def split: option.splits)

lemma add_rules_verdict:
  "emulator_verdict matches (add_rules dflt rs (with_default_allow d)) = verdict dflt matches d rs"
proof (induction rs rule: rev_induct)
  case Nil
  show ?case by (simp add: add_rules_def with_default_allow_def emulator_verdict_def verdict_def)
next
  case (snoc r rs)
  then show ?case by (simp add: add_rules_snoc verdict_snoc add_rule_verdict)
qed

text \<open>The emulator never stores a wildcard rule nor one without an access string.\<close>

definition stored :: "device_type \<Rightarrow> device_rule \<Rightarrow> bool" where
  "stored dflt r \<longleftrightarrow> typ_or dflt r \<noteq> DevA \<and> access r \<noteq> None"

lemma add_rules_stored: "\<forall>r \<in> set (rules (add_rules dflt rs (with_default_allow d))). stored dflt r \<and> r \<in> set rs"
proof (induction rs rule: rev_induct)
  case Nil
  show ?case by (simp add: add_rules_def with_default_allow_def)
next
  case (snoc r rs)
  then show ?case by (auto simp: add_rules_snoc add_rule_def stored_def)
qed

end
