(* ===== verification/Device_Program.thy ===== *)
theory Device_Program
  imports Device_Rules
begin

text \<open>
  The eBPF program that enforces device rules, \<open>libcgroups/src/v2/devices/program.rs\<close>, and how
  \<open>controller.rs\<close> and \<open>bpf.rs\<close> install it.

  The builder and the virtual machine of the crate \<open>rbpf\<close>, the kernel's eBPF interpreter and the
  constants of \<open>libbpf_sys\<close> are not part of the repository. An instruction is a value of \<open>insn\<close>, named
  after the builder call that emits it; a machine is any \<open>exec\<close> that satisfies \<open>ebpf_machine\<close>, the laws
  of the eBPF instruction set for the instructions the program uses; the constants are a record.
  The main lemma is that the program computes the verdict of the rule list.
\<close>

section \<open>Instructions\<close>

datatype insn =
    LoadXWord nat nat nat
  | AndImm32 nat i32
  | RshImm32 nat i32
  | MovImm32 nat i32
  | MovReg32 nat nat
  | JneImm nat i32 nat
  | JneReg nat nat nat
  | ExitInsn

record devcg_consts =
  ACC_MKNOD :: u32
  ACC_READ :: u32
  ACC_WRITE :: u32
  DEV_BLOCK :: u32
  DEV_CHAR :: u32

datatype program_error = InvalidAccess string | DeviceNotSupported string | WildcardDevice

section \<open>Building the program\<close>

definition bpf_dev_type :: "devcg_consts \<Rightarrow> device_type \<Rightarrow> (program_error, u32) outcome" where
  "bpf_dev_type k t =
     (case t of
        DevC \<Rightarrow> Ok (DEV_CHAR k)
      | DevU \<Rightarrow> Err (DeviceNotSupported ''unbuffered char'')
      | DevB \<Rightarrow> Ok (DEV_BLOCK k)
      | DevP \<Rightarrow> Err (DeviceNotSupported ''pipe device'')
      | DevA \<Rightarrow> Err WildcardDevice)"

text \<open>The first character of a string, as its UTF-8 bytes.\<close>

definition first_char :: "string \<Rightarrow> string" where
  "first_char s = take (fst (utf8_step (as_bytes s))) s"

fun bpf_access_loop :: "devcg_consts \<Rightarrow> u32 \<Rightarrow> string \<Rightarrow> (program_error, u32) outcome" where
  "bpf_access_loop k v [] = Ok v"
| "bpf_access_loop k v (c # cs) =
     (if c = CHR ''r'' then bpf_access_loop k (v OR ACC_READ k) cs
      else if c = CHR ''w'' then bpf_access_loop k (v OR ACC_WRITE k) cs
      else if c = CHR ''m'' then bpf_access_loop k (v OR ACC_MKNOD k) cs
      else Err (InvalidAccess (first_char (c # cs))))"

definition bpf_access :: "devcg_consts \<Rightarrow> string \<Rightarrow> (program_error, u32) outcome" where
  "bpf_access k s = bpf_access_loop k 0 s"

definition prog_init :: "insn list" where
  "prog_init =
     [LoadXWord 2 1 0, AndImm32 2 0xFFFF, LoadXWord 3 1 0, RshImm32 3 16, LoadXWord 4 1 4, LoadXWord 5 1 8]"

definition bool_imm :: "bool \<Rightarrow> i32" where
  "bool_imm b = (if b then 1 else 0)"

definition prog_finalize :: "bool \<Rightarrow> insn list" where
  "prog_finalize dallow = [MovImm32 0 (bool_imm dallow), ExitInsn]"

definition ACC_ALL :: "devcg_consts \<Rightarrow> u32" where
  "ACC_ALL k = ACC_READ k OR ACC_WRITE k OR ACC_MKNOD k"

definition has_number :: "i64 option \<Rightarrow> bool" where
  "has_number n = (case n of Some m \<Rightarrow> 0 \<le> sint m | None \<Rightarrow> False)"

text \<open>The instructions for one rule, with the distance to the next rule counted down as the code does.\<close>

definition rule_insns :: "u32 \<Rightarrow> u32 \<Rightarrow> bool \<Rightarrow> device_rule \<Rightarrow> insn list" where
  "rule_insns dev_type acc has_access rule =
     (let has_major = has_number (major rule);
          has_minor = has_number (minor rule);
          instruction_count =
            1 + (if has_access then 3 else 0) + (if has_major then 1 else 0) + (if has_minor then 1 else 0) + 2;
          off = instruction_count - 1;
          p1 = [JneImm 2 dev_type off];
          (p2, off) =
            (if has_access then ([MovReg32 1 3, AndImm32 1 acc, JneReg 1 3 (off - 3)], off - 3) else ([], off));
          (p3, off) =
            (if has_major then ([JneImm 4 (ucast (the (major rule))) (off - 1)], off - 1) else ([], off));
          (p4, off) =
            (if has_minor then ([JneImm 5 (ucast (the (minor rule))) (off - 1)], off - 1) else ([], off))
      in p1 @ p2 @ p3 @ p4 @ [MovImm32 0 (bool_imm (allow rule)), ExitInsn])"

definition prog_add_rule ::
    "devcg_consts \<Rightarrow> device_type \<Rightarrow> device_rule \<Rightarrow> insn list \<Rightarrow> (program_error, insn list) outcome" where
  "prog_add_rule k dflt rule prog =
     bind_outcome (bpf_dev_type k (typ_or dflt rule)) (\<lambda>dev_type.
     bind_outcome (bpf_access k (case access rule of Some s \<Rightarrow> s | None \<Rightarrow> [])) (\<lambda>acc.
     let has_access = acc \<noteq> ACC_ALL k in
     Ok (prog @ rule_insns dev_type acc has_access rule)))"

fun prog_add_rules ::
    "devcg_consts \<Rightarrow> device_type \<Rightarrow> device_rule list \<Rightarrow> insn list \<Rightarrow> (program_error, insn list) outcome" where
  "prog_add_rules k dflt [] prog = Ok prog"
| "prog_add_rules k dflt (r # rs) prog =
     bind_outcome (prog_add_rule k dflt r prog) (\<lambda>prog. prog_add_rules k dflt rs prog)"

definition from_rules ::
    "devcg_consts \<Rightarrow> device_type \<Rightarrow> device_rule list \<Rightarrow> bool \<Rightarrow> (program_error, insn list) outcome" where
  "from_rules k dflt rs dallow =
     bind_outcome (prog_add_rules k dflt (rev rs) prog_init) (\<lambda>prog.
     Ok (prog @ prog_finalize dallow))"

text \<open>
  The context an access is described by, as its three words. \<open>to_ne_bytes\<close> writes each in the byte
  order the machine loads it in.
\<close>

definition bpf_cgroup_dev_ctx ::
    "devcg_consts \<Rightarrow> device_type \<Rightarrow> u32 \<Rightarrow> u32 \<Rightarrow> string \<Rightarrow> (program_error, u32 \<times> u32 \<times> u32) outcome" where
  "bpf_cgroup_dev_ctx k t maj mn acc =
     (let type_access = (case bpf_dev_type k t of Ok d \<Rightarrow> d AND 0xFFFF | _ \<Rightarrow> 0) in
      bind_outcome (bpf_access k acc) (\<lambda>a. Ok (type_access OR push_bit 16 a, maj, mn)))"

section \<open>The machine\<close>

type_synonym regs = "nat \<Rightarrow> u64"
type_synonym ebpf_exec = "(u64 \<Rightarrow> u32) \<Rightarrow> insn list \<Rightarrow> nat \<Rightarrow> regs \<Rightarrow> u64 option"

text \<open>
  One step of the instruction set: loads and 32-bit operations clear the upper half of their
  destination, a conditional jump compares 64-bit registers and sign-extends its immediate, and the
  offset of a jump counts from the next instruction.
\<close>

definition ebpf_machine :: "ebpf_exec \<Rightarrow> bool" where
  "ebpf_machine exec \<longleftrightarrow>
     (\<forall>mem prog pc r. pc < length prog \<longrightarrow>
        exec mem prog pc r =
          (case prog ! pc of
             LoadXWord d s off \<Rightarrow> exec mem prog (pc + 1) (r(d := ucast (mem (r s + of_nat off))))
           | AndImm32 d i \<Rightarrow> exec mem prog (pc + 1) (r(d := ucast ((ucast (r d) :: u32) AND i)))
           | RshImm32 d i \<Rightarrow> exec mem prog (pc + 1) (r(d := ucast (drop_bit (unat i) (ucast (r d) :: u32))))
           | MovImm32 d i \<Rightarrow> exec mem prog (pc + 1) (r(d := ucast i))
           | MovReg32 d s \<Rightarrow> exec mem prog (pc + 1) (r(d := ucast (ucast (r s) :: u32)))
           | JneImm d i off \<Rightarrow> exec mem prog (if r d \<noteq> scast i then pc + 1 + off else pc + 1) r
           | JneReg d s off \<Rightarrow> exec mem prog (if r d \<noteq> r s then pc + 1 + off else pc + 1) r
           | ExitInsn \<Rightarrow> Some (r 0)))"

section \<open>Running the program\<close>

lemma exec_at:
  assumes "ebpf_machine exec" and "i < length code"
  shows "exec mem (pre @ code @ post) (length pre + i) r =
    (case code ! i of
       LoadXWord d s off \<Rightarrow> exec mem (pre @ code @ post) (length pre + (i + 1)) (r(d := ucast (mem (r s + of_nat off))))
     | AndImm32 d v \<Rightarrow> exec mem (pre @ code @ post) (length pre + (i + 1)) (r(d := ucast ((ucast (r d) :: u32) AND v)))
     | RshImm32 d v \<Rightarrow> exec mem (pre @ code @ post) (length pre + (i + 1))
         (r(d := ucast (drop_bit (unat v) (ucast (r d) :: u32))))
     | MovImm32 d v \<Rightarrow> exec mem (pre @ code @ post) (length pre + (i + 1)) (r(d := ucast v))
     | MovReg32 d s \<Rightarrow> exec mem (pre @ code @ post) (length pre + (i + 1)) (r(d := ucast (ucast (r s) :: u32)))
     | JneImm d v off \<Rightarrow> exec mem (pre @ code @ post) (length pre + (if r d \<noteq> scast v then i + 1 + off else i + 1)) r
     | JneReg d s off \<Rightarrow> exec mem (pre @ code @ post) (length pre + (if r d \<noteq> r s then i + 1 + off else i + 1)) r
     | ExitInsn \<Rightarrow> Some (r 0))"
proof -
  have "length pre + i < length (pre @ code @ post)" "(pre @ code @ post) ! (length pre + i) = code ! i"
    using assms(2) by (simp_all add: nth_append)
  with assms(1) show ?thesis
    unfolding ebpf_machine_def by (auto split: insn.split simp: add.assoc)
qed

text \<open>The registers that hold the access, as the first six instructions leave them.\<close>

definition loaded :: "regs \<Rightarrow> u32 \<Rightarrow> u32 \<Rightarrow> u32 \<Rightarrow> u32 \<Rightarrow> bool" where
  "loaded r t a maj mn \<longleftrightarrow> r 2 = ucast t \<and> r 3 = ucast a \<and> r 4 = ucast maj \<and> r 5 = ucast mn"

text \<open>When the instructions of a rule accept an access.\<close>

definition insns_match :: "u32 \<Rightarrow> u32 \<Rightarrow> bool \<Rightarrow> device_rule \<Rightarrow> u32 \<Rightarrow> u32 \<Rightarrow> u32 \<Rightarrow> u32 \<Rightarrow> bool" where
  "insns_match dev_type acc has_access rule t a maj mn \<longleftrightarrow>
     (ucast t :: u64) = scast (dev_type :: i32) \<and> (has_access \<longrightarrow> a AND acc = a)
     \<and> (has_number (major rule) \<longrightarrow> (ucast maj :: u64) = scast (ucast (the (major rule)) :: i32))
     \<and> (has_number (minor rule) \<longrightarrow> (ucast mn :: u64) = scast (ucast (the (minor rule)) :: i32))"

text \<open>The same, for a counter that is relative to the start of the code.\<close>

definition exec_from :: "ebpf_exec \<Rightarrow> (u64 \<Rightarrow> u32) \<Rightarrow> insn list \<Rightarrow> insn list \<Rightarrow> insn list \<Rightarrow> nat \<Rightarrow> regs \<Rightarrow> u64 option" where
  "exec_from exec mem pre code post i r = exec mem (pre @ code @ post) (length pre + i) r"

lemma exec_from_step:
  assumes "ebpf_machine exec" and "i < length code"
  shows "exec_from exec mem pre code post i r =
    (case code ! i of
       LoadXWord d s off \<Rightarrow> exec_from exec mem pre code post (Suc i) (r(d := ucast (mem (r s + of_nat off))))
     | AndImm32 d v \<Rightarrow> exec_from exec mem pre code post (Suc i) (r(d := ucast ((ucast (r d) :: u32) AND v)))
     | RshImm32 d v \<Rightarrow> exec_from exec mem pre code post (Suc i) (r(d := ucast (drop_bit (unat v) (ucast (r d) :: u32))))
     | MovImm32 d v \<Rightarrow> exec_from exec mem pre code post (Suc i) (r(d := ucast v))
     | MovReg32 d s \<Rightarrow> exec_from exec mem pre code post (Suc i) (r(d := ucast (ucast (r s) :: u32)))
     | JneImm d v off \<Rightarrow> exec_from exec mem pre code post (if r d \<noteq> scast v then Suc (i + off) else Suc i) r
     | JneReg d s off \<Rightarrow> exec_from exec mem pre code post (if r d \<noteq> r s then Suc (i + off) else Suc i) r
     | ExitInsn \<Rightarrow> Some (r 0))"
  using exec_at [OF assms, of mem pre post r] unfolding exec_from_def
  by (simp split: insn.split)

lemma exec_rule_from:
  assumes m: "ebpf_machine exec" and l: "loaded r t a maj mn"
    and code: "code = rule_insns dev_type acc ha rule"
  shows "\<exists>r'. loaded r' t a maj mn \<and>
    exec_from exec mem pre code post 0 r =
      (if insns_match dev_type acc ha rule t a maj mn then Some (ucast (bool_imm (allow rule)))
       else exec_from exec mem pre code post (length code) r')"
proof -
  define r1 where "r1 = (if ha \<and> (ucast t :: u64) = scast dev_type
     then r(1 := ucast (a AND acc)) else r)"
  have "loaded r1 t a maj mn" using l by (simp add: r1_def loaded_def)
  moreover have "exec_from exec mem pre code post 0 r =
      (if insns_match dev_type acc ha rule t a maj mn then Some (ucast (bool_imm (allow rule)))
       else exec_from exec mem pre code post (length code) r1)"
    using l
    by (cases ha; cases "has_number (major rule)"; cases "has_number (minor rule)")
       (simp_all add: code rule_insns_def Let_def insns_match_def exec_from_step [OF m] r1_def loaded_def
         eval_nat_numeral)
  ultimately show ?thesis by blast
qed

section \<open>What the rules mean\<close>

primrec access_mask :: "devcg_consts \<Rightarrow> string \<Rightarrow> u32" where
  "access_mask k [] = 0"
| "access_mask k (c # cs) =
     (if c = CHR ''r'' then ACC_READ k else if c = CHR ''w'' then ACC_WRITE k
      else if c = CHR ''m'' then ACC_MKNOD k else 0) OR access_mask k cs"

definition number_matches :: "i64 option \<Rightarrow> u32 \<Rightarrow> bool" where
  "number_matches n v \<longleftrightarrow> (case n of Some m \<Rightarrow> 0 \<le> sint m \<longrightarrow> sint m = uint v | None \<Rightarrow> True)"

text \<open>
  A rule matches an access of type \<open>t\<close> and rights \<open>a\<close> to the device \<open>maj:mn\<close> if the type is its own, all the
  requested rights are among its own, and the numbers are its own where it gives them. A negative
  number stands for every number.
\<close>

definition rule_matches ::
    "devcg_consts \<Rightarrow> device_type \<Rightarrow> u32 \<Rightarrow> u32 \<Rightarrow> u32 \<Rightarrow> u32 \<Rightarrow> device_rule \<Rightarrow> bool" where
  "rule_matches k dflt t a maj mn r \<longleftrightarrow>
     bpf_dev_type k (typ_or dflt r) = Ok t
     \<and> a AND access_mask k (case access r of Some s \<Rightarrow> s | None \<Rightarrow> []) = a
     \<and> number_matches (major r) maj \<and> number_matches (minor r) mn"

text \<open>What is known of the constants: the device types fit in 15 bits.\<close>

definition devcg_ok :: "devcg_consts \<Rightarrow> bool" where
  "devcg_ok k \<longleftrightarrow> DEV_BLOCK k < 2 ^ 15 \<and> DEV_CHAR k < 2 ^ 15"

definition small_numbers :: "device_rule \<Rightarrow> bool" where
  "small_numbers r \<longleftrightarrow>
     (\<forall>m. major r = Some m \<longrightarrow> sint m < 2 ^ 31) \<and> (\<forall>m. minor r = Some m \<longrightarrow> sint m < 2 ^ 31)"

lemma bpf_access_loop_mask: "bpf_access_loop k v s = Ok m \<Longrightarrow> m = v OR access_mask k s"
  by (induction k v s rule: bpf_access_loop.induct) (auto simp: or.assoc split: if_splits)

lemma bpf_access_mask: "bpf_access k s = Ok m \<Longrightarrow> m = access_mask k s"
  using bpf_access_loop_mask [of k 0 s m] by (simp add: bpf_access_def)

lemma number_matches_insn:
  assumes "\<forall>m. n = Some m \<longrightarrow> sint m < 2 ^ 31"
  shows "(has_number n \<longrightarrow> (ucast v :: u64) = scast (ucast (the n) :: i32)) \<longleftrightarrow> number_matches n v"
  using assms by (auto simp: has_number_def number_matches_def ucast_eq_scast_iff split: option.splits)

lemma insns_match_rule:
  assumes "devcg_ok k" and "small_numbers r" and "a AND ACC_ALL k = a"
    and "bpf_dev_type k (typ_or dflt r) = Ok dt"
    and "bpf_access k (case access r of Some s \<Rightarrow> s | None \<Rightarrow> []) = Ok m"
  shows "insns_match dt m (m \<noteq> ACC_ALL k) r t a maj mn \<longleftrightarrow> rule_matches k dflt t a maj mn r"
proof -
  have "dt = DEV_CHAR k \<or> dt = DEV_BLOCK k"
    using assms(4) by (auto simp: bpf_dev_type_def split: device_type.splits)
  then have "dt < 2 ^ 15" using assms(1) by (auto simp: devcg_ok_def)
  then have "uint dt < 2 ^ 31" by (simp add: word_less_def)
  then have "(ucast t :: u64) = scast dt \<longleftrightarrow> dt = t" by (auto simp: scast_u32_small)
  moreover have "(m \<noteq> ACC_ALL k \<longrightarrow> a AND m = a) \<longleftrightarrow> a AND m = a"
    using assms(3) by auto
  moreover have "m = access_mask k (case access r of Some s \<Rightarrow> s | None \<Rightarrow> [])"
    using assms(5) by (rule bpf_access_mask)
  moreover have "(has_number (major r) \<longrightarrow> (ucast maj :: u64) = scast (ucast (the (major r)) :: i32))
      \<longleftrightarrow> number_matches (major r) maj"
    using assms(2) by (intro number_matches_insn) (simp add: small_numbers_def)
  moreover have "(has_number (minor r) \<longrightarrow> (ucast mn :: u64) = scast (ucast (the (minor r)) :: i32))
      \<longleftrightarrow> number_matches (minor r) mn"
    using assms(2) by (intro number_matches_insn) (simp add: small_numbers_def)
  ultimately show ?thesis
    using assms(4) unfolding insns_match_def rule_matches_def by simp
qed

text \<open>Running the rules one after the other: the first that matches decides.\<close>

lemma prog_add_rule_code:
  assumes "prog_add_rule k dflt r prog = Ok prog'"
  obtains dt m where "bpf_dev_type k (typ_or dflt r) = Ok dt"
    "bpf_access k (case access r of Some s \<Rightarrow> s | None \<Rightarrow> []) = Ok m"
    "prog' = prog @ rule_insns dt m (m \<noteq> ACC_ALL k) r"
  using assms by (auto simp: prog_add_rule_def outcome_simps Let_def)

lemma prog_add_rules_code: "prog_add_rules k dflt rs pre = Ok prog \<Longrightarrow> \<exists>code. prog = pre @ code"
proof (induction rs arbitrary: pre)
  case (Cons r rs)
  then obtain pre' where "prog_add_rule k dflt r pre = Ok pre'" "prog_add_rules k dflt rs pre' = Ok prog"
    by (auto simp: outcome_simps)
  with Cons.IH [of pre'] show ?case by (auto elim: prog_add_rule_code)
qed simp

lemma exec_rules:
  assumes m: "ebpf_machine exec" and k: "devcg_ok k" and a: "a AND ACC_ALL k = a"
    and "prog_add_rules k dflt rs pre = Ok prog" and "\<forall>r \<in> set rs. small_numbers r"
    and "loaded r t a maj mn"
  shows "\<exists>r'. loaded r' t a maj mn \<and> exec mem (prog @ post) (length pre) r =
      (case find (rule_matches k dflt t a maj mn) rs of
         Some rule \<Rightarrow> Some (ucast (bool_imm (allow rule)))
       | None \<Rightarrow> exec mem (prog @ post) (length prog) r')"
  using assms(4-)
proof (induction rs arbitrary: pre r)
  case Nil
  then show ?case by auto
next
  case (Cons rule rs)
  from Cons.prems(1) obtain pre' where p: "prog_add_rule k dflt rule pre = Ok pre'"
    "prog_add_rules k dflt rs pre' = Ok prog"
    by (auto simp: outcome_simps)
  from p(1) obtain dt acc where c: "bpf_dev_type k (typ_or dflt rule) = Ok dt"
    "bpf_access k (case access rule of Some s \<Rightarrow> s | None \<Rightarrow> []) = Ok acc"
    "pre' = pre @ rule_insns dt acc (acc \<noteq> ACC_ALL k) rule"
    by (rule prog_add_rule_code)
  let ?code = "rule_insns dt acc (acc \<noteq> ACC_ALL k) rule"
  have match: "insns_match dt acc (acc \<noteq> ACC_ALL k) rule t a maj mn \<longleftrightarrow> rule_matches k dflt t a maj mn rule"
    by (rule insns_match_rule [OF k _ a c(1,2)]) (use Cons.prems(2) in simp)
  obtain code where prog: "prog = pre' @ code"
    using prog_add_rules_code [OF p(2)] by blast
  obtain r1 where r1: "loaded r1 t a maj mn"
    "exec mem (prog @ post) (length pre) r =
       (if rule_matches k dflt t a maj mn rule then Some (ucast (bool_imm (allow rule)))
        else exec mem (prog @ post) (length pre') r1)"
    using exec_rule_from [OF m Cons.prems(3) refl, of mem pre dt acc "acc \<noteq> ACC_ALL k" rule "code @ post"] match
    by (auto simp: exec_from_def prog c(3))
  with Cons.IH [OF p(2) _ r1(1)] Cons.prems(2) show ?case
    by (auto simp: c(3))
qed

text \<open>The context in memory: the word of type and rights, the major and the minor number.\<close>

definition ctx_at :: "(u64 \<Rightarrow> u32) \<Rightarrow> u64 \<Rightarrow> u32 \<Rightarrow> u32 \<Rightarrow> u32 \<Rightarrow> u32 \<Rightarrow> bool" where
  "ctx_at mem base t a maj mn \<longleftrightarrow>
     t < 2 ^ 16 \<and> a < 2 ^ 16 \<and> mem base = t OR push_bit 16 a \<and> mem (base + 4) = maj \<and> mem (base + 8) = mn"

lemma low_half:
  fixes t a :: u32
  assumes "t < 2 ^ 16" and "a < 2 ^ 16"
  shows "(t OR push_bit 16 a) AND 0xFFFF = t" and "drop_bit 16 (t OR push_bit 16 a) = a"
proof -
  have t: "take_bit 16 t = t" and a: "take_bit 16 a = a"
    using assms by (simp_all add: take_bit_eq_mod word_arith_nat_mod word_less_nat_alt)
  have m: "(0xFFFF :: u32) = mask 16" by (simp add: mask_eq_exp_minus_1)
  show "(t OR push_bit 16 a) AND 0xFFFF = t"
    unfolding m by (subst (2) t [symmetric]) (rule bit_word_eqI, auto simp: bit_simps)
  have "bit t n \<Longrightarrow> n < 16" "bit a n \<Longrightarrow> n < 16" for n by (metis t a bit_take_bit_iff)+
  then show "drop_bit 16 (t OR push_bit 16 a) = a"
    by (intro bit_word_eqI) (auto simp: bit_simps dest: bit_imp_le_length)
qed

lemma exec_init:
  assumes m: "ebpf_machine exec" and c: "ctx_at mem (r 1) t a maj mn"
  shows "\<exists>r'. loaded r' t a maj mn \<and> exec mem (prog_init @ post) 0 r = exec mem (prog_init @ post) (length prog_init) r'"
proof -
  let ?r = "r(2 := ucast t, 3 := ucast a, 4 := ucast maj, 5 := ucast mn)"
  have "mem (r 1) AND 0xFFFF = t" "drop_bit 16 (mem (r 1)) = a" "mem (r 1 + 4) = maj" "mem (r 1 + 8) = mn"
    using c low_half [of t a] by (simp_all add: ctx_at_def)
  then have "exec_from exec mem [] prog_init post 0 r = exec_from exec mem [] prog_init post (length prog_init) ?r"
    by (simp add: prog_init_def exec_from_step [OF m])
  then show ?thesis by (auto simp: exec_from_def loaded_def intro!: exI [of _ ?r])
qed

lemma exec_program:
  assumes m: "ebpf_machine exec" and k: "devcg_ok k" and a: "a AND ACC_ALL k = a"
    and c: "ctx_at mem (r 1) t a maj mn"
    and prog: "from_rules k dflt rs d = Ok prog" and small: "\<forall>r \<in> set rs. small_numbers r"
  shows "exec mem prog 0 r =
    Some (ucast (bool_imm (case find (rule_matches k dflt t a maj mn) (rev rs) of Some r \<Rightarrow> allow r | None \<Rightarrow> d)))"
proof -
  from prog obtain p where p: "prog_add_rules k dflt (rev rs) prog_init = Ok p" "prog = p @ prog_finalize d"
    by (auto simp: from_rules_def outcome_simps)
  obtain code where code: "p = prog_init @ code" using prog_add_rules_code [OF p(1)] by blast
  obtain r0 where r0: "loaded r0 t a maj mn" "exec mem prog 0 r = exec mem prog (length prog_init) r0"
    using exec_init [OF m, of mem r t a maj mn "code @ prog_finalize d"] c p(2) code by auto
  obtain r1 where run: "exec mem prog (length prog_init) r0 =
      (case find (rule_matches k dflt t a maj mn) (rev rs) of
         Some rule \<Rightarrow> Some (ucast (bool_imm (allow rule)))
       | None \<Rightarrow> exec mem prog (length p) r1)"
    using exec_rules [OF m k a p(1) _ r0(1), of mem "prog_finalize d"] small p(2) by auto
  have "exec_from exec mem p (prog_finalize d) [] 0 r1 = Some (ucast (bool_imm d))"
    by (simp add: prog_finalize_def exec_from_step [OF m])
  then have "exec mem prog (length p) r1 = Some (ucast (bool_imm d))"
    by (simp add: exec_from_def p(2))
  with run r0(2) show ?thesis
    by (simp split: option.splits)
qed

text \<open>An interpreter for the instructions, to show that the laws can be met.\<close>

partial_function (option) ebpf_run :: "(u64 \<Rightarrow> u32) \<Rightarrow> insn list \<Rightarrow> nat \<Rightarrow> regs \<Rightarrow> u64 option" where
  "ebpf_run mem prog pc r =
     (if pc < length prog then
        (case prog ! pc of
           LoadXWord d s off \<Rightarrow> ebpf_run mem prog (pc + 1) (r(d := ucast (mem (r s + of_nat off))))
         | AndImm32 d i \<Rightarrow> ebpf_run mem prog (pc + 1) (r(d := ucast ((ucast (r d) :: u32) AND i)))
         | RshImm32 d i \<Rightarrow> ebpf_run mem prog (pc + 1) (r(d := ucast (drop_bit (unat i) (ucast (r d) :: u32))))
         | MovImm32 d i \<Rightarrow> ebpf_run mem prog (pc + 1) (r(d := ucast i))
         | MovReg32 d s \<Rightarrow> ebpf_run mem prog (pc + 1) (r(d := ucast (ucast (r s) :: u32)))
         | JneImm d i off \<Rightarrow> ebpf_run mem prog (if r d \<noteq> scast i then pc + 1 + off else pc + 1) r
         | JneReg d s off \<Rightarrow> ebpf_run mem prog (if r d \<noteq> r s then pc + 1 + off else pc + 1) r
         | ExitInsn \<Rightarrow> Some (r 0))
      else None)"

lemma ebpf_run_machine: "ebpf_machine ebpf_run"
  unfolding ebpf_machine_def by (subst ebpf_run.simps) simp

section \<open>Properties\<close>

text \<open>
  C3. The device program decides every access as the rule list says: for the rules of the container
  followed by the default rules, passed through the emulator and compiled, running the program on
  the context of an access returns 1 if the last rule of the list that applies to the access
  allows it (or denies it: 0), and 0 if none applies. Device numbers are taken to fit in 31 bits.
\<close>

theorem device_program_verdict:
  assumes "ebpf_machine exec" and "devcg_ok k"
    and "em = add_rules dflt (all_rules to_rule ds) (with_default_allow False)"
    and "from_rules k dflt (rules em) (default_allow em) = Ok prog"
    and "\<forall>r \<in> set (all_rules to_rule ds). small_numbers r"
    and "ctx_at mem (r 1) t a maj mn" and "a AND ACC_ALL k = a"
  shows "exec mem prog 0 r =
    Some (if verdict dflt (rule_matches k dflt t a maj mn) False (all_rules to_rule ds) then 1 else 0)"
proof -
  have "\<forall>r \<in> set (rules em). small_numbers r"
    using assms(3,5) add_rules_stored by blast
  from exec_program [where r = r, OF assms(1,2,7,6,4) this]
  have "exec mem prog 0 r = Some (ucast (bool_imm (emulator_verdict (rule_matches k dflt t a maj mn) em)))"
    by (simp add: emulator_verdict_def)
  then show ?thesis
    by (simp add: assms(3) add_rules_verdict bool_imm_def)
qed

definition linux_devcg :: devcg_consts where
  "linux_devcg = \<lparr>ACC_MKNOD = 1, ACC_READ = 2, ACC_WRITE = 4, DEV_BLOCK = 1, DEV_CHAR = 2\<rparr>"

definition demo_rule :: "linux_device \<Rightarrow> device_rule" where
  "demo_rule d = \<lparr>allow = True, rtyp = Some (dev_typ d), major = Some (dev_major d),
     minor = Some (dev_minor d), access = Some ''rwm''\<rparr>"

definition demo_rules :: "device_rule list" where
  "demo_rules = [\<lparr>allow = True, rtyp = None, major = None, minor = None, access = None\<rparr>,
     \<lparr>allow = False, rtyp = Some DevB, major = Some 8, minor = None, access = Some ''rw''\<rparr>]"

definition demo_mem :: "u64 \<Rightarrow> u32" where
  "demo_mem x = (if x = 0 then 2 OR push_bit 16 4 else if x = 4 then 1 else 3)"

definition demo_em :: emulator where
  "demo_em = add_rules DevA (all_rules demo_rule (Some demo_rules)) (with_default_allow False)"

lemma demo_prog: "\<exists>prog. from_rules linux_devcg DevA (rules demo_em) (default_allow demo_em) = Ok prog"
  by (simp add: demo_em_def from_rules_def prog_add_rule_def bpf_dev_type_def bpf_access_def linux_devcg_def
      add_rules_def all_rules_def default_devices_def default_allow_devices_def demo_rules_def demo_rule_def
      add_rule_def with_default_allow_def typ_or_def)

theorem device_program_verdict_witness:
  "\<exists>prog. from_rules linux_devcg DevA (rules demo_em) (default_allow demo_em) = Ok prog
     \<and> ebpf_run demo_mem prog 0 (\<lambda>_. 0) =
         Some (if verdict DevA (rule_matches linux_devcg DevA 2 4 1 3) False (all_rules demo_rule (Some demo_rules))
               then 1 else 0)
     \<and> verdict DevA (rule_matches linux_devcg DevA 2 4 1 3) False (all_rules demo_rule (Some demo_rules))"
proof -
  obtain prog where prog: "from_rules linux_devcg DevA (rules demo_em) (default_allow demo_em) = Ok prog"
    using demo_prog by blast
  have "ebpf_run demo_mem prog 0 (\<lambda>_. 0) =
         Some (if verdict DevA (rule_matches linux_devcg DevA 2 4 1 3) False (all_rules demo_rule (Some demo_rules))
               then 1 else 0)"
    by (rule device_program_verdict [OF ebpf_run_machine _ demo_em_def prog])
       (simp_all add: devcg_ok_def linux_devcg_def all_rules_def default_devices_def default_allow_devices_def
          demo_rules_def demo_rule_def small_numbers_def ctx_at_def demo_mem_def ACC_ALL_def)
  moreover have "verdict DevA (rule_matches linux_devcg DevA 2 4 1 3) False (all_rules demo_rule (Some demo_rules))"
    by (simp add: verdict_def applies_def rule_matches_def all_rules_def default_devices_def default_allow_devices_def
        demo_rules_def demo_rule_def linux_devcg_def bpf_dev_type_def typ_or_def number_matches_def)
  ultimately show ?thesis using prog by blast
qed

lemma verdict_default_rules:
  assumes "\<forall>r \<in> set rs. allow r" and "r \<in> set rs" and "applies dflt matches r"
  shows "verdict dflt matches d (us @ rs)"
proof -
  have "find (applies dflt matches) (rev rs) \<noteq> None"
    using assms(2,3) by (auto simp: find_None_iff)
  then obtain q where q: "find (applies dflt matches) (rev rs) = Some q" by auto
  then have "q \<in> set (rev rs)" by (metis find_Some_iff nth_mem)
  then have "q \<in> set rs" by simp
  with assms(1) q show ?thesis unfolding verdict_append by (simp add: verdict_def)
qed

text \<open>
  C33. The default devices cannot be taken away: every access that one of the default rules matches
  is allowed, whatever the rules of the container say, since the default rules are added last.
\<close>

theorem default_rules_prevail:
  assumes "\<forall>d. allow (to_rule d)"
    and "r \<in> set (map to_rule default_devices @ default_allow_devices)"
    and "access r \<noteq> None" and "rule_matches k dflt t a maj mn r"
  shows "verdict dflt (rule_matches k dflt t a maj mn) False (all_rules to_rule ds)"
proof -
  have "\<forall>r \<in> set (map to_rule default_devices @ default_allow_devices). allow r"
    using assms(1) by (auto simp: default_allow_devices_def)
  from verdict_default_rules [OF this assms(2)] assms(3,4) show ?thesis
    by (simp add: all_rules_def applies_def)
qed

theorem default_rules_prevail_witness:
  "verdict DevA (rule_matches linux_devcg DevA 2 1 77 5) False
     (all_rules demo_rule (Some [\<lparr>allow = False, rtyp = Some DevA, major = None, minor = None, access = Some ''rwm''\<rparr>]))"
  by (rule default_rules_prevail [where r = "\<lparr>allow = True, rtyp = Some DevC, major = None, minor = None, access = Some ''m''\<rparr>"])
     (simp_all add: demo_rule_def default_allow_devices_def rule_matches_def linux_devcg_def bpf_dev_type_def
        typ_or_def number_matches_def)

lemma rule_insns_truncated:
  "rule_insns dt acc ha (rule\<lparr>major := Some 4294967297\<rparr>) = rule_insns dt acc ha (rule\<lparr>major := Some 1\<rparr>)"
  "rule_insns dt acc ha (rule\<lparr>minor := Some 4294967297\<rparr>) = rule_insns dt acc ha (rule\<lparr>minor := Some 1\<rparr>)"
proof -
  have one: "(4294967297 :: i32) = 1" by simp
  have "has_number (Some 4294967297)" "has_number (Some 1)" by (simp_all add: has_number_def)
  then show "rule_insns dt acc ha (rule\<lparr>major := Some 4294967297\<rparr>) = rule_insns dt acc ha (rule\<lparr>major := Some 1\<rparr>)"
    "rule_insns dt acc ha (rule\<lparr>minor := Some 4294967297\<rparr>) = rule_insns dt acc ha (rule\<lparr>minor := Some 1\<rparr>)"
    by (cases ha; cases "has_number (minor rule)"; cases "has_number (major rule)";
        simp add: rule_insns_def Let_def one)+
qed

text \<open>
  C40. Device numbers are cut to 32 bits when the program is built: a rule for the major number
  4294967297, which is \<open>2^32 + 1\<close>, compiles to the very program of the rule for major number 1, and the
  same holds of the minor number.
\<close>

theorem device_number_truncated:
  "from_rules k dflt [rule\<lparr>major := Some 4294967297\<rparr>] d = from_rules k dflt [rule\<lparr>major := Some 1\<rparr>] d
   \<and> from_rules k dflt [rule\<lparr>minor := Some 4294967297\<rparr>] d = from_rules k dflt [rule\<lparr>minor := Some 1\<rparr>] d"
  by (simp add: from_rules_def prog_add_rule_def rule_insns_truncated typ_or_def)

end
