(* ===== verification/Device_Controller.thy ===== *)
theory Device_Controller
  imports Device_Program
begin

text \<open>
  Installing the device program: \<open>libcgroups/src/v2/devices/bpf.rs\<close> and \<open>apply_devices\<close> of
  \<open>controller.rs\<close>. The calls of \<open>libbpf_sys\<close>, \<open>libc\<close> and \<open>nix\<close> are the fields of \<open>bpf_env\<close>; \<open>bpf_kernel\<close>
  states what the kernel promises of them. \<open>apply_devices\<close> leaves the new program as the only one
  attached, and attaches it before it detaches the old ones.
\<close>

section \<open>The calls\<close>

record 'w bpf_env =
  sys_setrlimit_memlock :: "u64 \<Rightarrow> u64 \<Rightarrow> 'w \<Rightarrow> int \<times> 'w"
  bpf_prog_load :: "string \<Rightarrow> insn list \<Rightarrow> 'w \<Rightarrow> int \<times> 'w"
  open_dir :: "string \<Rightarrow> 'w \<Rightarrow> (nat, int) sum \<times> 'w"
  bpf_prog_query :: "int \<Rightarrow> u32 list \<Rightarrow> 'w \<Rightarrow> (int \<times> u32 list \<times> u32) \<times> 'w"
  bpf_prog_get_fd_by_id :: "u32 \<Rightarrow> 'w \<Rightarrow> int \<times> 'w"
  bpf_prog_attach :: "int \<Rightarrow> int \<Rightarrow> 'w \<Rightarrow> int \<times> 'w"
  bpf_prog_detach2 :: "int \<Rightarrow> int \<Rightarrow> 'w \<Rightarrow> int \<times> 'w"
  last_errno :: "'w \<Rightarrow> nat"

definition ENOSPC :: nat where "ENOSPC = 28"

definition LICENSE :: string where "LICENSE = ''Apache''"

record program_info =
  prog_id :: u32
  prog_fd :: int

datatype devices_error =
    BpfErrno nat
  | FailedToIncreaseRLimit
  | NixErrno nat
  | ProgramErr program_error

definition bpf_load :: "'w bpf_env \<Rightarrow> string \<Rightarrow> insn list \<Rightarrow> ('w, devices_error, int) st" where
  "bpf_load env license insns w =
     (case bpf_prog_load env license insns w of
        (fd, w') \<Rightarrow> if fd < 0 then (Err (BpfErrno (last_errno env w')), w') else (Ok fd, w'))"

text \<open>\<open>Vec::resize\<close> with zeros.\<close>

definition resize :: "nat \<Rightarrow> u32 list \<Rightarrow> u32 list" where
  "resize n xs = take n xs @ replicate (n - length xs) 0"

fun query_loop :: "'w bpf_env \<Rightarrow> int \<Rightarrow> nat \<Rightarrow> u32 list \<Rightarrow> ('w, devices_error, u32 list) st" where
  "query_loop env cgroup_fd 0 prog_ids w = (Ok prog_ids, w)"
| "query_loop env cgroup_fd (Suc n) prog_ids w =
     (case bpf_prog_query env cgroup_fd prog_ids w of
        ((ret, ids, prog_cnt), w') \<Rightarrow>
          if ret \<noteq> 0 then
            let err = last_errno env w' in
            if err = ENOSPC then
              if \<not> length prog_ids < unat prog_cnt then (Panic, w')
              else query_loop env cgroup_fd n (resize (unat prog_cnt) ids) w'
            else (Err (BpfErrno err), w')
          else (Ok (resize (unat prog_cnt) ids), w'))"

fun collect_fds :: "'w bpf_env \<Rightarrow> u32 list \<Rightarrow> ('w, devices_error, program_info list) st" where
  "collect_fds env [] w = (Ok [], w)"
| "collect_fds env (i # ids) w =
     (case bpf_prog_get_fd_by_id env i w of
        (fd, w') \<Rightarrow>
          if fd < 0 then collect_fds env ids w'
          else st_bind (collect_fds env ids) (\<lambda>rest. st_return (\<lparr>prog_id = i, prog_fd = fd\<rparr> # rest)) w')"

definition bpf_query :: "'w bpf_env \<Rightarrow> int \<Rightarrow> ('w, devices_error, program_info list) st" where
  "bpf_query env cgroup_fd =
     st_bind (query_loop env cgroup_fd 10 (replicate 64 0)) (\<lambda>prog_ids. collect_fds env prog_ids)"

definition bpf_detach2 :: "'w bpf_env \<Rightarrow> int \<Rightarrow> int \<Rightarrow> ('w, devices_error, unit) st" where
  "bpf_detach2 env fd cgroup_fd w =
     (case bpf_prog_detach2 env fd cgroup_fd w of
        (ret, w') \<Rightarrow> if ret \<noteq> 0 then (Err (BpfErrno (last_errno env w')), w') else (Ok (), w'))"

definition bpf_attach :: "'w bpf_env \<Rightarrow> int \<Rightarrow> int \<Rightarrow> ('w, devices_error, unit) st" where
  "bpf_attach env fd cgroup_fd w =
     (case bpf_prog_attach env fd cgroup_fd w of
        (ret, w') \<Rightarrow> if ret \<noteq> 0 then (Err (BpfErrno (last_errno env w')), w') else (Ok (), w'))"

definition bump_memlock_rlimit :: "'w bpf_env \<Rightarrow> ('w, devices_error, unit) st" where
  "bump_memlock_rlimit env w =
     (case sys_setrlimit_memlock env (push_bit 20 128) (push_bit 20 128) w of
        (ret, w') \<Rightarrow> if ret \<noteq> 0 then (Err FailedToIncreaseRLimit, w') else (Ok (), w'))"

definition open_cgroup_dir :: "'w bpf_env \<Rightarrow> string \<Rightarrow> ('w, devices_error, int) st" where
  "open_cgroup_dir env path w =
     (case open_dir env path w of (Inl e, w') \<Rightarrow> (Err (NixErrno e), w') | (Inr fd, w') \<Rightarrow> (Ok fd, w'))"

definition device_emulator ::
    "device_type \<Rightarrow> (linux_device \<Rightarrow> device_rule) \<Rightarrow> device_rule list option \<Rightarrow> emulator" where
  "device_emulator dflt to_rule linux_devices =
     (let em = with_default_allow False;
          em = (case linux_devices of Some ds \<Rightarrow> foldl (\<lambda>em d. add_rule dflt d em) em ds | None \<Rightarrow> em)
      in foldl (\<lambda>em d. add_rule dflt d em) em (map to_rule default_devices @ default_allow_devices))"

definition apply_devices ::
    "'w bpf_env \<Rightarrow> devcg_consts \<Rightarrow> device_type \<Rightarrow> (linux_device \<Rightarrow> device_rule) \<Rightarrow> string
     \<Rightarrow> device_rule list option \<Rightarrow> ('w, devices_error, unit) st" where
  "apply_devices env k dflt to_rule cgroup_root linux_devices =
     (let em = device_emulator dflt to_rule linux_devices
      in st_bind (st_lift (map_err ProgramErr (from_rules k dflt (rules em) (default_allow em)))) (\<lambda>prog.
         st_bind (bump_memlock_rlimit env) (\<lambda>_.
         st_bind (bpf_load env LICENSE prog) (\<lambda>fd_prog.
         st_bind (open_cgroup_dir env cgroup_root) (\<lambda>fd.
         st_bind (bpf_query env fd) (\<lambda>old_progs.
         st_bind (bpf_attach env fd_prog fd) (\<lambda>_.
         st_for (\<lambda>old_prog. bpf_detach2 env (prog_fd old_prog) fd) old_progs)))))))"

section \<open>What the kernel promises\<close>

text \<open>
  \<open>attached w\<close> are the ids of the device programs attached to the cgroup and \<open>prog_of fd\<close> is the id of
  the program behind a descriptor. A query fills the buffer if it is large enough and otherwise
  fails with \<open>ENOSPC\<close> and reports the count; a call that fails changes nothing.
\<close>

definition quiet_law :: "'w bpf_env \<Rightarrow> ('w \<Rightarrow> u32 list) \<Rightarrow> bool" where
  "quiet_law env attached \<longleftrightarrow>
     (\<forall>c m w r w'. sys_setrlimit_memlock env c m w = (r, w') \<longrightarrow> attached w' = attached w)
   \<and> (\<forall>p w r w'. open_dir env p w = (r, w') \<longrightarrow> attached w' = attached w)"

definition load_law :: "'w bpf_env \<Rightarrow> ('w \<Rightarrow> u32 list) \<Rightarrow> (int \<Rightarrow> u32) \<Rightarrow> bool" where
  "load_law env attached prog_of \<longleftrightarrow>
     (\<forall>l p w fd w'. bpf_prog_load env l p w = (fd, w') \<longrightarrow>
        attached w' = attached w \<and> (0 \<le> fd \<longrightarrow> prog_of fd \<notin> set (attached w)))"

definition query_law :: "'w bpf_env \<Rightarrow> ('w \<Rightarrow> u32 list) \<Rightarrow> bool" where
  "query_law env attached \<longleftrightarrow>
     (\<forall>fd ids w ret ids' cnt w'. bpf_prog_query env fd ids w = ((ret, ids', cnt), w') \<longrightarrow>
        attached w' = attached w \<and> length ids' = length ids
      \<and> (ret = 0 \<longrightarrow> take (unat cnt) ids' = attached w \<and> unat cnt = length (attached w) \<and> unat cnt \<le> length ids)
      \<and> (ret \<noteq> 0 \<and> last_errno env w' = ENOSPC \<longrightarrow> unat cnt = length (attached w) \<and> length ids < unat cnt))"

definition get_fd_law :: "'w bpf_env \<Rightarrow> ('w \<Rightarrow> u32 list) \<Rightarrow> (int \<Rightarrow> u32) \<Rightarrow> bool" where
  "get_fd_law env attached prog_of \<longleftrightarrow>
     (\<forall>i w fd w'. bpf_prog_get_fd_by_id env i w = (fd, w') \<longrightarrow>
        attached w' = attached w \<and> (i \<in> set (attached w) \<longrightarrow> 0 \<le> fd) \<and> (0 \<le> fd \<longrightarrow> prog_of fd = i))"

definition attach_law :: "'w bpf_env \<Rightarrow> ('w \<Rightarrow> u32 list) \<Rightarrow> (int \<Rightarrow> u32) \<Rightarrow> bool" where
  "attach_law env attached prog_of \<longleftrightarrow>
     (\<forall>fd c w ret w'. bpf_prog_attach env fd c w = (ret, w') \<longrightarrow>
        attached w' = (if ret = 0 then attached w @ [prog_of fd] else attached w))
   \<and> (\<forall>fd c w ret w'. bpf_prog_detach2 env fd c w = (ret, w') \<longrightarrow>
        attached w' = (if ret = 0 then remove1 (prog_of fd) (attached w) else attached w))"

definition bpf_kernel :: "'w bpf_env \<Rightarrow> ('w \<Rightarrow> u32 list) \<Rightarrow> (int \<Rightarrow> u32) \<Rightarrow> bool" where
  "bpf_kernel env attached prog_of \<longleftrightarrow>
     quiet_law env attached \<and> load_law env attached prog_of \<and> query_law env attached
     \<and> get_fd_law env attached prog_of \<and> attach_law env attached prog_of"

lemma kernel_query:
  assumes "bpf_kernel env attached prog_of" and "bpf_prog_query env cfd ids w = ((ret, ids', cnt), w')"
  shows "attached w' = attached w"
    and "ret = 0 \<Longrightarrow> resize (unat cnt) ids' = attached w"
    and "ret \<noteq> 0 \<Longrightarrow> last_errno env w' = ENOSPC \<Longrightarrow> length (resize (unat cnt) ids') = length (attached w)
           \<and> length ids < length (attached w)"
proof -
  have "query_law env attached" using assms(1) by (simp add: bpf_kernel_def)
  note k = this [unfolded query_law_def, rule_format, OF assms(2)]
  show "attached w' = attached w" using k by simp
  show "resize (unat cnt) ids' = attached w" if "ret = 0" using k that by (auto simp: resize_def)
  show "length (resize (unat cnt) ids') = length (attached w) \<and> length ids < length (attached w)"
    if "ret \<noteq> 0" "last_errno env w' = ENOSPC"
    using k that by (simp add: resize_def)
qed

lemma kernel_get_fd:
  assumes "bpf_kernel env attached prog_of" and "bpf_prog_get_fd_by_id env i w = (fd, w')"
  shows "attached w' = attached w" "i \<in> set (attached w) \<Longrightarrow> 0 \<le> fd" "0 \<le> fd \<Longrightarrow> prog_of fd = i"
  using assms by (auto simp: bpf_kernel_def get_fd_law_def)

lemma kernel_attach:
  assumes "bpf_kernel env attached prog_of"
  shows "bpf_attach env fd c w = (Ok (), w') \<Longrightarrow> attached w' = attached w @ [prog_of fd]"
    and "bpf_detach2 env fd c w = (Ok (), w') \<Longrightarrow> attached w' = remove1 (prog_of fd) (attached w)"
  using assms
  by (auto simp: bpf_kernel_def attach_law_def bpf_attach_def bpf_detach2_def split: prod.splits if_splits)

lemma kernel_load:
  assumes "bpf_kernel env attached prog_of" and "bpf_load env l p w = (Ok fd, w')"
  shows "attached w' = attached w \<and> prog_of fd \<notin> set (attached w)"
  using assms
  by (auto simp: bpf_kernel_def load_law_def bpf_load_def not_less split: prod.splits if_splits)

lemma kernel_others:
  assumes "bpf_kernel env attached prog_of"
  shows "bump_memlock_rlimit env w = (r, w') \<Longrightarrow> attached w' = attached w"
    and "open_cgroup_dir env p w = (q, w') \<Longrightarrow> attached w' = attached w"
  using assms
  by (auto simp: bpf_kernel_def quiet_law_def bump_memlock_rlimit_def open_cgroup_dir_def
      split: prod.splits if_splits sum.splits)

lemma query_loop_ids:
  assumes "bpf_kernel env attached prog_of" and "query_loop env fd (Suc (Suc n)) ids w = (Ok ids', w')"
  shows "ids' = attached w \<and> attached w' = attached w"
proof -
  obtain ret buf cnt w1 where q: "bpf_prog_query env fd ids w = ((ret, buf, cnt), w1)"
    by (metis prod.exhaust)
  note k = kernel_query [OF assms(1) q]
  show ?thesis
  proof (cases "ret = 0")
    case True
    with assms(2) q k show ?thesis by simp
  next
    case False
    with assms(2) q k have e: "last_errno env w1 = ENOSPC"
      and l: "query_loop env fd (Suc n) (resize (unat cnt) buf) w1 = (Ok ids', w')"
      by (auto simp: Let_def split: if_splits)
    obtain ret2 buf2 cnt2 w2 where q2: "bpf_prog_query env fd (resize (unat cnt) buf) w1 = ((ret2, buf2, cnt2), w2)"
      by (metis prod.exhaust)
    note k2 = kernel_query [OF assms(1) q2]
    have "ret2 = 0"
      using l q2 k2(3) k(1) k(3) [OF False e] by (auto simp: Let_def split: if_splits)
    with l q2 k2 k(1) show ?thesis by simp
  qed
qed

lemma collect_fds_ids:
  assumes "bpf_kernel env attached prog_of" and "collect_fds env ids w = (Ok infos, w')"
    and "set ids \<subseteq> set (attached w)"
  shows "map (\<lambda>i. prog_of (prog_fd i)) infos = ids \<and> attached w' = attached w"
  using assms(2,3)
proof (induction ids arbitrary: w infos)
  case (Cons i ids)
  obtain fd w1 where g: "bpf_prog_get_fd_by_id env i w = (fd, w1)" by (metis prod.exhaust)
  note k = kernel_get_fd [OF assms(1) g]
  from Cons.prems k(2) have "0 \<le> fd" by simp
  with Cons.prems(1) g obtain rest where "collect_fds env ids w1 = (Ok rest, w')"
    "infos = \<lparr>prog_id = i, prog_fd = fd\<rparr> # rest"
    by (auto simp: outcome_simps)
  with Cons.IH [of w1 rest] Cons.prems(2) k \<open>0 \<le> fd\<close> show ?case by simp
qed simp

lemma bpf_query_ids:
  assumes "bpf_kernel env attached prog_of" and "bpf_query env fd w = (Ok infos, w')"
  shows "map (\<lambda>i. prog_of (prog_fd i)) infos = attached w \<and> attached w' = attached w"
proof -
  obtain ids w1 where q: "query_loop env fd (Suc (Suc 8)) (replicate 64 0) w = (Ok ids, w1)"
    "collect_fds env ids w1 = (Ok infos, w')"
    using assms(2) by (auto simp: bpf_query_def outcome_simps eval_nat_numeral)
  with query_loop_ids [OF assms(1) q(1)] collect_fds_ids [OF assms(1) q(2)] show ?thesis by simp
qed

lemma detach_all:
  assumes "bpf_kernel env attached prog_of"
    and "st_for (\<lambda>i. bpf_detach2 env (prog_fd i) fd) infos w = (Ok (), w')"
    and "attached w = map (\<lambda>i. prog_of (prog_fd i)) infos @ rest"
  shows "attached w' = rest"
  using assms(2,3)
proof (induction infos arbitrary: w)
  case Nil
  then show ?case by (simp add: outcome_simps)
next
  case (Cons i infos)
  then obtain w1 where "bpf_detach2 env (prog_fd i) fd w = (Ok (), w1)"
    "st_for (\<lambda>i. bpf_detach2 env (prog_fd i) fd) infos w1 = (Ok (), w')"
    by (auto simp: outcome_simps)
  with Cons kernel_attach(2) [OF assms(1)] show ?case by simp
qed

lemma query_keeps:
  assumes "bpf_kernel env attached prog_of"
  shows "st_keeps (\<lambda>w. attached w = X) (bpf_query env fd)"
proof -
  have "st_keeps (\<lambda>w. attached w = X) (query_loop env fd n ids)" for n ids
  proof (induction n arbitrary: ids)
    case (Suc n)
    then show ?case
      using kernel_query(1) [OF assms]
      by (auto simp: st_keeps_def Let_def split: prod.splits)
  qed (simp add: st_keeps_def)
  moreover have "st_keeps (\<lambda>w. attached w = X) (collect_fds env ids)" for ids
  proof (induction ids)
    case (Cons i ids)
    then have "st_keeps (\<lambda>w. attached w = X)
        (st_bind (collect_fds env ids) (\<lambda>rest. st_return (\<lparr>prog_id = i, prog_fd = fd\<rparr> # rest)))" for fd
      by (intro st_keeps_intros)
    with Cons show ?case
      using kernel_get_fd(1) [OF assms, of i] by (auto simp: st_keeps_def split: prod.splits)
  qed (simp add: st_keeps_def)
  ultimately show ?thesis
    unfolding bpf_query_def by (intro st_keeps_bind)
qed

lemma detach_keeps:
  assumes "bpf_kernel env attached prog_of" and "prog_of f \<noteq> n"
  shows "st_keeps (\<lambda>w. n \<in> set (attached w)) (bpf_detach2 env f fd)"
  using assms
  by (auto simp: st_keeps_def bpf_detach2_def bpf_kernel_def attach_law_def split: prod.splits)

lemma attach_any:
  assumes "bpf_kernel env attached prog_of" and "bpf_attach env f fd w = (r, w')"
  shows "attached w' = attached w \<or> attached w' = attached w @ [prog_of f]"
proof -
  have "attach_law env attached prog_of" using assms(1) by (simp add: bpf_kernel_def)
  moreover obtain ret where "bpf_prog_attach env f fd w = (ret, w')"
    using assms(2) by (auto simp: bpf_attach_def split: prod.splits if_splits)
  ultimately show ?thesis unfolding attach_law_def by metis
qed

lemma load_any:
  assumes "bpf_kernel env attached prog_of" and "bpf_load env l p w = (r, w')"
  shows "attached w' = attached w"
  using assms
  by (auto simp: bpf_load_def bpf_kernel_def load_law_def split: prod.splits if_splits)

text \<open>From the query on: the new program is not one of the old ones, so it outlives the detaching.\<close>

lemma swap_no_gap:
  assumes "bpf_kernel env attached prog_of" and "attached w \<noteq> []" and "prog_of f \<notin> set (attached w)"
  shows "attached (snd (st_bind (bpf_query env fd) (\<lambda>old. st_bind (bpf_attach env f fd)
      (\<lambda>_. st_for (\<lambda>i. bpf_detach2 env (prog_fd i) fd) old)) w)) \<noteq> []"
proof (rule st_bind_post)
  fix r w1
  assume "bpf_query env fd w = (r, w1)"
  then show "attached w1 \<noteq> []"
    using query_keeps [OF assms(1), of "attached w" fd] assms(2) by (auto simp: st_keeps_def)
next
  fix old w1
  assume "bpf_query env fd w = (Ok old, w1)"
  from bpf_query_ids [OF assms(1) this]
  have old: "map (\<lambda>i. prog_of (prog_fd i)) old = attached w" "attached w1 = attached w" by simp_all
  have ne: "prog_of (prog_fd i) \<noteq> prog_of f" if "i \<in> set old" for i
    using assms(3) old(1) that by (metis (mono_tags, lifting) image_eqI list.set_map)
  show "attached (snd (st_bind (bpf_attach env f fd) (\<lambda>_. st_for (\<lambda>i. bpf_detach2 env (prog_fd i) fd) old) w1)) \<noteq> []"
  proof (rule st_bind_post)
    fix r w2
    assume "bpf_attach env f fd w1 = (r, w2)"
    then show "attached w2 \<noteq> []" using attach_any [OF assms(1)] old(2) assms(2) by force
  next
    fix u w2
    assume "bpf_attach env f fd w1 = (Ok u, w2)"
    then have "prog_of f \<in> set (attached w2)" using kernel_attach(1) [OF assms(1)] by force
    moreover have "st_keeps (\<lambda>w. prog_of f \<in> set (attached w)) (st_for (\<lambda>i. bpf_detach2 env (prog_fd i) fd) old)"
      using ne by (intro st_keeps_for detach_keeps [OF assms(1)])
    ultimately show "attached (snd (st_for (\<lambda>i. bpf_detach2 env (prog_fd i) fd) old w2)) \<noteq> []"
      unfolding st_keeps_def by fastforce
  qed
qed

lemma open_swap_no_gap:
  assumes "bpf_kernel env attached prog_of" and "attached w \<noteq> []" and "prog_of f \<notin> set (attached w)"
  shows "attached (snd (st_bind (open_cgroup_dir env root) (\<lambda>fd. st_bind (bpf_query env fd)
      (\<lambda>old. st_bind (bpf_attach env f fd) (\<lambda>_. st_for (\<lambda>i. bpf_detach2 env (prog_fd i) fd) old))) w)) \<noteq> []"
proof (rule st_bind_post)
  show "attached w' \<noteq> []" if "open_cgroup_dir env root w = (r, w')" for r w'
    using kernel_others(2) [OF assms(1) that] assms(2) by simp
  show "attached (snd (st_bind (bpf_query env fd)
      (\<lambda>old. st_bind (bpf_attach env f fd) (\<lambda>_. st_for (\<lambda>i. bpf_detach2 env (prog_fd i) fd) old)) w')) \<noteq> []"
    if "open_cgroup_dir env root w = (Ok fd, w')" for fd w'
    using kernel_others(2) [OF assms(1) that] assms by (intro swap_no_gap [OF assms(1)]) simp_all
qed

lemma load_swap_no_gap:
  assumes "bpf_kernel env attached prog_of" and "attached w \<noteq> []"
  shows "attached (snd (st_bind (bpf_load env l prog) (\<lambda>f. st_bind (open_cgroup_dir env root) (\<lambda>fd.
      st_bind (bpf_query env fd) (\<lambda>old. st_bind (bpf_attach env f fd)
        (\<lambda>_. st_for (\<lambda>i. bpf_detach2 env (prog_fd i) fd) old)))) w)) \<noteq> []"
proof (rule st_bind_post)
  show "attached w' \<noteq> []" if "bpf_load env l prog w = (r, w')" for r w'
    using load_any [OF assms(1) that] assms(2) by simp
  show "attached (snd (st_bind (open_cgroup_dir env root) (\<lambda>fd. st_bind (bpf_query env fd)
      (\<lambda>old. st_bind (bpf_attach env f fd) (\<lambda>_. st_for (\<lambda>i. bpf_detach2 env (prog_fd i) fd) old))) w')) \<noteq> []"
    if "bpf_load env l prog w = (Ok f, w')" for f w'
    using kernel_load [OF assms(1) that] assms by (intro open_swap_no_gap [OF assms(1)]) simp_all
qed

lemma device_emulator_rules:
  "device_emulator dflt to_rule ds = add_rules dflt (all_rules to_rule ds) (with_default_allow False)"
  by (simp add: device_emulator_def add_rules_def all_rules_def Let_def split: option.split)

section \<open>Properties\<close>


text \<open>A kernel for the examples: its state is the list of attached programs, and descriptors are ids.\<close>

definition demo_kernel :: "u32 list bpf_env" where
  "demo_kernel =
     \<lparr>sys_setrlimit_memlock = (\<lambda>c m w. (0, w)),
      bpf_prog_load = (\<lambda>l p w. (if 7 \<in> set w then - 1 else 7, w)),
      open_dir = (\<lambda>p w. (Inr 1, w)),
      bpf_prog_query = (\<lambda>fd ids w. if length w \<le> length ids \<and> length w < 2 ^ 32
         then ((0, w @ drop (length w) ids, of_nat (length w)), w) else ((- 1, ids, of_nat (length w)), w)),
      bpf_prog_get_fd_by_id = (\<lambda>i w. (uint i, w)),
      bpf_prog_attach = (\<lambda>fd c w. (0, w @ [word_of_int fd])),
      bpf_prog_detach2 = (\<lambda>fd c w. (0, remove1 (word_of_int fd) w)),
      last_errno = (\<lambda>w. if length w < 2 ^ 32 then ENOSPC else 1)\<rparr>"

lemma demo_kernel_laws: "bpf_kernel demo_kernel id word_of_int"
proof -
  have "query_law demo_kernel id"
    by (auto simp: query_law_def demo_kernel_def unsigned_of_nat take_bit_nat_eq_self ENOSPC_def
        split: if_splits)
  moreover have "quiet_law demo_kernel id" "load_law demo_kernel id word_of_int"
    "get_fd_law demo_kernel id word_of_int" "attach_law demo_kernel id word_of_int"
    by (auto simp: quiet_law_def load_law_def get_fd_law_def attach_law_def demo_kernel_def split: if_splits)
  ultimately show ?thesis by (simp add: bpf_kernel_def)
qed

lemma demo_kernel_loop: "query_loop demo_kernel 1 (Suc 9) (replicate 64 0) [3, 5] = (Ok [3, 5], [3, 5])"
  by (simp only: query_loop.simps) (simp add: demo_kernel_def resize_def)

lemma demo_kernel_query: "bpf_query demo_kernel 1 [3, 5]
    = (Ok [\<lparr>prog_id = 3, prog_fd = 3\<rparr>, \<lparr>prog_id = 5, prog_fd = 5\<rparr>], [3, 5])"
  using demo_kernel_loop
  by (simp add: bpf_query_def st_bind_def) (simp add: demo_kernel_def st_return_def st_bind_def)

lemma demo_apply:
  "apply_devices demo_kernel linux_devcg DevA demo_rule ''/c'' (Some demo_rules) [3, 5] = (Ok (), [7])"
proof -
  have em: "device_emulator DevA demo_rule (Some demo_rules) = demo_em"
    by (simp add: device_emulator_rules demo_em_def)
  obtain prog where "from_rules linux_devcg DevA (rules demo_em) (default_allow demo_em) = Ok prog"
    using demo_prog by blast
  moreover have "bump_memlock_rlimit demo_kernel [3, 5] = (Ok (), [3, 5])"
    "bpf_load demo_kernel LICENSE prog [3, 5] = (Ok 7, [3, 5])"
    "open_cgroup_dir demo_kernel ''/c'' [3, 5] = (Ok 1, [3, 5])"
    "bpf_attach demo_kernel 7 1 [3, 5] = (Ok (), [3, 5, 7])"
    "bpf_detach2 demo_kernel 3 1 [3, 5, 7] = (Ok (), [5, 7])"
    "bpf_detach2 demo_kernel 5 1 [5, 7] = (Ok (), [7])" for prog
    by (simp_all add: bump_memlock_rlimit_def bpf_load_def open_cgroup_dir_def bpf_attach_def bpf_detach2_def
        demo_kernel_def)
  ultimately show ?thesis
    by (simp add: apply_devices_def em st_bind_def st_lift_def demo_kernel_query st_return_def)
qed


text \<open>
  C11. A container is never without a device program in between: from the moment one is attached,
  and through every way \<open>apply_devices\<close> can end, some device program stays attached, since the new
  program is attached before the old ones are detached.
\<close>

theorem apply_devices_no_gap:
  assumes "bpf_kernel env attached prog_of" and "attached w \<noteq> []"
  shows "attached (snd (apply_devices env k dflt to_rule root ds w)) \<noteq> []"
  unfolding apply_devices_def Let_def
proof (rule st_bind_post)
  let ?em = "device_emulator dflt to_rule ds"
  let ?lift = "st_lift (map_err ProgramErr (from_rules k dflt (rules ?em) (default_allow ?em)))"
  show "attached w0 \<noteq> []" if "?lift w = (r, w0)" for r w0
    using that assms(2) by (simp add: outcome_simps)
  fix prog w0
  assume "?lift w = (Ok prog, w0)"
  then have w0: "w0 = w" by (simp add: outcome_simps)
  show "attached (snd (st_bind (bump_memlock_rlimit env) (\<lambda>_. st_bind (bpf_load env LICENSE prog) (\<lambda>fd_prog.
         st_bind (open_cgroup_dir env root) (\<lambda>fd. st_bind (bpf_query env fd) (\<lambda>old_progs.
         st_bind (bpf_attach env fd_prog fd) (\<lambda>_.
         st_for (\<lambda>old_prog. bpf_detach2 env (prog_fd old_prog) fd) old_progs))))) w0)) \<noteq> []"
  proof (rule st_bind_post)
    show "attached w1 \<noteq> []" if "bump_memlock_rlimit env w0 = (r, w1)" for r w1
      using kernel_others(1) [OF assms(1) that] assms(2) w0 by simp
    show "attached (snd (st_bind (bpf_load env LICENSE prog) (\<lambda>fd_prog.
         st_bind (open_cgroup_dir env root) (\<lambda>fd. st_bind (bpf_query env fd) (\<lambda>old_progs.
         st_bind (bpf_attach env fd_prog fd) (\<lambda>_.
         st_for (\<lambda>old_prog. bpf_detach2 env (prog_fd old_prog) fd) old_progs)))) w1)) \<noteq> []"
      if "bump_memlock_rlimit env w0 = (Ok u, w1)" for u w1
      using kernel_others(1) [OF assms(1) that] assms w0 by (intro load_swap_no_gap [OF assms(1)]) simp_all
  qed
qed

theorem apply_devices_no_gap_witness:
  "id (snd (apply_devices demo_kernel linux_devcg DevA demo_rule ''/c'' (Some demo_rules) [3, 5])) \<noteq> []"
  by (rule apply_devices_no_gap [OF demo_kernel_laws]) simp

end
