(* ===== verification/Cgroup_V2_Manager.thy ===== *)
theory Cgroup_V2_Manager
  imports Cgroup_V2_Controllers Device_Controller
begin

text \<open>
  The manager of cgroup v2, \<open>libcgroups/src/v2/manager.rs\<close> and \<open>v2/util.rs\<close>: creating the cgroup and moving a
  process into it, applying the resources with all controllers, removing, freezing, statistics. The
  controllers come from \<open>Cgroup_V2_Controllers\<close> and \<open>Device_Controller\<close>.
\<close>

section \<open>Resources and errors\<close>

record linux_resources =
  res_devices :: "device_rule list option"
  res_memory :: "linux_memory option"
  res_cpu :: "linux_cpu option"
  res_pids :: "int option"
  res_block_io :: "linux_block_io option"
  res_hugepage_limits :: "linux_hugepage_limit list option"
  res_unified :: "(string \<times> string) list option"

record controller_opt =
  resources :: linux_resources
  disable_oom_killer :: bool
  oom_score_adj :: "int option"
  freezer_state_opt :: "freezer_state option"

datatype v2_util_error = UtilIo wrapped_io_error | DoesNotExist path

datatype v2_manager_error =
    MgrIo wrapped_io_error
  | MgrJoinSafely join_safely_error
  | MgrUtil v2_util_error
  | CpuController v2_cpu_error
  | CpuSetController wrapped_io_error
  | HugeTlbController v2_hugetlb_error
  | IoController v2_io_error
  | MemoryController v2_memory_error
  | PidsController wrapped_io_error
  | UnifiedController v2_unified_error
  | FreezerController v2_freezer_error
  | DevicesController devices_error
  | CpuStats v2_cpu_stats_error
  | HugeTlbStats v2_hugetlb_stats_error
  | PidsStats pid_stats_error
  | MemoryStats v2_memory_stats_error
  | IoStats v2_io_stats_error

text \<open>
  What the manager calls besides the file system: \<open>fs::metadata\<close>, the calls of the device controller with
  the constants of the kernel interface and the defaults of the OCI types, the floating point
  conversion of CPU shares.
\<close>

record 'w manager_env = "'w v2_env" +
  path_metadata :: "path \<Rightarrow> 'w \<Rightarrow> (os_error, unit) outcome"
  bpf_of :: "'w bpf_env"
  devcg_of :: devcg_consts
  default_device_type :: device_type
  device_to_rule :: "linux_device \<Rightarrow> device_rule"
  shares_fit :: "nat \<Rightarrow> nat"

section \<open>Available controllers\<close>

definition controller_of_name :: "string \<Rightarrow> controller_type option" where
  "controller_of_name name =
     (if name = ''cpu'' then Some Cpu
      else if name = ''cpuset'' then Some CpuSet
      else if name = ''hugetlb'' then Some HugeTlb
      else if name = ''io'' then Some Io
      else if name = ''memory'' then Some Memory
      else if name = ''pids'' then Some Pids
      else None)"

definition get_available_controllers :: "('w, 'z) fs_env_scheme \<Rightarrow> path \<Rightarrow> 'w \<Rightarrow> (v2_util_error, controller_type list) outcome" where
  "get_available_controllers env root_path w =
     (let controllers_path = in_dir root_path ''cgroup.controllers'' in
      if \<not> path_exists env controllers_path w then Err (DoesNotExist controllers_path)
      else bind_outcome (map_err UtilIo (read_cgroup_file env controllers_path w)) (\<lambda>content.
           Ok (List.map_filter controller_of_name (split_whitespace content))))"

section \<open>The manager\<close>

record v2_manager =
  root_path :: path
  cgroup_path :: path
  full_path :: path
  rootless :: bool

definition v2_manager_new :: "path \<Rightarrow> path \<Rightarrow> (v2_manager_error, v2_manager) outcome" where
  "v2_manager_new root cgroup =
     (let cgroup = clean_cgroup_path cgroup in
      bind_outcome (map_err MgrJoinSafely (cg_join_safely root cgroup)) (\<lambda>full.
      Ok \<lparr>root_path = root, cgroup_path = cgroup, full_path = full, rootless = False\<rparr>))"

definition with_rootless :: "bool \<Rightarrow> v2_manager \<Rightarrow> v2_manager" where
  "with_rootless b m = m\<lparr>rootless := b\<rparr>"

text \<open>EROFS and EACCES.\<close>

definition is_permission_error :: "wrapped_io_error \<Rightarrow> bool" where
  "is_permission_error e \<longleftrightarrow> raw_os_error (inner_error e) \<in> {Some 30, Some 13}"

text \<open>Every controller is tried; the errors are ignored.\<close>

fun enable_controllers :: "('w, 'z) fs_env_scheme \<Rightarrow> path \<Rightarrow> string list \<Rightarrow> ('w, v2_manager_error, unit) st" where
  "enable_controllers env p [] w = (Ok (), w)"
| "enable_controllers env p (c # cs) w =
     (case write_cgroup_file env (in_dir p ''cgroup.subtree_control'') c w of
        (Panic, w) \<Rightarrow> (Panic, w)
      | (Diverge, w) \<Rightarrow> (Diverge, w)
      | (_, w) \<Rightarrow> enable_controllers env p cs w)"

definition show_pid :: "i32 \<Rightarrow> string" where
  "show_pid pid = int_to_string (sint pid)"

definition attach_pid :: "('w, 'z) fs_env_scheme \<Rightarrow> v2_manager \<Rightarrow> i32 \<Rightarrow> ('w, v2_manager_error, unit) st" where
  "attach_pid env m pid w =
     (case write_cgroup_file env (in_dir (full_path m) CGROUP_PROCS) (show_pid pid) w of
        (Ok _, w) \<Rightarrow> (Ok (), w)
      | (Err e, w) \<Rightarrow> if rootless m \<and> is_permission_error e then (Ok (), w) else (Err (MgrIo e), w)
      | (Panic, w) \<Rightarrow> (Panic, w)
      | (Diverge, w) \<Rightarrow> (Diverge, w))"

text \<open>
  The loop of \<open>create_unified_cgroup\<close> over the remaining components. The result tells whether the loop ran to
  its end, \<open>False\<close> being the early return in a rootless environment. The mode set on the metadata
  changes a copy of the permissions and has no effect on the directory.
\<close>

fun create_components :: "('w, 'z) manager_env_scheme \<Rightarrow> bool \<Rightarrow> string list \<Rightarrow> path \<Rightarrow> path \<Rightarrow> ('w, v2_manager_error, bool) st" where
  "create_components env rl cs current [] w = (Ok True, w)"
| "create_components env rl cs current (c # rest) w =
     (let current = path_join current [c];
          continue = (\<lambda>w. st_bind (if rest \<noteq> [] then enable_controllers env current cs else st_return ())
                            (\<lambda>_. create_components env rl cs current rest) w)
      in case create_dir env current w of
           (Ok _, w) \<Rightarrow>
             (case path_metadata env current w of
                Ok _ \<Rightarrow> continue w
              | Err e \<Rightarrow> (Err (MgrIo (WOther e current)), w)
              | Panic \<Rightarrow> (Panic, w) | Diverge \<Rightarrow> (Diverge, w))
         | (Err e, w) \<Rightarrow>
             if is_already_exists e then continue w
             else if rl \<and> is_permission_error (WCreateDir e current) then (Ok False, w)
             else (Err (MgrIo (WCreateDir e current)), w)
         | (Panic, w) \<Rightarrow> (Panic, w)
         | (Diverge, w) \<Rightarrow> (Diverge, w))"

definition create_unified_cgroup :: "('w, 'z) manager_env_scheme \<Rightarrow> v2_manager \<Rightarrow> i32 \<Rightarrow> ('w, v2_manager_error, unit) st" where
  "create_unified_cgroup env m pid =
     st_bind (\<lambda>w. (map_err MgrUtil (get_available_controllers env (root_path m) w), w)) (\<lambda>available.
     (let controllers = map (\<lambda>c. ''+'' @ show_controller_type c) available in
      st_bind (enable_controllers env (root_path m) controllers) (\<lambda>_.
      st_bind (create_components env (rootless m) controllers (root_path m) (filter (\<lambda>c. c \<noteq> RootDir) (cgroup_path m))) (\<lambda>complete.
      if complete then attach_pid env m pid else st_return ()))))"

definition v2_add_task :: "('w, 'z) manager_env_scheme \<Rightarrow> v2_manager \<Rightarrow> i32 \<Rightarrow> ('w, v2_manager_error, unit) st" where
  "v2_add_task env m pid w =
     (if path_exists env (full_path m) w then attach_pid env m pid w else create_unified_cgroup env m pid w)"

section \<open>Applying resources\<close>

definition CONTROLLER_TYPES :: "controller_type list" where
  "CONTROLLER_TYPES = [Cpu, CpuSet, HugeTlb, Io, Memory, Pids]"

definition if_some :: "('a \<Rightarrow> ('w, 'e, unit) st) \<Rightarrow> 'a option \<Rightarrow> ('w, 'e, unit) st" where
  "if_some f v = (case v of Some x \<Rightarrow> f x | None \<Rightarrow> st_return ())"

primrec v2_controller_apply :: "('w, 'z) manager_env_scheme \<Rightarrow> linux_resources \<Rightarrow> path \<Rightarrow> controller_type \<Rightarrow> ('w, v2_manager_error, unit) st" where
  "v2_controller_apply env res p Cpu = st_map_err CpuController (if_some (v2_cpu_apply env (shares_fit env) p) (res_cpu res))"
| "v2_controller_apply env res p CpuSet = st_map_err CpuSetController (if_some (v2_cpuset_apply env p) (res_cpu res))"
| "v2_controller_apply env res p HugeTlb = st_map_err HugeTlbController (if_some (st_for (v2_hugetlb_apply env p)) (res_hugepage_limits res))"
| "v2_controller_apply env res p Io = st_map_err IoController (if_some (v2_io_apply env p) (res_block_io res))"
| "v2_controller_apply env res p Memory = st_map_err MemoryController (if_some (v2_memory_apply env p) (res_memory res))"
| "v2_controller_apply env res p Pids = st_map_err PidsController (if_some (v2_pids_apply env p) (res_pids res))"

definition v2_devices_apply :: "('w, 'z) manager_env_scheme \<Rightarrow> linux_resources \<Rightarrow> path \<Rightarrow> ('w, v2_manager_error, unit) st" where
  "v2_devices_apply env res p =
     st_map_err DevicesController
       (apply_devices (bpf_of env) (devcg_of env) (default_device_type env) (device_to_rule env) (show_path p) (res_devices res))"

definition v2_apply :: "('w, 'z) manager_env_scheme \<Rightarrow> v2_manager \<Rightarrow> controller_opt \<Rightarrow> ('w, v2_manager_error, unit) st" where
  "v2_apply env m opt =
     st_bind (st_for (v2_controller_apply env (resources opt) (full_path m)) CONTROLLER_TYPES) (\<lambda>_.
     st_bind (v2_devices_apply env (resources opt) (full_path m)) (\<lambda>_.
     st_bind (\<lambda>w. (map_err MgrUtil (get_available_controllers env (root_path m) w), w)) (\<lambda>controllers.
     st_map_err UnifiedController
       (if_some (\<lambda>unified. v2_unified_apply env unified (full_path m) controllers) (res_unified (resources opt))))))"

section \<open>Removing, freezing, statistics\<close>

fun kill_procs :: "('w, 'z) fs_env_scheme \<Rightarrow> path \<Rightarrow> string list \<Rightarrow> ('w, v2_manager_error, unit) st" where
  "kill_procs env p [] w = (Ok (), w)"
| "kill_procs env p (l # ls) w =
     (case parse_i32 l of
        Ok pid \<Rightarrow> kill_procs env p ls (send_sigkill env (word_of_int pid) w)
      | Err _ \<Rightarrow> (Err (MgrIo (WOther InvalidData p)), w)
      | Panic \<Rightarrow> (Panic, w) | Diverge \<Rightarrow> (Diverge, w))"

definition v2_kill_all :: "('w, 'z) fs_env_scheme \<Rightarrow> path \<Rightarrow> ('w, v2_manager_error, unit) st" where
  "v2_kill_all env p w =
     (let kill_file = in_dir p ''cgroup.kill''; procs_path = in_dir p CGROUP_PROCS in
      if path_exists env kill_file w
      then st_map_err (\<lambda>e. MgrIo (WWrite e kill_file ''1'')) (fs_write env kill_file ''1'') w
      else st_bind (\<lambda>w. (map_err (\<lambda>e. MgrIo (WRead e procs_path)) (read_to_string env procs_path w), w))
             (\<lambda>procs. kill_procs env procs_path (str_lines procs)) w)"

definition v2_remove :: "('w, 'z) fs_env_scheme \<Rightarrow> v2_manager \<Rightarrow> ('w, v2_manager_error, unit) st" where
  "v2_remove env m w =
     (if path_exists env (full_path m) w
      then st_bind (v2_kill_all env (full_path m)) (\<lambda>_. st_map_err MgrIo (delete_with_retry env (full_path m) 4 (Some 100))) w
      else (Ok (), w))"

definition v2_freeze :: "('w, 'z) v2_env_scheme \<Rightarrow> v2_manager \<Rightarrow> freezer_state \<Rightarrow> ('w, v2_manager_error, unit) st" where
  "v2_freeze env m state = st_map_err FreezerController (v2_freezer_apply env state (full_path m))"

record 'f stats =
  stats_cpu :: "'f cpu_stats"
  stats_pids :: pid_stats
  stats_hugetlb :: "string \<rightharpoonup> hugetlb_stats"
  stats_blkio :: "'f blkio_stats"
  stats_memory :: "'f memory_stats"

definition v2_stats :: "(string \<Rightarrow> 'f option) \<Rightarrow> 'f \<Rightarrow> ((string \<times> string list) list \<Rightarrow> (string \<times> string list) list) \<Rightarrow>
    ('w, 'z) fs_env_scheme \<Rightarrow> v2_manager \<Rightarrow> 'w \<Rightarrow> (v2_manager_error, 'f stats) outcome" where
  "v2_stats parse_f64 zero iter env m w =
     (let p = full_path m in
      bind_outcome (map_err CpuStats (v2_cpu_stats parse_f64 zero env p w)) (\<lambda>cpu.
      bind_outcome (map_err HugeTlbStats (v2_hugetlb_stats env p w)) (\<lambda>hugetlb.
      bind_outcome (map_err IoStats (v2_io_stats parse_f64 zero iter env p w)) (\<lambda>blkio.
      bind_outcome (map_err MemoryStats (v2_memory_stats parse_f64 zero env p w)) (\<lambda>memory.
      bind_outcome (map_err PidsStats (read_pid_stats env p w)) (\<lambda>pids.
      Ok \<lparr>stats_cpu = cpu, stats_pids = pids, stats_hugetlb = hugetlb, stats_blkio = blkio, stats_memory = memory\<rparr>))))))"

definition v2_get_all_pids :: "nat \<Rightarrow> ('w, 'z) fs_env_scheme \<Rightarrow> v2_manager \<Rightarrow> 'w \<Rightarrow> (v2_manager_error, i32 list) outcome" where
  "v2_get_all_pids fuel env m w = map_err MgrIo (walk_dir fuel env (full_path m) w)"

section \<open>Applying resources stays inside the cgroup\<close>

text \<open>All data written since the log was \<open>L\<close> went to files directly in the directory \<open>p\<close>.\<close>

definition written_in :: "path \<Rightarrow> (path \<times> string) list \<Rightarrow> (path \<times> string) list \<Rightarrow> bool" where
  "written_in p L l \<longleftrightarrow> (\<exists>ls. l = L @ ls \<and> (\<forall>(q, d) \<in> set ls. \<exists>name. q = p @ [Normal name]))"

lemma written_in_refl: "written_in p L L"
  by (simp add: written_in_def)

lemma written_in_snoc: "written_in p L l \<Longrightarrow> written_in p L (l @ [(p @ [Normal name], d)])"
  by (auto simp: written_in_def)

lemma in_dir_append: "in_dir p name = p @ [Normal name]"
  by (simp add: path_join_normal)

lemma st_keeps_peek: "st_keeps I (\<lambda>w. (g w, w))"
  by (simp add: st_keeps_def)

lemma st_keeps_cond: "st_keeps I m \<Longrightarrow> st_keeps I m' \<Longrightarrow> st_keeps I (\<lambda>w. if b w then m w else m' w)"
  by (simp add: st_keeps_def)

lemma st_keeps_option: "st_keeps I n \<Longrightarrow> (\<And>x. v = Some x \<Longrightarrow> st_keeps I (f x)) \<Longrightarrow> st_keeps I (case v of None \<Rightarrow> n | Some x \<Rightarrow> f x)"
  by (cases v) auto

lemma st_keeps_if_some: "(\<And>x. v = Some x \<Longrightarrow> st_keeps I (f x)) \<Longrightarrow> st_keeps I (if_some f v)"
  by (cases v) (auto simp: if_some_def st_keeps_return)

lemma write_cgroup_file_in:
  assumes "write_log env log"
  shows "st_keeps (\<lambda>w. written_in p L (log w)) (write_cgroup_file env (p @ [Normal name]) d)"
proof -
  have "written_in p L (log w')" if "written_in p L (log w)" "write_cgroup_file env (p @ [Normal name]) d w = (r, w')" for w r w'
    using write_cgroup_file_log [OF assms that(2)] that(1) by (auto intro: written_in_snoc)
  then show ?thesis
    unfolding st_keeps_def by (metis prod.collapse)
qed

lemma write_log_steps:
  assumes "write_log env log"
  shows "st_keeps (\<lambda>w. written_in p L (log w)) (open_write env q)"
    and "st_keeps (\<lambda>w. written_in p L (log w)) (write_all env (p @ [Normal name]) d)"
  using assms by (auto simp: write_log_def st_keeps_def written_in_snoc)

lemmas written_intros = st_keeps_intros st_keeps_peek st_keeps_cond st_keeps_option st_keeps_if_some write_cgroup_file_in write_log_steps

lemma write_opt_in: "write_log env log \<Longrightarrow> st_keeps (\<lambda>w. written_in p L (log w)) (write_opt env (in_dir p name) v)"
  unfolding write_opt_def in_dir_append by (intro written_intros)

lemma cpu_apply_in: "write_log env log \<Longrightarrow> st_keeps (\<lambda>w. written_in p L (log w)) (v2_cpu_apply env fit p cpu)"
  unfolding v2_cpu_apply_def Let_def by (intro written_intros write_opt_in) (simp_all add: in_dir_append write_cgroup_file_in)

lemma cpuset_apply_in: "write_log env log \<Longrightarrow> st_keeps (\<lambda>w. written_in p L (log w)) (v2_cpuset_apply env p cpu)"
  unfolding v2_cpuset_apply_def by (intro written_intros write_opt_in)

lemma pids_apply_in: "write_log env log \<Longrightarrow> st_keeps (\<lambda>w. written_in p L (log w)) (v2_pids_apply env p limit)"
  unfolding v2_pids_apply_def in_dir_append by (intro written_intros)

lemma memory_set_in: "write_log env log \<Longrightarrow> st_keeps (\<lambda>w. written_in p L (log w)) (memory_set env (in_dir p name) v)"
  unfolding memory_set_def in_dir_append by (intro written_intros)

lemma set_swap_in:
  assumes "write_log env log"
  shows "st_keeps (\<lambda>w. written_in p L (log w)) (set_swap env p v)"
proof -
  have "\<exists>d r. write_cgroup_file env (p @ [Normal ''memory.swap.max'']) d w = (r, snd (set_swap env p v w))" for w
    by (auto simp: set_swap_def Let_def in_dir_append split: prod.splits outcome.splits)
  then show ?thesis
    using write_cgroup_file_in [OF assms, of p L "''memory.swap.max''"] unfolding st_keeps_def by (metis snd_conv)
qed

lemma memory_apply_in: "write_log env log \<Longrightarrow> st_keeps (\<lambda>w. written_in p L (log w)) (v2_memory_apply env p mem)"
  unfolding v2_memory_apply_def memory_limits_def Let_def by (intro written_intros memory_set_in set_swap_in)

lemma hugetlb_file_name:
  assumes "CHR ''/'' \<notin> set size_name" and "CHR ''/'' \<notin> set suff"
  shows "hugetlb_file p size_name suff = p @ [Normal (''hugetlb.'' @ size_name @ suff)]"
proof -
  have "wf_name (''hugetlb.'' @ size_name @ suff)"
    using assms by (simp add: wf_name_def)
  then show ?thesis
    by (simp add: hugetlb_file_def parse_path_name path_join_normal)
qed

lemma hugetlb_apply_in:
  assumes "write_log env log" and "CHR ''/'' \<notin> set (page_size h)"
  shows "st_keeps (\<lambda>w. written_in p L (log w)) (v2_hugetlb_apply env p h)"
  unfolding v2_hugetlb_apply_def Let_def
  by (intro written_intros) (simp_all add: hugetlb_file_name assms written_intros)

lemma write_io_weight_in: "write_log env log \<Longrightarrow> st_keeps (\<lambda>w. written_in p L (log w)) (write_io_weight env p weight)"
  unfolding write_io_weight_def Let_def in_dir_append by (intro written_intros)

lemma write_throttle_in: "write_log env log \<Longrightarrow> st_keeps (\<lambda>w. written_in p L (log w)) (write_throttle env p key devices)"
  unfolding write_throttle_def in_dir_append by (intro written_intros)

lemma write_weight_device_in: "write_log env log \<Longrightarrow> st_keeps (\<lambda>w. written_in p L (log w)) (write_weight_device env p wd)"
  unfolding write_weight_device_def in_dir_append by (intro written_intros)

lemma io_apply_in: "write_log env log \<Longrightarrow> st_keeps (\<lambda>w. written_in p L (log w)) (v2_io_apply env p blkio)"
  unfolding v2_io_apply_def by (intro written_intros write_io_weight_in write_throttle_in write_weight_device_in)

lemma unified_entry_in: "write_log env log \<Longrightarrow> st_keeps (\<lambda>w. written_in p L (log w)) (unified_entry env p cs e)"
  by (cases e) (simp only: unified_entry_eq write_cgroup_file_by_line_def write_by_line_def in_dir_append, intro written_intros)

lemma unified_apply_in: "write_log env log \<Longrightarrow> st_keeps (\<lambda>w. written_in p L (log w)) (v2_unified_apply env unified p cs)"
  unfolding v2_unified_apply_def by (intro written_intros unified_entry_in)

text \<open>The system calls for the device program write no cgroup file.\<close>

definition bpf_quiet :: "'w bpf_env \<Rightarrow> ('w \<Rightarrow> (path \<times> string) list) \<Rightarrow> bool" where
  "bpf_quiet env log \<longleftrightarrow>
     (\<forall>a b w. log (snd (sys_setrlimit_memlock env a b w)) = log w) \<and>
     (\<forall>l p w. log (snd (bpf_prog_load env l p w)) = log w) \<and>
     (\<forall>p w. log (snd (open_dir env p w)) = log w) \<and>
     (\<forall>fd ids w. log (snd (bpf_prog_query env fd ids w)) = log w) \<and>
     (\<forall>i w. log (snd (bpf_prog_get_fd_by_id env i w)) = log w) \<and>
     (\<forall>f g w. log (snd (bpf_prog_attach env f g w)) = log w) \<and>
     (\<forall>f g w. log (snd (bpf_prog_detach2 env f g w)) = log w)"

lemma bpf_quietD:
  assumes "bpf_quiet env log"
  shows "sys_setrlimit_memlock env a b w = (r, w') \<Longrightarrow> log w' = log w"
    and "bpf_prog_load env l p w = (r, w') \<Longrightarrow> log w' = log w"
    and "open_dir env q w = (s, w') \<Longrightarrow> log w' = log w"
    and "bpf_prog_query env fd ids w = (t, w') \<Longrightarrow> log w' = log w"
    and "bpf_prog_get_fd_by_id env i w = (r, w') \<Longrightarrow> log w' = log w"
    and "bpf_prog_attach env f g w = (r, w') \<Longrightarrow> log w' = log w"
    and "bpf_prog_detach2 env f g w = (r, w') \<Longrightarrow> log w' = log w"
  using assms unfolding bpf_quiet_def by (metis snd_conv)+

lemma query_loop_quiet: "bpf_quiet env log \<Longrightarrow> st_keeps (\<lambda>w. I (log w)) (query_loop env fd n ids)"
proof (induction n arbitrary: ids)
  case (Suc n)
  then show ?case
    by (auto simp: st_keeps_def Let_def bpf_quietD(4) split: prod.splits)
qed (simp add: st_keeps_def)

lemma collect_fds_quiet:
  assumes "bpf_quiet env log" shows "st_keeps (\<lambda>w. I (log w)) (collect_fds env ids)"
proof (induction ids)
  case (Cons i ids)
  have "st_keeps (\<lambda>w. I (log w)) (st_bind (collect_fds env ids) (\<lambda>rest. st_return (x # rest)))" for x
    by (intro st_keeps_intros Cons)
  then show ?case
    using Cons bpf_quietD(5) [OF assms] by (auto simp: st_keeps_def split: prod.splits)
qed (simp add: st_keeps_def)

lemma devices_apply_quiet:
  assumes "bpf_quiet env log"
  shows "st_keeps (\<lambda>w. I (log w)) (apply_devices env k dflt to_rule root devs)"
proof -
  note d = bpf_quietD [OF assms]
  have "st_keeps (\<lambda>w. I (log w)) (bump_memlock_rlimit env)" "st_keeps (\<lambda>w. I (log w)) (bpf_load env l prog)"
    "st_keeps (\<lambda>w. I (log w)) (open_cgroup_dir env root)" "st_keeps (\<lambda>w. I (log w)) (bpf_attach env f g)"
    "st_keeps (\<lambda>w. I (log w)) (bpf_detach2 env f g)" for l prog f g
    by (auto simp: st_keeps_def bump_memlock_rlimit_def bpf_load_def open_cgroup_dir_def bpf_attach_def bpf_detach2_def d
        split: prod.splits sum.splits)
  then show ?thesis
    unfolding apply_devices_def bpf_query_def Let_def
    by (intro st_keeps_intros query_loop_quiet [OF assms] collect_fds_quiet [OF assms])
qed

lemma controller_apply_in:
  assumes "write_log env log" and "\<And>hs h. res_hugepage_limits res = Some hs \<Longrightarrow> h \<in> set hs \<Longrightarrow> CHR ''/'' \<notin> set (page_size h)"
  shows "st_keeps (\<lambda>w. written_in p L (log w)) (v2_controller_apply env res p c)"
  using assms(2)
  by (cases c) (auto intro!: st_keeps_map_err st_keeps_if_some st_keeps_for cpu_apply_in cpuset_apply_in hugetlb_apply_in io_apply_in
      memory_apply_in pids_apply_in assms(1))

text \<open>
  C4. Applying resources never writes outside the cgroup of the container: whatever the resources are,
  and whether \<open>apply\<close> succeeds or fails, every file that it writes lies directly in the directory of the
  cgroup. Page sizes must be plain names, as the kernel's are; the other parts of the resources,
  the names of the unified entries included, can be anything.
\<close>

theorem apply_writes_inside_cgroup:
  assumes "write_log env log" and "bpf_quiet (bpf_of env) log"
    and "\<And>hs h. res_hugepage_limits (resources opt) = Some hs \<Longrightarrow> h \<in> set hs \<Longrightarrow> CHR ''/'' \<notin> set (page_size h)"
    and "v2_apply env m opt w = (r, w')"
  shows "\<exists>ls. log w' = log w @ ls \<and> (\<forall>(q, d) \<in> set ls. \<exists>name. q = full_path m @ [Normal name])"
proof -
  let ?I = "\<lambda>w'. written_in (full_path m) (log w) (log w')"
  have "st_keeps ?I (v2_apply env m opt)"
    unfolding v2_apply_def v2_devices_apply_def
    by (intro written_intros controller_apply_in unified_apply_in assms devices_apply_quiet [where I = "written_in (full_path m) (log w)"])
  then have "?I w'"
    using assms(4) written_in_refl unfolding st_keeps_def by (metis snd_conv)
  then show ?thesis
    by (simp add: written_in_def)
qed

section \<open>Moving a process into the cgroup\<close>

text \<open>
  What the file system promises about directories: creating one writes no file; a path exists after it
  has been created, or when it could not be created because it exists; paths do not vanish.
\<close>

definition dir_law :: "('w, 'z) fs_env_scheme \<Rightarrow> ('w \<Rightarrow> path set) \<Rightarrow> ('w \<Rightarrow> (path \<times> string) list) \<Rightarrow> bool" where
  "dir_law env paths log \<longleftrightarrow>
     (\<forall>p w r w'. create_dir env p w = (r, w') \<longrightarrow>
        log w' = log w \<and> paths w \<subseteq> paths w' \<and> (r = Ok () \<or> r = Err (Os 17) \<longrightarrow> p \<in> paths w')) \<and>
     (\<forall>p w. paths w \<subseteq> paths (snd (open_write env p w))) \<and>
     (\<forall>p d w. paths w \<subseteq> paths (snd (write_all env p d w)))"

lemma dir_lawD:
  assumes "dir_law env paths log" and "create_dir env p w = (r, w')"
  shows "log w' = log w" "paths w \<subseteq> paths w'" "r = Ok () \<Longrightarrow> p \<in> paths w'" "r = Err (Os 17) \<Longrightarrow> p \<in> paths w'"
  using assms unfolding dir_law_def by blast+

lemma dir_law_keeps: "dir_law env paths log \<Longrightarrow> st_keeps (\<lambda>w. A \<subseteq> paths w) (write_cgroup_file env p d)"
  unfolding write_cgroup_file_def by (intro st_keeps_intros) (fastforce simp: dir_law_def st_keeps_def)+

definition enabled_in :: "path set \<Rightarrow> (path \<times> string) list \<Rightarrow> bool" where
  "enabled_in ps ls \<longleftrightarrow> (\<forall>(q, d) \<in> set ls. \<exists>p \<in> ps. q = in_dir p ''cgroup.subtree_control'')"

lemma enable_controllers_post:
  assumes "write_log env log" "dir_law env paths log" "enable_controllers env p cs w = (r, w')"
  shows "paths w \<subseteq> paths w' \<and> (\<exists>ls. log w' = log w @ ls \<and> enabled_in {p} ls)"
  using assms(3)
proof (induction cs arbitrary: w)
  case (Cons c cs)
  obtain r1 w1 where 1: "write_cgroup_file env (in_dir p ''cgroup.subtree_control'') c w = (r1, w1)"
    by (cases "write_cgroup_file env (in_dir p ''cgroup.subtree_control'') c w")
  have p1: "paths w \<subseteq> paths w1"
    using dir_law_keeps [OF assms(2), of "paths w" "in_dir p ''cgroup.subtree_control''" c] 1 unfolding st_keeps_def by (metis order_refl snd_conv)
  obtain l1 where l1: "log w1 = log w @ l1" "enabled_in {p} l1"
    using write_cgroup_file_log [OF assms(1) 1] by (auto simp: enabled_in_def split: if_splits)
  have "paths w1 \<subseteq> paths w' \<and> (\<exists>ls. log w' = log w1 @ ls \<and> enabled_in {p} ls)"
    using Cons 1 by (cases r1) (auto simp: enabled_in_def)
  then show ?case
    using p1 l1 by (fastforce simp: enabled_in_def)
qed (auto simp: enabled_in_def)

definition ancestors :: "path \<Rightarrow> path \<Rightarrow> path set" where
  "ancestors base rest = {base @ take i rest |i. i < length rest}"

lemma ancestors_Cons: "ancestors (base @ [c]) rest \<union> (if rest = [] then {} else {base @ [c]}) \<subseteq> ancestors base (c # rest)"
proof -
  have "base @ [c] @ take i rest \<in> ancestors base (c # rest)" if "i < length rest" for i
    using that unfolding ancestors_def by (auto intro!: exI [of _ "Suc i"])
  moreover have "base @ [c] \<in> ancestors base (c # rest)" if "rest \<noteq> []"
    using that unfolding ancestors_def by (auto intro!: exI [of _ "Suc 0"])
  ultimately show ?thesis
    by (auto simp: ancestors_def [of "base @ [c]"])
qed

lemma take_Cons_cases: "(\<forall>i \<in> {0<..length (c # cs)}. P (take i (c # cs))) \<longleftrightarrow> P [c] \<and> (\<forall>i \<in> {0<..length cs}. P (c # take i cs))"
proof -
  have "{0<..length (c # cs)} = insert 1 (Suc ` {0<..length cs})"
    by (auto simp: image_iff gr0_conv_Suc) force
  then show ?thesis
    by simp
qed

lemma create_components_post:
  assumes wl: "write_log env log" and dl: "dir_law env paths log"
    and "create_components env False cs current rest w = (Ok b, w')" and "list_all is_normal rest"
  shows "b \<and> paths w \<subseteq> paths w' \<and> (\<forall>i \<in> {0<..length rest}. current @ take i rest \<in> paths w') \<and>
    (\<exists>ls. log w' = log w @ ls \<and> enabled_in (ancestors current rest) ls)"
  using assms(3,4)
proof (induction rest arbitrary: current w)
  case (Cons c rest)
  let ?cur = "current @ [c]"
  have cur: "path_join current [c] = ?cur"
    using Cons.prems(2) by (simp add: path_join_normal)
  obtain r1 w1 where 1: "create_dir env ?cur w = (r1, w1)"
    by (cases "create_dir env ?cur w")
  have ok: "r1 = Ok () \<or> r1 = Err (Os 17)"
    and cont: "st_bind (if rest \<noteq> [] then enable_controllers env ?cur cs else st_return ())
      (\<lambda>_. create_components env False cs ?cur rest) w1 = (Ok b, w')"
    using Cons.prems(1) 1 cur
    by (auto simp: Let_def is_already_exists_def split: outcome.splits if_splits)
  note d1 = dir_lawD [OF dl 1]
  obtain w2 where en: "(if rest \<noteq> [] then enable_controllers env ?cur cs else st_return ()) w1 = (Ok (), w2)"
    and re: "create_components env False cs ?cur rest w2 = (Ok b, w')"
    using cont by (auto simp: st_bind_eq_Ok)
  have "paths w1 \<subseteq> paths w2 \<and> (\<exists>ls. log w2 = log w1 @ ls \<and> enabled_in (if rest = [] then {} else {?cur}) ls)"
    using en enable_controllers_post [OF wl dl] by (cases "rest = []") (auto simp: st_return_eq enabled_in_def)
  then obtain l2 where l2: "paths w1 \<subseteq> paths w2" "log w2 = log w1 @ l2" "enabled_in (if rest = [] then {} else {?cur}) l2"
    by blast
  from Cons.IH [OF re] Cons.prems(2) obtain l3 where b and p3: "paths w2 \<subseteq> paths w'"
    and all: "\<forall>i \<in> {0<..length rest}. ?cur @ take i rest \<in> paths w'"
    and l3: "log w' = log w2 @ l3" "enabled_in (ancestors ?cur rest) l3"
    by auto
  have "enabled_in (ancestors current (c # rest)) (l2 @ l3)"
    using l2(3) l3(2) ancestors_Cons [of current c rest] unfolding enabled_in_def by fastforce
  moreover have "?cur \<in> paths w'"
    using d1 ok l2(1) p3 by blast
  moreover have "\<forall>i \<in> {0<..length (c # rest)}. current @ take i (c # rest) \<in> paths w'"
    using all \<open>?cur \<in> paths w'\<close> unfolding take_Cons_cases [where P = "\<lambda>q. current @ q \<in> paths w'"] by simp
  ultimately show ?case
    using \<open>b\<close> d1(1,2) l2(1,2) l3(1) p3 by auto
qed (auto simp: enabled_in_def)

lemma attach_pid_log:
  assumes "write_log env log" "attach_pid env m pid w = (Ok (), w')" "\<not> rootless m"
  shows "log w' = log w @ [(in_dir (full_path m) CGROUP_PROCS, show_pid pid)]"
proof -
  obtain r where r: "write_cgroup_file env (in_dir (full_path m) CGROUP_PROCS) (show_pid pid) w = (r, w')" and "r = Ok ()"
    using assms(2,3) by (auto simp: attach_pid_def split: prod.splits outcome.splits)
  then show ?thesis
    using write_cgroup_file_log [OF assms(1) r] by simp
qed

lemma attach_pid_paths:
  assumes "dir_law env paths log" "attach_pid env m pid w = (r, w')"
  shows "paths w \<subseteq> paths w'"
proof -
  obtain r1 where r: "write_cgroup_file env (in_dir (full_path m) CGROUP_PROCS) (show_pid pid) w = (r1, w')"
    using assms(2) by (auto simp: attach_pid_def split: prod.splits outcome.splits if_splits)
  then show ?thesis
    using dir_law_keeps [OF assms(1), of "paths w" "in_dir (full_path m) CGROUP_PROCS" "show_pid pid"] unfolding st_keeps_def by (metis order_refl snd_conv)
qed

lemma resolve_normal: "resolve st (map Normal ns) = rev st @ ns"
  by (induction ns arbitrary: st) auto

lemma resolve_normalize:
  assumes "wf_path p" shows "resolve [] (path_normalize p) = resolve [] p"
  using assms resolve_normal [of "[]"] by (auto simp: normalize_wf)

lemma v2_manager_new_paths:
  assumes "wf_path p" and "v2_manager_new root p = Ok m"
  shows "root_path m = root" "full_path m = root @ map Normal (resolve [] p)" "\<not> rootless m"
    "filter (\<lambda>c. c \<noteq> RootDir) (cgroup_path m) = map Normal (resolve [] p)"
proof -
  have n: "list_all is_normal (map Normal (resolve [] p))"
    by (simp add: list_all_iff)
  have "cg_join_safely root (path_normalize p) = Ok (root @ map Normal (resolve [] p))"
    using normalize_wf [OF normalize_wf_path [OF assms(1)]] resolve_normalize [OF assms(1)] path_join_normal [OF n] normal_not_absolute [OF n]
    by (simp add: cg_join_safely_def clean_cgroup_path_normalize)
  with assms(2) show "root_path m = root" "full_path m = root @ map Normal (resolve [] p)" "\<not> rootless m"
    "filter (\<lambda>c. c \<noteq> RootDir) (cgroup_path m) = map Normal (resolve [] p)"
    using normalize_wf [OF assms(1)] by (auto simp: v2_manager_new_def clean_cgroup_path_normalize)
qed


section \<open>Removing the cgroup\<close>

text \<open>\<open>killed\<close> observes the processes that were sent \<open>SIGKILL\<close>, \<open>paths\<close> the paths that exist.\<close>

definition remove_law :: "('w, 'z) fs_env_scheme \<Rightarrow> ('w \<Rightarrow> path set) \<Rightarrow> ('w \<Rightarrow> i32 list) \<Rightarrow> bool" where
  "remove_law env paths killed \<longleftrightarrow>
     (\<forall>p w. path_exists env p w \<longleftrightarrow> p \<in> paths w) \<and>
     (\<forall>p w w'. remove_dir env p w = (Ok (), w') \<longrightarrow> p \<notin> paths w') \<and>
     (\<forall>p w. killed (snd (remove_dir env p w)) = killed w) \<and>
     (\<forall>d w. killed (sleep_ms env d w) = killed w) \<and>
     (\<forall>pid w. killed (send_sigkill env pid w) = killed w @ [pid])"

lemma delete_loop_removed:
  assumes "remove_law env paths killed" and "delete_loop env p limit n a d w = (Ok (), w')"
  shows "p \<notin> paths w' \<and> killed w' = killed w"
  using assms(2)
proof (induction n arbitrary: a d w)
  case (Suc n)
  obtain r w1 where r: "remove_dir env p w = (r, w1)"
    by (cases "remove_dir env p w")
  then have k: "killed w1 = killed w"
    using assms(1) unfolding remove_law_def by (metis snd_conv)
  show ?case
  proof (cases r)
    case (Ok x)
    then have "p \<notin> paths w1"
      using assms(1) r unfolding remove_law_def by simp
    then show ?thesis
      using Suc.prems r Ok k by simp
  next
    case (Err e)
    have "killed (sleep_ms env d w1) = killed w1"
      using assms(1) unfolding remove_law_def by simp
    then show ?thesis
      using Suc.prems r Err k Suc.IH by (fastforce simp: Let_def)
  qed (use Suc.prems r in auto)
qed simp

lemma kill_procs_killed:
  assumes "remove_law env paths killed" and "kill_procs env p ls w = (Ok (), w')"
  shows "\<exists>pids. parse_pids p ls = Ok pids \<and> killed w' = killed w @ pids"
  using assms(2)
proof (induction ls arbitrary: w)
  case (Cons l ls)
  then show ?case
    using assms(1) by (cases "parse_i32 l") (fastforce simp: remove_law_def)+
qed simp

text \<open>
  C25. When a cgroup is removed successfully it is gone. Before that its processes have been killed:
  through \<open>cgroup.kill\<close> where the kernel has it, otherwise by a \<open>SIGKILL\<close> to each process that its
  \<open>cgroup.procs\<close> lists, in that order.
\<close>

theorem remove_kills_and_removes:
  assumes "remove_law env paths killed" and "v2_remove env m w = (Ok (), w')"
  shows "full_path m \<notin> paths w' \<and>
    (full_path m \<in> paths w \<longrightarrow>
      (if in_dir (full_path m) ''cgroup.kill'' \<in> paths w
       then \<exists>w1. fs_write env (in_dir (full_path m) ''cgroup.kill'') ''1'' w = (Ok (), w1)
       else \<exists>procs pids. read_to_string env (in_dir (full_path m) CGROUP_PROCS) w = Ok procs \<and>
              parse_pids (in_dir (full_path m) CGROUP_PROCS) (str_lines procs) = Ok pids \<and> killed w' = killed w @ pids))"
proof (cases "full_path m \<in> paths w")
  case False
  then show ?thesis
    using assms by (simp add: v2_remove_def remove_law_def)
next
  case True
  have ex: "path_exists env p v \<longleftrightarrow> p \<in> paths v" for p v
    using assms(1) by (simp add: remove_law_def)
  obtain w1 where k: "v2_kill_all env (full_path m) w = (Ok (), w1)" and d: "delete_with_retry env (full_path m) 4 (Some 100) w1 = (Ok (), w')"
    using assms(2) True by (auto simp: v2_remove_def ex outcome_simps)
  then have gone: "full_path m \<notin> paths w'" "killed w' = killed w1"
    using delete_loop_removed [OF assms(1)] unfolding delete_with_retry_def by blast+
  show ?thesis
  proof (cases "in_dir (full_path m) ''cgroup.kill'' \<in> paths w")
    case True
    then show ?thesis
      using k gone by (auto simp: v2_kill_all_def Let_def ex outcome_simps)
  next
    case False
    then obtain procs where "read_to_string env (in_dir (full_path m) CGROUP_PROCS) w = Ok procs"
      and "kill_procs env (in_dir (full_path m) CGROUP_PROCS) (str_lines procs) w = (Ok (), w1)"
      using k by (auto simp: v2_kill_all_def Let_def ex outcome_simps map_err_eq)
    then show ?thesis
      using kill_procs_killed [OF assms(1)] gone False by auto
  qed
qed

section \<open>A concrete manager\<close>

definition no_bpf :: "demo_fs bpf_env" where
  "no_bpf =
     \<lparr>sys_setrlimit_memlock = (\<lambda>c m w. (0, w)), bpf_prog_load = (\<lambda>l p w. (3, w)), open_dir = (\<lambda>p w. (Inr 1, w)),
      bpf_prog_query = (\<lambda>fd ids w. ((0, ids, 0), w)), bpf_prog_get_fd_by_id = (\<lambda>i w. (- 1, w)), bpf_prog_attach = (\<lambda>fd c w. (0, w)),
      bpf_prog_detach2 = (\<lambda>fd c w. (0, w)), last_errno = (\<lambda>w. 1)\<rparr>"

definition demo_manager_env :: "demo_fs manager_env" where
  "demo_manager_env = v2_env.extend demo_v2_env
     \<lparr>path_metadata = (\<lambda>p w. Ok ()), bpf_of = no_bpf, devcg_of = linux_devcg, default_device_type = DevA, device_to_rule = demo_rule,
      shares_fit = (\<lambda>n. n)\<rparr>"

lemmas demo_manager_defs = demo_manager_env_def demo_v2_env_def demo_fs_env_def v2_env.defs

lemma demo_manager_env_simps [simp]:
  "path_exists demo_manager_env = path_exists demo_fs_env" "open_write demo_manager_env = open_write demo_fs_env"
  "write_all demo_manager_env = write_all demo_fs_env" "read_to_string demo_manager_env = read_to_string demo_fs_env"
  "create_dir demo_manager_env = create_dir demo_fs_env" "remove_dir demo_manager_env = remove_dir demo_fs_env"
  "send_sigkill demo_manager_env = send_sigkill demo_fs_env" "path_metadata demo_manager_env = (\<lambda>p w. Ok ())"
  by (simp_all add: demo_manager_env_def demo_v2_env_def v2_env.defs)

definition demo_paths :: "demo_fs \<Rightarrow> path set" where
  "demo_paths w = {p. df_file w p \<noteq> None \<or> p \<in> set (df_dirs w)}"

lemma demo_manager_laws:
  "write_log demo_manager_env df_log" "dir_law demo_manager_env demo_paths df_log" "bpf_quiet (bpf_of demo_manager_env) df_log"
  "remove_law demo_manager_env demo_paths df_killed"
  by (auto simp: write_log_def dir_law_def bpf_quiet_def remove_law_def demo_paths_def no_bpf_def demo_manager_defs split: if_splits)

definition demo_v2_manager :: v2_manager where
  "demo_v2_manager =
     \<lparr>root_path = [RootDir], cgroup_path = [RootDir, Normal ''a'', Normal ''b''], full_path = [RootDir, Normal ''a'', Normal ''b''],
      rootless = False\<rparr>"

definition demo_cgroupfs :: demo_fs where
  "demo_cgroupfs = empty_fs\<lparr>df_file := [[RootDir, Normal ''cgroup.controllers''] \<mapsto> '''']\<rparr>"

theorem apply_writes_inside_cgroup_witness:
  "let opt = \<lparr>resources = \<lparr>res_devices = None, res_memory = None, res_cpu = None, res_pids = Some 5, res_block_io = None,
                res_hugepage_limits = Some [\<lparr>page_size = ''2MB'', huge_limit = 9\<rparr>], res_unified = Some [(''../x'', ''1'')]\<rparr>,
              disable_oom_killer = False, oom_score_adj = None, freezer_state_opt = None\<rparr>
   in \<exists>ls. df_log (snd (v2_apply demo_manager_env demo_v2_manager opt (demo_cgroup [''x'']))) = ls \<and>
        (\<forall>(q, d) \<in> set ls. \<exists>name. q = [RootDir, Normal ''a'', Normal ''b'', Normal name])"
proof -
  let ?opt = "\<lparr>resources = \<lparr>res_devices = None, res_memory = None, res_cpu = None, res_pids = Some 5, res_block_io = None,
                res_hugepage_limits = Some [\<lparr>page_size = ''2MB'', huge_limit = 9\<rparr>], res_unified = Some [(''../x'', ''1'')]\<rparr>,
              disable_oom_killer = False, oom_score_adj = None, freezer_state_opt = None\<rparr>"
  obtain r w' where "v2_apply demo_manager_env demo_v2_manager ?opt (demo_cgroup [''x'']) = (r, w')"
    by fastforce
  from apply_writes_inside_cgroup [OF demo_manager_laws(1,3) _ this] this show ?thesis
    by (simp add: demo_v2_manager_def demo_cgroup_def empty_fs_def Let_def) fastforce
qed

lemma demo_cgroup_path: "parse_path ''/../a/b'' = [RootDir, ParentDir, Normal ''a'', Normal ''b'']"
  by (simp add: parse_path_def parse_rest_def parse_component_def)

lemma enable_controllers_demo:
  "df_file w (p @ [Normal ''cgroup.subtree_control'']) = None \<Longrightarrow> enable_controllers demo_manager_env p cs w = (Ok (), w)"
  by (induction cs) (auto simp: in_dir_append write_cgroup_file_def st_bind_def st_map_err_def demo_fs_env_def)


theorem remove_kills_and_removes_witness:
  "\<exists>w'. v2_remove demo_manager_env (demo_v2_manager\<lparr>full_path := [RootDir, Normal ''c'']\<rparr>) demo_tree = (Ok (), w') \<and> df_killed w' = [7]"
proof -
  let ?m = "demo_v2_manager\<lparr>full_path := [RootDir, Normal ''c'']\<rparr>"
  have k: "v2_kill_all demo_manager_env [RootDir, Normal ''c''] demo_tree = (Ok (), demo_tree\<lparr>df_killed := [7]\<rparr>)"
    by (simp add: v2_kill_all_def demo_v2_manager_def st_bind_def Let_def path_join_def)
       (simp add: demo_fs_env_def demo_tree_def empty_fs_def CGROUP_PROCS_def str_lines_def split_terminator_def strip_cr_def parse_sint_def digit_val_def)
  obtain w1 where d: "delete_with_retry demo_manager_env [RootDir, Normal ''c''] 4 (Some 100) (demo_tree\<lparr>df_killed := [7]\<rparr>) = (Ok (), w1)"
    using delete_loop.simps(2) [of demo_manager_env "[RootDir, Normal ''c'']" "Some 100" 3 0 10 "demo_tree\<lparr>df_killed := [7]\<rparr>"]
    by (simp add: delete_with_retry_def) (simp add: demo_fs_env_def demo_tree_def)
  have ex: "path_exists demo_fs_env [RootDir, Normal ''c''] demo_tree"
    by (simp add: demo_fs_env_def demo_tree_def)
  obtain w' where r: "v2_remove demo_manager_env ?m demo_tree = (Ok (), w')"
    using k d ex by (simp add: v2_remove_def demo_v2_manager_def st_bind_def st_map_err_def)
  from remove_kills_and_removes [OF demo_manager_laws(4) r] r show ?thesis
    by (simp add: demo_paths_def demo_tree_def empty_fs_def in_dir_append CGROUP_PROCS_def demo_fs_env_def str_lines_def split_terminator_def strip_cr_def
      parse_sint_def digit_val_def)
qed

end
