(* ===== verification/Dbus_Serialize.thy ===== *)
theory Dbus_Serialize
  imports Rust_Strings
begin

text \<open>
  The D-Bus value encoding of \<open>libcgroups/src/systemd/dbus_native/serialize.rs\<close> and the padding
  helpers of \<open>utils.rs\<close>. Every implementation of the trait \<open>DbusSerialize\<close> is a pair of functions
  here: \<open>ser_T\<close> appends to the buffer it is given, \<open>de_T\<close> reads a buffer at a counter and returns the
  value with the new counter. The trait is the locale \<open>dbus_codec\<close>: what a serializer appends
  depends on the length of the buffer only, and a deserializer reads back what the serializer of
  the same type wrote, at any position and before any continuation. \<open>dbus_elem\<close> adds what a type
  must promise to be the element of an array.
\<close>

section \<open>Errors, padding and alignment\<close>

datatype dbus_error =
    AuthenticationErr string
  | IncompleteImplementation string
  | IncorrectMessage string
  | ConnectionError string
  | DeserializationError string
  | MethodCallErr string
  | BusAddressError string
  | BusctlError string
  | UidError int_error
  | Nix nat

type_synonym 'a decoder = "u8 list \<Rightarrow> nat \<Rightarrow> (dbus_error, 'a \<times> nat) outcome"
type_synonym 'a encoder = "'a \<Rightarrow> u8 list \<Rightarrow> u8 list"

definition adjust_padding :: "u8 list \<Rightarrow> nat \<Rightarrow> u8 list" where
  "adjust_padding buf align =
     (if align = 1 then buf
      else let len = length buf; required_padding = (align - (len mod align)) mod align
           in buf @ replicate required_padding 0)"

definition align_counter :: "nat \<Rightarrow> nat \<Rightarrow> nat" where
  "align_counter ctr align =
     (if ctr mod align \<noteq> 0 then ctr + (align - (ctr mod align)) mod align else ctr)"

section \<open>The data types\<close>

record 'a structure_rec =
  key :: string
  val :: 'a

datatype variant =
    VString string
  | VBool bool
  | VU64 u64
  | VArrayU8 "u8 list"
  | VArrayU32 "u32 list"
  | VArrayU64 "u64 list"
  | VArrayStructU64 "u64 structure_rec list"
  | VArrayStructSS "string structure_rec list"

section \<open>The implementations of the trait\<close>

subsection \<open>Unit and tuples\<close>

definition sig_unit :: string where "sig_unit = ''''"

definition ser_unit :: "unit encoder" where
  "ser_unit _ buf = buf"

definition de_unit :: "unit decoder" where
  "de_unit buf counter = Ok ((), length buf)"

definition sig_tuple2 :: "string \<Rightarrow> string \<Rightarrow> string" where
  "sig_tuple2 t1 t2 = t1 @ t2"

definition sig_tuple3 :: "string \<Rightarrow> string \<Rightarrow> string \<Rightarrow> string" where
  "sig_tuple3 t1 t2 t3 = t1 @ t2 @ t3"

definition sig_tuple4 :: "string \<Rightarrow> string \<Rightarrow> string \<Rightarrow> string \<Rightarrow> string" where
  "sig_tuple4 t1 t2 t3 t4 = t1 @ t2 @ t3 @ t4"

definition ser_tuple2 :: "'a encoder \<Rightarrow> 'b encoder \<Rightarrow> ('a \<times> 'b) encoder" where
  "ser_tuple2 s1 s2 v buf = s2 (snd v) (s1 (fst v) buf)"

definition de_tuple2 :: "'a decoder \<Rightarrow> 'b decoder \<Rightarrow> ('a \<times> 'b) decoder" where
  "de_tuple2 d1 d2 buf counter =
     bind_outcome (d1 buf counter) (\<lambda>(t1, counter).
     bind_outcome (d2 buf counter) (\<lambda>(t2, counter). Ok ((t1, t2), counter)))"

definition ser_tuple3 :: "'a encoder \<Rightarrow> 'b encoder \<Rightarrow> 'c encoder \<Rightarrow> ('a \<times> 'b \<times> 'c) encoder" where
  "ser_tuple3 s1 s2 s3 = (\<lambda>(v1, v2, v3) buf. s3 v3 (s2 v2 (s1 v1 buf)))"

definition de_tuple3 :: "'a decoder \<Rightarrow> 'b decoder \<Rightarrow> 'c decoder \<Rightarrow> ('a \<times> 'b \<times> 'c) decoder" where
  "de_tuple3 d1 d2 d3 buf counter =
     bind_outcome (d1 buf counter) (\<lambda>(t1, counter).
     bind_outcome (d2 buf counter) (\<lambda>(t2, counter).
     bind_outcome (d3 buf counter) (\<lambda>(t3, counter). Ok ((t1, t2, t3), counter))))"

definition ser_tuple4 ::
  "'a encoder \<Rightarrow> 'b encoder \<Rightarrow> 'c encoder \<Rightarrow> 'd encoder \<Rightarrow> ('a \<times> 'b \<times> 'c \<times> 'd) encoder" where
  "ser_tuple4 s1 s2 s3 s4 = (\<lambda>(v1, v2, v3, v4) buf. s4 v4 (s3 v3 (s2 v2 (s1 v1 buf))))"

definition de_tuple4 ::
  "'a decoder \<Rightarrow> 'b decoder \<Rightarrow> 'c decoder \<Rightarrow> 'd decoder \<Rightarrow> ('a \<times> 'b \<times> 'c \<times> 'd) decoder" where
  "de_tuple4 d1 d2 d3 d4 buf counter =
     bind_outcome (d1 buf counter) (\<lambda>(t1, counter).
     bind_outcome (d2 buf counter) (\<lambda>(t2, counter).
     bind_outcome (d3 buf counter) (\<lambda>(t3, counter).
     bind_outcome (d4 buf counter) (\<lambda>(t4, counter). Ok ((t1, t2, t3, t4), counter)))))"

subsection \<open>Strings and booleans\<close>

definition sig_string :: string where "sig_string = ''s''"

definition al_string :: nat where "al_string = 4"

definition ser_string :: "string encoder" where
  "ser_string s buf =
     (let buf = adjust_padding buf 4;
          len = of_nat (length (as_bytes s)) :: u32;
          buf = buf @ to_le_bytes 4 len;
          buf = buf @ as_bytes s
      in buf @ [0])"

definition de_ref_str :: "string decoder" where
  "de_ref_str buf counter = Err (IncompleteImplementation ''&str does not support deserialization'')"

definition de_string :: "string decoder" where
  "de_string buf counter =
     (let counter = align_counter counter 4 in
      if length buf < counter + 4 then
        Err (DeserializationError ''incomplete string response : missing length'')
      else
        bind_outcome (slice_range buf counter (counter + 4)) (\<lambda>bs.
        let len = unat (from_le_bytes bs :: u32); counter = counter + 4 in
        if length buf < counter + len then
          Err (DeserializationError ''incomplete string response : missing partial string'')
        else
          bind_outcome (slice_range buf counter (counter + len)) (\<lambda>bs.
          bind_outcome (unwrap (from_utf8 bs)) (\<lambda>ret.
          Ok (ret, counter + (len + 1))))))"

definition sig_bool :: string where "sig_bool = ''b''"

definition al_bool :: nat where "al_bool = 4"

definition ser_bool :: "bool encoder" where
  "ser_bool b buf =
     (let buf = adjust_padding buf 4; v = (case b of True \<Rightarrow> 1 | False \<Rightarrow> 0) :: u32
      in buf @ to_le_bytes 4 v)"

definition de_bool :: "bool decoder" where
  "de_bool buf counter =
     (let counter = align_counter counter 4 in
      if length buf < counter + 4 then
        Err (DeserializationError ''incomplete bool response : partial response'')
      else
        bind_outcome (slice_range buf counter (counter + 4)) (\<lambda>bs.
        Ok ((from_le_bytes bs :: u32) \<noteq> 0, counter + 4)))"

subsection \<open>Unsigned integers\<close>

definition sig_u8 :: string where "sig_u8 = ''y''"

definition al_u8 :: nat where "al_u8 = 1"

definition ser_u8 :: "u8 encoder" where
  "ser_u8 v buf = adjust_padding buf 1 @ to_le_bytes 1 v"

definition de_u8 :: "u8 decoder" where
  "de_u8 buf counter =
     (let counter = align_counter counter 1 in
      if length buf < counter + 1 then
        Err (DeserializationError ''incomplete u8 response : partial response'')
      else
        bind_outcome (slice_range buf counter (counter + 1)) (\<lambda>bs. Ok (from_le_bytes bs, counter + 1)))"

definition sig_u16 :: string where "sig_u16 = ''q''"

definition al_u16 :: nat where "al_u16 = 2"

definition ser_u16 :: "u16 encoder" where
  "ser_u16 v buf = adjust_padding buf 2 @ to_le_bytes 2 v"

definition de_u16 :: "u16 decoder" where
  "de_u16 buf counter =
     (let counter = align_counter counter 2 in
      if length buf < counter + 2 then
        Err (DeserializationError ''incomplete u16 response : partial response'')
      else
        bind_outcome (slice_range buf counter (counter + 2)) (\<lambda>bs. Ok (from_le_bytes bs, counter + 2)))"

definition sig_u32 :: string where "sig_u32 = ''u''"

definition al_u32 :: nat where "al_u32 = 4"

definition ser_u32 :: "u32 encoder" where
  "ser_u32 v buf = adjust_padding buf 4 @ to_le_bytes 4 v"

definition de_u32 :: "u32 decoder" where
  "de_u32 buf counter =
     (let counter = align_counter counter 4 in
      if length buf < counter + 4 then
        Err (DeserializationError ''incomplete u32 response : partial response'')
      else
        bind_outcome (slice_range buf counter (counter + 4)) (\<lambda>bs. Ok (from_le_bytes bs, counter + 4)))"

definition sig_u64 :: string where "sig_u64 = ''t''"

definition al_u64 :: nat where "al_u64 = 8"

definition ser_u64 :: "u64 encoder" where
  "ser_u64 v buf = adjust_padding buf 8 @ to_le_bytes 8 v"

definition de_u64 :: "u64 decoder" where
  "de_u64 buf counter =
     (let counter = align_counter counter 8 in
      if length buf < counter + 8 then
        Err (DeserializationError ''incomplete u64 response : partial response'')
      else
        bind_outcome (slice_range buf counter (counter + 8)) (\<lambda>bs. Ok (from_le_bytes bs, counter + 8)))"

subsection \<open>Arrays\<close>

definition sig_vec :: "string \<Rightarrow> string" where
  "sig_vec sub_type = ''a'' @ sub_type"

definition al_vec :: nat where "al_vec = 4"

definition ser_vec :: "'a encoder \<Rightarrow> nat \<Rightarrow> 'a list encoder" where
  "ser_vec ser align v buf =
     (let buf = adjust_padding buf 4;
          temp_buf = foldl (\<lambda>temp_buf elem. ser elem temp_buf) [] v;
          len = of_nat (length temp_buf) :: u32;
          buf = buf @ to_le_bytes 4 len;
          buf = adjust_padding buf align
      in buf @ temp_buf)"

text \<open>
  The element loop. An element decoder that returns without moving the counter sends the loop
  round again in the same state, so it never ends: that is the outcome \<open>Diverge\<close>.
\<close>

function de_vec_loop :: "'a decoder \<Rightarrow> u8 list \<Rightarrow> nat \<Rightarrow> nat \<Rightarrow> (dbus_error, 'a list \<times> nat) outcome" where
  "de_vec_loop de buf stop counter =
     (if counter < stop then
        bind_outcome (de buf counter) (\<lambda>(elem, counter').
          if counter' \<le> counter then Diverge
          else bind_outcome (de_vec_loop de buf stop counter') (\<lambda>(ret, c). Ok (elem # ret, c)))
      else Ok ([], counter))"
  by pat_completeness auto
termination
  by (relation "measure (\<lambda>(de, buf, stop, counter). stop - counter)") auto

declare de_vec_loop.simps [simp del]

definition de_vec :: "'a decoder \<Rightarrow> nat \<Rightarrow> 'a list decoder" where
  "de_vec de align buf counter =
     (let counter = align_counter counter 4 in
      if length buf < counter + 4 then
        Err (DeserializationError ''incomplete array response : partial length'')
      else
        bind_outcome (slice_range buf counter (counter + 4)) (\<lambda>bs.
        let length_in_bytes = unat (from_le_bytes bs :: u32);
            counter = counter + 4;
            counter = align_counter counter align;
            stop = counter + length_in_bytes
        in if length buf < stop then
             Err (DeserializationError ''incomplete array response : partial elements'')
           else de_vec_loop de buf stop counter))"

subsection \<open>Structures\<close>

definition sig_structure :: "string \<Rightarrow> string" where
  "sig_structure val_sign = ''(s'' @ val_sign @ '')''"

definition al_structure :: nat where "al_structure = 8"

definition ser_structure :: "'a encoder \<Rightarrow> 'a structure_rec encoder" where
  "ser_structure ser v buf = ser (val v) (ser_string (key v) (adjust_padding buf 8))"

definition de_structure :: "'a decoder \<Rightarrow> 'a structure_rec decoder" where
  "de_structure de buf counter =
     (let counter = align_counter counter 8 in
      bind_outcome (de_string buf counter) (\<lambda>(k, counter).
      bind_outcome (de buf counter) (\<lambda>(v, counter). Ok (\<lparr>key = k, val = v\<rparr>, counter))))"

subsection \<open>Variants\<close>

definition sig_variant :: string where "sig_variant = ''v''"

definition al_variant :: nat where "al_variant = 1"

definition push_signature :: "string \<Rightarrow> u8 list \<Rightarrow> u8 list" where
  "push_signature sub_type buf =
     (buf @ [of_nat (length sub_type) :: u8]) @ as_bytes sub_type @ [0]"

primrec ser_variant :: "variant encoder" where
  "ser_variant (VString s) buf = ser_string s (push_signature sig_string buf)"
| "ser_variant (VArrayU8 v) buf = ser_vec ser_u8 al_u8 v (push_signature (sig_vec sig_u8) buf)"
| "ser_variant (VArrayU32 v) buf = ser_vec ser_u32 al_u32 v (push_signature (sig_vec sig_u32) buf)"
| "ser_variant (VArrayU64 v) buf = ser_vec ser_u64 al_u64 v (push_signature (sig_vec sig_u64) buf)"
| "ser_variant (VBool b) buf = ser_bool b (push_signature sig_bool buf)"
| "ser_variant (VU64 v) buf = ser_u64 v (push_signature sig_u64 buf)"
| "ser_variant (VArrayStructU64 s) buf =
     ser_vec (ser_structure ser_u64) al_structure s
       (push_signature (sig_vec (sig_structure sig_u64)) buf)"
| "ser_variant (VArrayStructSS s) buf =
     ser_vec (ser_structure ser_string) al_structure s
       (push_signature (sig_vec (sig_structure sig_string)) buf)"

definition map_value :: "('a \<Rightarrow> 'b) \<Rightarrow> ('e, 'a \<times> nat) outcome \<Rightarrow> ('e, 'b \<times> nat) outcome" where
  "map_value h r = bind_outcome r (\<lambda>(x, c). Ok (h x, c))"

definition de_variant_value :: "string \<Rightarrow> variant decoder" where
  "de_variant_value signature buf counter =
     (if signature = sig_string then map_value VString (de_string buf counter)
      else if signature = sig_bool then map_value VBool (de_bool buf counter)
      else if signature = sig_vec sig_u8 then
        map_value VArrayU8 (de_vec de_u8 al_u8 buf counter)
      else if signature = sig_vec sig_u32 then
        map_value VArrayU32 (de_vec de_u32 al_u32 buf counter)
      else if signature = sig_vec sig_u64 then
        map_value VArrayU64 (de_vec de_u64 al_u64 buf counter)
      else if signature = sig_u64 then map_value VU64 (de_u64 buf counter)
      else if signature = sig_vec (sig_structure sig_u64) then
        map_value VArrayStructU64 (de_vec (de_structure de_u64) al_structure buf counter)
      else if signature = sig_vec (sig_structure sig_string) then
        map_value VArrayStructSS (de_vec (de_structure de_string) al_structure buf counter)
      else Err (IncompleteImplementation (''unsupported value signature '' @ signature)))"

definition de_variant :: "variant decoder" where
  "de_variant buf counter =
     (let counter = align_counter counter 1 in
      bind_outcome (index_at buf counter) (\<lambda>b.
      let signature_length = unat b; counter = counter + 1 in
      if length buf < counter + signature_length then
        Err (DeserializationError ''incomplete variant response : partial signature'')
      else
        bind_outcome (slice_range buf counter (counter + signature_length)) (\<lambda>bs.
        bind_outcome (unwrap (from_utf8 bs)) (\<lambda>signature.
        de_variant_value signature buf (counter + (signature_length + 1))))))"

section \<open>What a type promises\<close>

text \<open>The bytes a serializer appends to a buffer of length \<open>n\<close>, and to it for a list of elements.\<close>

definition enc_at :: "'a encoder \<Rightarrow> nat \<Rightarrow> 'a \<Rightarrow> u8 list" where
  "enc_at ser n x = drop n (ser x (replicate n 0))"

primrec enc_list :: "'a encoder \<Rightarrow> nat \<Rightarrow> 'a list \<Rightarrow> u8 list" where
  "enc_list ser n [] = []"
| "enc_list ser n (x # xs) =
     enc_at ser n x @ enc_list ser (n + length (enc_at ser n x)) xs"

definition pad_len :: "nat \<Rightarrow> nat \<Rightarrow> nat" where
  "pad_len n a = (a - n mod a) mod a"

definition pad :: "nat \<Rightarrow> nat \<Rightarrow> u8 list" where
  "pad n a = replicate (pad_len n a) 0"

lemma adjust_padding_pad: "adjust_padding buf a = buf @ pad (length buf) a"
  by (simp add: adjust_padding_def pad_def pad_len_def)

lemma align_counter_pad: "align_counter n a = n + pad_len n a"
  by (simp add: align_counter_def pad_len_def)

lemma length_pad [simp]: "length (pad n a) = pad_len n a"
  by (simp add: pad_def)

lemma pad_len_mod: "n mod a = m mod a \<Longrightarrow> pad_len n a = pad_len m a"
  by (simp add: pad_len_def)

lemma mod_mod_trans: "n mod b = m mod b \<Longrightarrow> (a::nat) dvd b \<Longrightarrow> n mod a = m mod a"
  by (metis mod_mod_cancel)

lemma add_pad_len_mod: "0 < a \<Longrightarrow> (n + pad_len n a) mod a = 0"
proof -
  assume "0 < a"
  then have "(n + (a - n mod a)) mod a = 0"
    by (metis add.commute le_add_diff_inverse2 less_imp_le mod_add_left_eq mod_less_divisor mod_self)
  then show ?thesis
    by (simp add: pad_len_def mod_simps)
qed

lemma pad_len_0 [simp]: "n mod a = 0 \<Longrightarrow> pad_len n a = 0"
  by (simp add: pad_len_def)

lemma enc_at_eqI: "(\<And>buf. ser x buf = buf @ f (length buf)) \<Longrightarrow> enc_at ser n x = f n"
  by (simp add: enc_at_def)

locale dbus_codec =
  fixes ser :: "'a encoder"
    and de :: "'a decoder"
    and valid :: "'a \<Rightarrow> bool"
  assumes ser_appends: "ser x buf = buf @ enc_at ser (length buf) x"
    and enc_period: "n mod 8 = m mod 8 \<Longrightarrow> enc_at ser n x = enc_at ser m x"
    and enc_not_Nil: "enc_at ser n x \<noteq> []"
    and de_enc: "valid x \<Longrightarrow>
      de (pre @ enc_at ser (length pre) x @ post) (length pre)
        = Ok (x, length pre + length (enc_at ser (length pre) x))"
begin

lemma roundtrip:
  "valid x \<Longrightarrow> de (ser x buf @ post) (length buf) = Ok (x, length (ser x buf))"
  using de_enc [of x buf post] by (simp add: ser_appends [of x buf])

lemma foldl_ser: "foldl (\<lambda>b x. ser x b) buf xs = buf @ enc_list ser (length buf) xs"
proof (induction xs arbitrary: buf)
  case (Cons x xs)
  then show ?case
    by (simp add: Cons [of "ser x buf"]) (simp add: ser_appends [of x buf])
qed simp

lemma de_vec_loop_enc_list:
  assumes "\<forall>x \<in> set xs. valid x" and "stop = length pre + length (enc_list ser (length pre) xs)"
  shows "de_vec_loop de (pre @ enc_list ser (length pre) xs @ post) stop (length pre) = Ok (xs, stop)"
  using assms
proof (induction xs arbitrary: pre)
  case Nil
  then show ?case by (simp add: de_vec_loop.simps)
next
  case (Cons x xs)
  let ?e = "enc_at ser (length pre) x"
  let ?rest = "enc_list ser (length pre + length ?e) xs"
  have e: "?e \<noteq> []" by (rule enc_not_Nil)
  have "de_vec_loop de ((pre @ ?e) @ ?rest @ post) stop (length pre + length ?e) = Ok (xs, stop)"
    using Cons.IH [of "pre @ ?e"] Cons.prems by simp
  moreover have "de (pre @ ?e @ ?rest @ post) (length pre) = Ok (x, length pre + length ?e)"
    using Cons.prems(1) by (intro de_enc) simp
  ultimately show ?case
    using e Cons.prems(2) by (simp add: de_vec_loop.simps [of _ _ _ "length pre"])
qed

end

locale dbus_elem = dbus_codec +
  fixes align :: nat
  assumes align_cases: "align \<in> {1, 2, 4, 8}"
    and enc_shift: "n mod align = m mod align \<Longrightarrow> enc_at ser n x = enc_at ser m x"
begin

lemma align_pos: "0 < align"
  using align_cases by auto

lemma enc_list_shift: "n mod align = m mod align \<Longrightarrow> enc_list ser n xs = enc_list ser m xs"
proof (induction xs arbitrary: n m)
  case (Cons x xs)
  let ?k = "length (enc_at ser m x)"
  have "enc_at ser n x = enc_at ser m x" using Cons.prems by (rule enc_shift)
  moreover have "enc_list ser (n + ?k) xs = enc_list ser (m + ?k) xs"
    using Cons.prems by (intro Cons.IH) (metis mod_add_left_eq)
  ultimately show ?case by simp
qed simp

definition enc_vec :: "nat \<Rightarrow> 'a list \<Rightarrow> u8 list" where
  "enc_vec n xs = pad n 4 @ to_le_bytes 4 (of_nat (length (enc_list ser 0 xs)) :: u32)
     @ pad (n + pad_len n 4 + 4) align @ enc_list ser 0 xs"

lemma ser_vec_enc: "ser_vec ser align xs buf = buf @ enc_vec (length buf) xs"
  by (simp add: ser_vec_def Let_def adjust_padding_pad foldl_ser enc_vec_def)

lemma enc_at_vec: "enc_at (ser_vec ser align) n xs = enc_vec n xs"
  by (rule enc_at_eqI) (rule ser_vec_enc)

lemma enc_vec_period: "n mod 8 = m mod 8 \<Longrightarrow> enc_vec n xs = enc_vec m xs"
proof -
  assume nm: "n mod 8 = m mod 8"
  then have "pad_len n 4 = pad_len m 4"
    by (intro pad_len_mod mod_mod_trans [OF nm]) simp
  moreover have "pad_len (n + k) align = pad_len (m + k) align" for k
  proof (rule pad_len_mod)
    have "(n + k) mod 8 = (m + k) mod 8" using nm by (metis mod_add_left_eq)
    then show "(n + k) mod align = (m + k) mod align"
      by (rule mod_mod_trans) (use align_cases in auto)
  qed
  ultimately show ?thesis
    by (simp add: enc_vec_def pad_def add.assoc)
qed

lemma de_vec_enc:
  assumes "\<forall>x \<in> set xs. valid x" and "length (enc_list ser 0 xs) < 2 ^ 32"
  shows "de_vec de align (pre @ enc_vec (length pre) xs @ post) (length pre)
           = Ok (xs, length pre + length (enc_vec (length pre) xs))"
proof -
  let ?n = "length pre"
  let ?p1 = "pre @ pad ?n 4"
  let ?len = "to_le_bytes 4 (of_nat (length (enc_list ser 0 xs)) :: u32)"
  let ?p2 = "?p1 @ ?len @ pad (?n + pad_len ?n 4 + 4) align"
  have l2: "length ?p2 mod align = 0"
    using add_pad_len_mod [OF align_pos, of "?n + pad_len ?n 4 + 4"] by (simp add: add.assoc)
  have shift: "enc_list ser (length ?p2) xs = enc_list ser 0 xs"
    by (rule enc_list_shift) (use l2 in simp)
  have loop: "de_vec_loop de (?p2 @ enc_list ser 0 xs @ post)
      (length ?p2 + length (enc_list ser 0 xs)) (length ?p2)
      = Ok (xs, length ?p2 + length (enc_list ser 0 xs))"
    using de_vec_loop_enc_list [of xs _ ?p2 post] assms(1) shift by simp
  have sl: "slice_range (?p1 @ ?len @ pad (?n + pad_len ?n 4 + 4) align @ enc_list ser 0 xs @ post)
      (?n + pad_len ?n 4) (?n + pad_len ?n 4 + 4) = (Ok ?len :: (dbus_error, u8 list) outcome)"
    by (rule slice_middle) simp_all
  have buf: "pre @ enc_vec ?n xs @ post
      = ?p1 @ ?len @ pad (?n + pad_len ?n 4 + 4) align @ enc_list ser 0 xs @ post"
    by (simp add: enc_vec_def)
  show ?thesis
    unfolding de_vec_def buf
    using sl loop assms(2)
    by (simp add: align_counter_pad enc_vec_def Let_def add.assoc)
qed

lemma vec_codec:
  "dbus_codec (ser_vec ser align) (de_vec de align)
     (\<lambda>xs. (\<forall>x \<in> set xs. valid x) \<and> length (foldl (\<lambda>b x. ser x b) [] xs) < 2 ^ 32)"
proof
  fix xs :: "'a list" and buf pre post :: "u8 list" and n m :: nat
  show "ser_vec ser align xs buf = buf @ enc_at (ser_vec ser align) (length buf) xs"
    by (simp only: enc_at_vec ser_vec_enc)
  show "enc_at (ser_vec ser align) n xs = enc_at (ser_vec ser align) m xs" if "n mod 8 = m mod 8"
    unfolding enc_at_vec using that by (rule enc_vec_period)
  show "enc_at (ser_vec ser align) n xs \<noteq> []"
    by (simp add: enc_at_vec enc_vec_def)
  assume "(\<forall>x \<in> set xs. valid x) \<and> length (foldl (\<lambda>b x. ser x b) [] xs) < 2 ^ 32"
  then show "de_vec de align (pre @ enc_at (ser_vec ser align) (length pre) xs @ post) (length pre)
      = Ok (xs, length pre + length (enc_at (ser_vec ser align) (length pre) xs))"
    unfolding enc_at_vec foldl_ser by (intro de_vec_enc) auto
qed

end

text \<open>A type that pads to its alignment and then writes bytes that do not depend on the position.\<close>

lemma padded_elem:
  assumes a: "a \<in> {1, 2, 4, 8}"
    and ser: "\<And>x buf. ser x buf = buf @ pad (length buf) a @ body x"
    and body: "\<And>x. body x \<noteq> []"
    and de: "\<And>x pre post. valid x \<Longrightarrow> de (pre @ pad (length pre) a @ body x @ post) (length pre)
        = Ok (x, length pre + pad_len (length pre) a + length (body x))"
  shows "dbus_elem ser de valid a"
proof -
  have enc: "enc_at ser n x = pad n a @ body x" for n x
    by (rule enc_at_eqI) (rule ser)
  have shift: "enc_at ser n x = enc_at ser m x" if "n mod a = m mod a" for n m x
    using pad_len_mod [OF that] by (simp add: enc pad_def)
  show ?thesis
  proof
    show "n mod 8 = m mod 8 \<Longrightarrow> enc_at ser n x = enc_at ser m x" for n m x
      by (rule shift, rule mod_mod_trans) (use a in auto)
    show "a \<in> {1, 2, 4, 8}" by (rule a)
    show "n mod a = m mod a \<Longrightarrow> enc_at ser n x = enc_at ser m x" for n m x
      by (rule shift)
  qed (simp_all add: enc ser body de add.assoc)
qed

definition wf_string :: "string \<Rightarrow> bool" where
  "wf_string s \<longleftrightarrow> wf_str s \<and> length s < 2 ^ 32"

interpretation u8: dbus_elem ser_u8 de_u8 "\<lambda>_. True" al_u8
  by (rule padded_elem [where body = "to_le_bytes 1"])
     (simp_all add: al_u8_def ser_u8_def de_u8_def adjust_padding_pad align_counter_pad
        slice_range_def pad_def pad_len_def)

interpretation u16: dbus_elem ser_u16 de_u16 "\<lambda>_. True" al_u16
  by (rule padded_elem [where body = "to_le_bytes 2"])
     (simp_all add: al_u16_def ser_u16_def de_u16_def adjust_padding_pad align_counter_pad
        slice_range_def Let_def)

interpretation u32: dbus_elem ser_u32 de_u32 "\<lambda>_. True" al_u32
  by (rule padded_elem [where body = "to_le_bytes 4"])
     (simp_all add: al_u32_def ser_u32_def de_u32_def adjust_padding_pad align_counter_pad
        slice_range_def Let_def)

interpretation u64: dbus_elem ser_u64 de_u64 "\<lambda>_. True" al_u64
  by (rule padded_elem [where body = "to_le_bytes 8"])
     (simp_all add: al_u64_def ser_u64_def de_u64_def adjust_padding_pad align_counter_pad
        slice_range_def Let_def)

interpretation bool: dbus_elem ser_bool de_bool "\<lambda>_. True" al_bool
  by (rule padded_elem [where body = "\<lambda>b. to_le_bytes 4 (of_bool b :: u32)"])
     (simp_all add: al_bool_def ser_bool_def de_bool_def adjust_padding_pad align_counter_pad
        slice_range_def Let_def split: bool.split)

definition body_string :: "string \<Rightarrow> u8 list" where
  "body_string s = to_le_bytes 4 (of_nat (length s) :: u32) @ as_bytes s @ [0]"

lemma de_string_enc:
  "wf_string s \<Longrightarrow> de_string (pre @ pad (length pre) 4 @ body_string s @ post) (length pre)
     = Ok (s, length pre + pad_len (length pre) 4 + length (body_string s))"
  unfolding de_string_def body_string_def
  by (simp add: wf_string_def align_counter_pad Let_def slice_range_def)

interpretation string: dbus_elem ser_string de_string wf_string al_string
  by (rule padded_elem [where body = body_string])
     (simp_all add: al_string_def ser_string_def adjust_padding_pad Let_def body_string_def
        de_string_enc [unfolded body_string_def, simplified])

section \<open>Tuples, structures and arrays of them\<close>

locale dbus_pair =
  c1: dbus_codec s1 d1 v1 + c2: dbus_codec s2 d2 v2
  for s1 :: "'a encoder" and d1 v1 and s2 :: "'b encoder" and d2 v2
begin

lemma ser_pair:
  "ser_tuple2 s1 s2 (x, y) buf = buf @ enc_at s1 (length buf) x
     @ enc_at s2 (length buf + length (enc_at s1 (length buf) x)) y"
  using c2.ser_appends [of y "buf @ enc_at s1 (length buf) x"] c1.ser_appends [of x buf]
  by (simp add: ser_tuple2_def)

lemma enc_at_pair:
  "enc_at (ser_tuple2 s1 s2) n (x, y)
     = enc_at s1 n x @ enc_at s2 (n + length (enc_at s1 n x)) y"
  by (rule enc_at_eqI) (rule ser_pair)

lemma pair_period:
  assumes "n mod 8 = m mod 8"
  shows "enc_at (ser_tuple2 s1 s2) n p = enc_at (ser_tuple2 s1 s2) m p"
proof (cases p)
  case (Pair x y)
  have "enc_at s1 n x = enc_at s1 m x" using assms by (rule c1.enc_period)
  moreover have "enc_at s2 (n + k) y = enc_at s2 (m + k) y" for k
    using assms by (intro c2.enc_period) (metis mod_add_left_eq)
  ultimately show ?thesis by (simp add: Pair enc_at_pair)
qed

lemma de_pair_enc:
  assumes "v1 x" and "v2 y"
  shows "de_tuple2 d1 d2 (pre @ enc_at (ser_tuple2 s1 s2) (length pre) (x, y) @ post) (length pre)
     = Ok ((x, y), length pre + length (enc_at (ser_tuple2 s1 s2) (length pre) (x, y)))"
proof -
  let ?e = "enc_at s1 (length pre) x"
  have "d1 (pre @ ?e @ enc_at s2 (length pre + length ?e) y @ post) (length pre)
      = Ok (x, length pre + length ?e)"
    using assms(1) by (rule c1.de_enc)
  moreover have "d2 ((pre @ ?e) @ enc_at s2 (length (pre @ ?e)) y @ post) (length (pre @ ?e))
      = Ok (y, length (pre @ ?e) + length (enc_at s2 (length (pre @ ?e)) y))"
    using assms(2) by (rule c2.de_enc)
  ultimately show ?thesis
    by (simp add: de_tuple2_def enc_at_pair)
qed

lemma pair_codec:
  "dbus_codec (ser_tuple2 s1 s2) (de_tuple2 d1 d2) (\<lambda>(x, y). v1 x \<and> v2 y)"
proof
  fix p :: "'a \<times> 'b" and buf pre post :: "u8 list" and n m :: nat
  show "ser_tuple2 s1 s2 p buf = buf @ enc_at (ser_tuple2 s1 s2) (length buf) p"
    by (cases p) (simp add: enc_at_pair ser_pair)
  show "enc_at (ser_tuple2 s1 s2) n p = enc_at (ser_tuple2 s1 s2) m p" if "n mod 8 = m mod 8"
    using that by (rule pair_period)
  show "enc_at (ser_tuple2 s1 s2) n p \<noteq> []"
    by (cases p) (simp add: enc_at_pair c1.enc_not_Nil)
  assume "case p of (x, y) \<Rightarrow> v1 x \<and> v2 y"
  then show "de_tuple2 d1 d2 (pre @ enc_at (ser_tuple2 s1 s2) (length pre) p @ post) (length pre)
      = Ok (p, length pre + length (enc_at (ser_tuple2 s1 s2) (length pre) p))"
    by (cases p) (simp add: de_pair_enc)
qed

end

lemma ser_tuple3_pair: "ser_tuple3 s1 s2 s3 = ser_tuple2 s1 (ser_tuple2 s2 s3)"
  by (auto simp: fun_eq_iff ser_tuple3_def ser_tuple2_def)

lemma de_tuple3_pair: "de_tuple3 d1 d2 d3 = de_tuple2 d1 (de_tuple2 d2 d3)"
  by (simp add: fun_eq_iff de_tuple3_def de_tuple2_def bind_outcome_assoc split_def)

lemma ser_tuple4_pair: "ser_tuple4 s1 s2 s3 s4 = ser_tuple2 s1 (ser_tuple3 s2 s3 s4)"
  by (auto simp: fun_eq_iff ser_tuple4_def ser_tuple3_def ser_tuple2_def)

lemma de_tuple4_pair: "de_tuple4 d1 d2 d3 d4 = de_tuple2 d1 (de_tuple3 d2 d3 d4)"
  by (simp add: fun_eq_iff de_tuple4_def de_tuple3_def de_tuple2_def bind_outcome_assoc split_def)

lemma ser_structure_pair:
  "ser_structure s v buf = ser_tuple2 ser_string s (key v, val v) (adjust_padding buf 8)"
  by (simp add: ser_structure_def ser_tuple2_def)

lemma de_structure_pair:
  "de_structure d buf c
     = map_value (\<lambda>(k, v). \<lparr>key = k, val = v\<rparr>) (de_tuple2 de_string d buf (align_counter c 8))"
  by (simp add: de_structure_def de_tuple2_def map_value_def bind_outcome_assoc split_def Let_def)

lemma structure_elem:
  assumes "dbus_codec s d v"
  shows "dbus_elem (ser_structure s) (de_structure d) (\<lambda>r. wf_string (key r) \<and> v (val r)) al_structure"
proof -
  let ?ser = "ser_tuple2 ser_string s"
  have P: "dbus_codec ?ser (de_tuple2 de_string d) (\<lambda>(x, y). wf_string x \<and> v y)"
    by (intro dbus_pair.pair_codec dbus_pair.intro string.dbus_codec_axioms assms)
  have enc: "enc_at ?ser (n + pad_len n 8) p = enc_at ?ser 0 p" for n p
    by (rule dbus_codec.enc_period [OF P]) (simp add: add_pad_len_mod)
  have de: "de_structure d (pre @ pad (length pre) 8 @ enc_at ?ser 0 (key r, val r) @ post) (length pre)
      = Ok (r, length pre + pad_len (length pre) 8 + length (enc_at ?ser 0 (key r, val r)))"
    if "wf_string (key r) \<and> v (val r)" for r pre post
    using dbus_codec.de_enc [OF P, of "(key r, val r)" "pre @ pad (length pre) 8" post] that
    by (simp add: de_structure_pair align_counter_pad enc map_value_def)
  show ?thesis
    unfolding al_structure_def
    by (rule padded_elem [where body = "\<lambda>r. enc_at ?ser 0 (key r, val r)"])
       (simp_all add: de dbus_codec.enc_not_Nil [OF P] ser_structure_pair adjust_padding_pad
          dbus_codec.ser_appends [OF P, of _ "_ @ _"] enc)
qed

interpretation string_pair: dbus_pair ser_string de_string wf_string ser_string de_string wf_string
  by unfold_locales

interpretation struct_u64: dbus_elem "ser_structure ser_u64" "de_structure de_u64"
  "\<lambda>r. wf_string (key r) \<and> True" al_structure
  by (rule structure_elem) (rule u64.dbus_codec_axioms)

interpretation struct_ss: dbus_elem "ser_structure ser_string" "de_structure de_string"
  "\<lambda>r. wf_string (key r) \<and> wf_string (val r)" al_structure
  by (rule structure_elem) (rule string.dbus_codec_axioms)

section \<open>Variants\<close>

text \<open>The four laws of a codec at one value.\<close>

definition codec_at :: "'a encoder \<Rightarrow> 'a decoder \<Rightarrow> bool \<Rightarrow> 'a \<Rightarrow> bool" where
  "codec_at ser de ok x \<longleftrightarrow>
     (\<forall>buf. ser x buf = buf @ enc_at ser (length buf) x)
   \<and> (\<forall>n m. n mod 8 = m mod 8 \<longrightarrow> enc_at ser n x = enc_at ser m x)
   \<and> (\<forall>n. enc_at ser n x \<noteq> [])
   \<and> (ok \<longrightarrow> (\<forall>pre post. de (pre @ enc_at ser (length pre) x @ post) (length pre)
        = Ok (x, length pre + length (enc_at ser (length pre) x))))"

lemma codec_atI: "(\<And>x. codec_at ser de (valid x) x) \<Longrightarrow> dbus_codec ser de valid"
  unfolding codec_at_def by unfold_locales blast+

definition sig_bytes :: "string \<Rightarrow> u8 list" where
  "sig_bytes sg = (of_nat (length sg) :: u8) # as_bytes sg @ [0]"

lemma length_sig_bytes [simp]: "length (sig_bytes sg) = length sg + 2"
  by (simp add: sig_bytes_def)

lemma push_signature_bytes: "push_signature sg buf = buf @ sig_bytes sg"
  by (simp add: push_signature_def sig_bytes_def)

lemma de_variant_sig_bytes:
  "wf_str sg \<Longrightarrow> length sg < 256 \<Longrightarrow>
   de_variant (pre @ sig_bytes sg @ rest) (length pre)
     = de_variant_value sg (pre @ sig_bytes sg @ rest) (length pre + (length sg + 2))"
  by (simp add: de_variant_def Let_def align_counter_def sig_bytes_def unat_of_nat_u8
      slice_range_def)

lemma codec_at_variant:
  assumes c: "dbus_codec s d v"
    and ser: "\<And>buf. ser_variant (C x) buf = s x (push_signature sg buf)"
    and de: "\<And>buf c. de_variant_value sg buf c = map_value C (d buf c)"
    and sg: "wf_str sg" "length sg < 256"
  shows "codec_at ser_variant de_variant (v x) (C x)"
proof -
  have ser': "ser_variant (C x) buf = buf @ sig_bytes sg @ enc_at s (length buf + (length sg + 2)) x" for buf
    using dbus_codec.ser_appends [OF c, of x "buf @ sig_bytes sg"]
    by (simp add: ser push_signature_bytes)
  have enc: "enc_at ser_variant n (C x) = sig_bytes sg @ enc_at s (n + (length sg + 2)) x" for n
    by (rule enc_at_eqI) (rule ser')
  have "enc_at s (n + (length sg + 2)) x = enc_at s (m + (length sg + 2)) x"
    if "n mod 8 = m mod 8" for n m
    using that by (intro dbus_codec.enc_period [OF c]) (metis mod_add_left_eq)
  then have period: "enc_at ser_variant n (C x) = enc_at ser_variant m (C x)" if "n mod 8 = m mod 8" for n m
    using that unfolding enc by metis
  have de_enc: "de_variant (pre @ enc_at ser_variant (length pre) (C x) @ post) (length pre)
        = Ok (C x, length pre + length (enc_at ser_variant (length pre) (C x)))" if "v x" for pre post
    using dbus_codec.de_enc [OF c that, of "pre @ sig_bytes sg" post]
    by (simp add: enc de_variant_sig_bytes [OF sg] de map_value_def)
  show ?thesis
    unfolding codec_at_def
    by (intro conjI allI impI de_enc) (assumption | rule period | simp add: ser' enc sig_bytes_def)+
qed

definition fits :: "'a encoder \<Rightarrow> 'a list \<Rightarrow> bool" where
  "fits ser xs \<longleftrightarrow> length (foldl (\<lambda>b x. ser x b) [] xs) < 2 ^ 32"

primrec wf_variant :: "variant \<Rightarrow> bool" where
  "wf_variant (VString s) \<longleftrightarrow> wf_string s"
| "wf_variant (VBool b) \<longleftrightarrow> True"
| "wf_variant (VU64 n) \<longleftrightarrow> True"
| "wf_variant (VArrayU8 v) \<longleftrightarrow> fits ser_u8 v"
| "wf_variant (VArrayU32 v) \<longleftrightarrow> fits ser_u32 v"
| "wf_variant (VArrayU64 v) \<longleftrightarrow> fits ser_u64 v"
| "wf_variant (VArrayStructU64 v) \<longleftrightarrow> (\<forall>r \<in> set v. wf_string (key r)) \<and> fits (ser_structure ser_u64) v"
| "wf_variant (VArrayStructSS v) \<longleftrightarrow>
     (\<forall>r \<in> set v. wf_string (key r) \<and> wf_string (val r)) \<and> fits (ser_structure ser_string) v"

lemmas sig_defs = sig_string_def sig_bool_def sig_u8_def sig_u16_def sig_u32_def sig_u64_def
  sig_vec_def sig_structure_def sig_variant_def sig_unit_def

lemmas variant_cases =
  codec_at_variant [OF string.dbus_codec_axioms, of VString _ sig_string]
  codec_at_variant [OF bool.dbus_codec_axioms, of VBool _ sig_bool]
  codec_at_variant [OF u64.dbus_codec_axioms, of VU64 _ sig_u64]
  codec_at_variant [OF u8.vec_codec, of VArrayU8 _ "sig_vec sig_u8"]
  codec_at_variant [OF u32.vec_codec, of VArrayU32 _ "sig_vec sig_u32"]
  codec_at_variant [OF u64.vec_codec, of VArrayU64 _ "sig_vec sig_u64"]
  codec_at_variant [OF struct_u64.vec_codec, of VArrayStructU64 _ "sig_vec (sig_structure sig_u64)"]
  codec_at_variant [OF struct_ss.vec_codec, of VArrayStructSS _ "sig_vec (sig_structure sig_string)"]

interpretation variant: dbus_codec ser_variant de_variant wf_variant
proof (rule codec_atI)
  fix x show "codec_at ser_variant de_variant (wf_variant x) x"
    using variant_cases
    by (cases x) (simp_all add: sig_defs de_variant_value_def fits_def wf_str_ascii)
qed

interpretation struct_variant: dbus_elem "ser_structure ser_variant" "de_structure de_variant"
  "\<lambda>r. wf_string (key r) \<and> wf_variant (val r)" al_structure
  by (rule structure_elem) (rule variant.dbus_codec_axioms)

section \<open>Decoding arbitrary input\<close>

text \<open>
  What a decoder promises on input nobody serialized: it halts, and it moves the counter forward
  whenever it succeeds. That is what keeps the element loop of an array from spinning.
\<close>

locale dbus_reader =
  fixes de :: "'a decoder"
  assumes halts: "de buf c \<noteq> Diverge"
    and forward: "de buf c = Ok (x, c') \<Longrightarrow> c < c'"
begin

lemma vec_loop_halts: "de_vec_loop de buf stop c \<noteq> Diverge"
proof (induction "stop - c" arbitrary: c rule: less_induct)
  case less
  then show ?case
    unfolding de_vec_loop.simps [of _ _ _ c]
    by (auto simp: outcome_simps halts dest: forward split: if_splits prod.splits)
qed

lemma vec_loop_forward: "de_vec_loop de buf stop c = Ok (xs, c') \<Longrightarrow> c \<le> c'"
proof (induction "stop - c" arbitrary: c xs c' rule: less_induct)
  case less
  show ?case
  proof (cases "c < stop")
    case True
    with less.prems obtain x d xs' where "\<not> d \<le> c" "de_vec_loop de buf stop d = Ok (xs', c')"
      unfolding de_vec_loop.simps [of _ _ _ c] by (auto simp: outcome_simps split: if_splits)
    with less.hyps [of d xs' c'] True have "d \<le> c'" by (meson diff_less_mono2 not_le)
    with \<open>\<not> d \<le> c\<close> show ?thesis by simp
  qed (use less.prems in \<open>simp add: de_vec_loop.simps [of _ _ _ c]\<close>)
qed

lemma vec_reader: "dbus_reader (de_vec de align)"
proof
  fix buf c xs c'
  show "de_vec de align buf c \<noteq> Diverge"
    by (auto simp: de_vec_def Let_def outcome_simps vec_loop_halts slice_range_def)
  show "c < c'" if "de_vec de align buf c = Ok (xs, c')"
    using that by (auto simp: de_vec_def Let_def outcome_simps align_counter_pad
        dest!: vec_loop_forward split: if_splits)
qed

lemma structure_reader: "dbus_reader (de_structure de)"
proof
  fix buf c r c'
  show "de_structure de buf c \<noteq> Diverge"
    by (auto simp: de_structure_def de_string_def Let_def outcome_simps halts slice_range_def)
  show "c < c'" if "de_structure de buf c = Ok (r, c')"
    using that by (auto simp: de_structure_def de_string_def Let_def outcome_simps align_counter_pad
        dest!: forward split: if_splits)
qed

end

lemmas scalar_reader_simps = Let_def outcome_simps align_counter_pad slice_range_def

interpretation rd_u8: dbus_reader de_u8
  by unfold_locales (auto simp: de_u8_def scalar_reader_simps split: if_splits)

interpretation rd_u32: dbus_reader de_u32
  by unfold_locales (auto simp: de_u32_def scalar_reader_simps split: if_splits)

interpretation rd_u64: dbus_reader de_u64
  by unfold_locales (auto simp: de_u64_def scalar_reader_simps split: if_splits)

interpretation rd_bool: dbus_reader de_bool
  by unfold_locales (auto simp: de_bool_def scalar_reader_simps split: if_splits)

interpretation rd_string: dbus_reader de_string
  by unfold_locales (auto simp: de_string_def scalar_reader_simps split: if_splits)

lemma map_value_eq [outcome_simps]:
  "map_value h r = Ok (y, c) \<longleftrightarrow> (\<exists>x. r = Ok (x, c) \<and> y = h x)"
  "map_value h r = Diverge \<longleftrightarrow> r = Diverge"
  by (auto simp: map_value_def outcome_simps)

lemmas variant_readers =
  rd_string.dbus_reader_axioms rd_bool.dbus_reader_axioms rd_u64.dbus_reader_axioms
  rd_u8.vec_reader rd_u32.vec_reader rd_u64.vec_reader
  dbus_reader.vec_reader [OF rd_u64.structure_reader]
  dbus_reader.vec_reader [OF rd_string.structure_reader]

lemma map_value_reader: "dbus_reader d \<Longrightarrow> dbus_reader (\<lambda>buf c. map_value h (d buf c))"
  unfolding dbus_reader_def outcome_simps by blast

lemma if_reader:
  "dbus_reader d \<Longrightarrow> dbus_reader d' \<Longrightarrow> dbus_reader (\<lambda>buf c. if b then d buf c else d' buf c)"
  by (cases b) simp_all

lemma Err_reader: "dbus_reader (\<lambda>buf c. Err e)"
  by unfold_locales simp_all

lemma de_variant_value_reader: "dbus_reader (de_variant_value sg)"
  unfolding de_variant_value_def [abs_def]
  by (intro if_reader map_value_reader Err_reader variant_readers)

interpretation rd_variant: dbus_reader de_variant
proof
  fix buf c x c'
  show "de_variant buf c \<noteq> Diverge"
    by (auto simp: de_variant_def Let_def outcome_simps index_at_def slice_range_def
        dbus_reader.halts [OF de_variant_value_reader])
  show "c < c'" if "de_variant buf c = Ok (x, c')"
    using that by (auto simp: de_variant_def Let_def outcome_simps align_counter_pad
        dest!: dbus_reader.forward [OF de_variant_value_reader] split: if_splits)
qed

section \<open>Properties\<close>

text \<open>
  C26. Round trip of D-Bus variants: whatever the buffer already holds (so at every alignment) and
  whatever follows, \<open>Variant::deserialize\<close> reads back the variant \<open>Variant::serialize\<close> appended and
  leaves the counter right behind its last byte.
\<close>

theorem variant_roundtrip:
  assumes "wf_variant v"
  shows "de_variant (ser_variant v buf @ post) (length buf) = Ok (v, length (ser_variant v buf))"
  using assms by (rule variant.roundtrip)

theorem variant_roundtrip_witness:
  "de_variant (ser_variant (VArrayStructSS [\<lparr>key = ''char-pts'', val = ''rwm''\<rparr>]) [7] @ [9]) (length [7 :: u8])
     = Ok (VArrayStructSS [\<lparr>key = ''char-pts'', val = ''rwm''\<rparr>],
           length (ser_variant (VArrayStructSS [\<lparr>key = ''char-pts'', val = ''rwm''\<rparr>]) [7]))"
  by (rule variant_roundtrip)
     (simp add: wf_string_def wf_str_ascii fits_def ser_structure_def ser_string_def adjust_padding_def)

lemma props_codec:
  "dbus_codec (ser_vec (ser_structure ser_variant) al_structure)
     (de_vec (de_structure de_variant) al_structure)
     (\<lambda>ps. (\<forall>p \<in> set ps. wf_string (key p) \<and> wf_variant (val p)) \<and> fits (ser_structure ser_variant) ps)"
  using struct_variant.vec_codec by (simp add: fits_def)

lemma unit_body_codec:
  "dbus_codec (ser_tuple3 ser_string ser_bool (ser_vec (ser_structure ser_variant) al_structure))
     (de_tuple3 de_string de_bool (de_vec (de_structure de_variant) al_structure))
     (\<lambda>(n, r). wf_string n \<and> (case r of (b, ps) \<Rightarrow> True
        \<and> (\<forall>p \<in> set ps. wf_string (key p) \<and> wf_variant (val p)) \<and> fits (ser_structure ser_variant) ps))"
  unfolding ser_tuple3_pair de_tuple3_pair
  by (intro dbus_pair.pair_codec dbus_pair.intro props_codec string.dbus_codec_axioms bool.dbus_codec_axioms)

text \<open>
  C27. Round trip of the body of \<open>SetUnitProperties\<close>, the tuple of a unit name, a flag and an array of
  name and variant structures: the generic tuple, array and structure codecs compose, with the
  paddings each of them inserts at the position it is written to.
\<close>

theorem unit_properties_body_roundtrip:
  assumes "wf_string name" and "\<forall>p \<in> set ps. wf_string (key p) \<and> wf_variant (val p)"
    and "fits (ser_structure ser_variant) ps"
  shows "de_tuple3 de_string de_bool (de_vec (de_structure de_variant) al_structure)
      (ser_tuple3 ser_string ser_bool (ser_vec (ser_structure ser_variant) al_structure) (name, runtime, ps) buf @ post)
      (length buf)
    = Ok ((name, runtime, ps),
          length (ser_tuple3 ser_string ser_bool (ser_vec (ser_structure ser_variant) al_structure) (name, runtime, ps) buf))"
  by (rule dbus_codec.roundtrip [OF unit_body_codec]) (use assms in simp)

theorem unit_properties_body_roundtrip_witness:
  "de_tuple3 de_string de_bool (de_vec (de_structure de_variant) al_structure)
      (ser_tuple3 ser_string ser_bool (ser_vec (ser_structure ser_variant) al_structure)
         (''a.scope'', True, [\<lparr>key = ''CPUWeight'', val = VU64 100\<rparr>]) [] @ [])
      (length ([] :: u8 list))
    = Ok ((''a.scope'', True, [\<lparr>key = ''CPUWeight'', val = VU64 100\<rparr>]),
          length (ser_tuple3 ser_string ser_bool (ser_vec (ser_structure ser_variant) al_structure)
            (''a.scope'', True, [\<lparr>key = ''CPUWeight'', val = VU64 100\<rparr>]) []))"
  by (rule unit_properties_body_roundtrip)
     (simp_all add: wf_string_def wf_str_ascii fits_def ser_structure_def ser_string_def ser_u64_def
        push_signature_def adjust_padding_def sig_defs)

text \<open>
  C28. Decoding untrusted bytes terminates: on every buffer and at every counter
  \<open>Variant::deserialize\<close> returns (a value, an error or a panic), since the element loop of
  an array always moves forward; and when it succeeds the counter has advanced.
\<close>

theorem de_variant_terminates:
  "case de_variant buf c of Ok (v, c') \<Rightarrow> c < c' | Diverge \<Rightarrow> False | _ \<Rightarrow> True"
  using rd_variant.halts [of buf c] rd_variant.forward [of buf c] by (auto split: outcome.splits)

text \<open>
  C39. The signature byte of a variant is read without a bounds check: a buffer that ends where a
  variant should begin makes \<open>Variant::deserialize\<close> panic, where the decoders of the scalar types
  report an incomplete response.
\<close>

theorem de_variant_truncated_panics:
  assumes "length buf \<le> c"
  shows "de_variant buf c = Panic \<and> is_err (de_string buf c) \<and> is_err (de_bool buf c) \<and> is_err (de_u64 buf c)"
  using assms
  by (simp add: de_variant_def align_counter_pad index_at_def de_string_def de_bool_def de_u64_def is_err_def Let_def)

theorem de_variant_truncated_panics_witness:
  "de_variant [1, 115, 0] 3 = Panic \<and> is_err (de_string [1, 115, 0] 3) \<and> is_err (de_bool [1, 115, 0] 3)
     \<and> is_err (de_u64 [1, 115, 0] 3)"
  by (rule de_variant_truncated_panics) simp

end
