(* ===== verification/Dbus_Message.thy ===== *)
theory Dbus_Message
  imports Dbus_Serialize
begin

text \<open>
  D-Bus messages, \<open>libcgroups/src/systemd/dbus_native/message.rs\<close>: the preamble, the header fields
  and their types, and \<open>Message::serialize\<close> and \<open>Message::deserialize\<close>. The main lemma is that a
  well-formed message is read back from the bytes it is serialized to, at every 8-aligned position
  and before any further input, and that the reader stops at the message's last byte.
\<close>

section \<open>Data\<close>

datatype endian = Little | Big

definition endian_to_byte :: "endian \<Rightarrow> u8" where
  "endian_to_byte e = (case e of Big \<Rightarrow> 98 | Little \<Rightarrow> 108)"

definition endian_from_byte :: "u8 \<Rightarrow> (dbus_error, endian) outcome" where
  "endian_from_byte byte = (if byte = 108 then Ok Little else if byte = 98 then Ok Big else Panic)"

datatype header_signature = HSObject | HSU32 | HSString | HSSignature

definition header_signature_to_byte :: "header_signature \<Rightarrow> u8" where
  "header_signature_to_byte s =
     (case s of HSObject \<Rightarrow> 111 | HSSignature \<Rightarrow> 103 | HSString \<Rightarrow> 115 | HSU32 \<Rightarrow> 117)"

definition header_signature_from_byte :: "u8 \<Rightarrow> (dbus_error, header_signature) outcome" where
  "header_signature_from_byte byte =
     (if byte = 111 then Ok HSObject else if byte = 103 then Ok HSSignature
      else if byte = 115 then Ok HSString else if byte = 117 then Ok HSU32 else Panic)"

text \<open>The derived \<open>Debug\<close> output, which an error message quotes.\<close>

primrec debug_header_signature :: "header_signature \<Rightarrow> string" where
  "debug_header_signature HSObject = ''Object''"
| "debug_header_signature HSU32 = ''U32''"
| "debug_header_signature HSString = ''String''"
| "debug_header_signature HSSignature = ''Signature''"

datatype message_type = MethodCall | MethodReturn | ErrorMessage | Signal

datatype header_kind =
    Path | Interface | Member | ErrorName | ReplySerial | Destination | Sender | BodySignature | UnixFd

definition header_kind_signature :: "header_kind \<Rightarrow> header_signature" where
  "header_kind_signature k =
     (case k of Path \<Rightarrow> HSObject | ReplySerial \<Rightarrow> HSU32 | BodySignature \<Rightarrow> HSSignature
      | UnixFd \<Rightarrow> HSU32 | _ \<Rightarrow> HSString)"

datatype header_value = HString string | HU32 u32

primrec header_value_as_bytes :: "header_value \<Rightarrow> u8 list" where
  "header_value_as_bytes (HString s) = as_bytes s @ [0]"
| "header_value_as_bytes (HU32 v) = to_le_bytes 4 v"

primrec header_value_len :: "header_value \<Rightarrow> nat" where
  "header_value_len (HString s) = length s"
| "header_value_len (HU32 v) = 4"

record header =
  kind :: header_kind
  hvalue :: header_value

record preamble =
  endian :: endian
  mtype :: message_type
  flags :: u8
  version :: u8

definition preamble_new :: "message_type \<Rightarrow> preamble" where
  "preamble_new t = \<lparr>endian = Little, mtype = t, flags = 0, version = 1\<rparr>"

record message =
  preamble :: preamble
  serial :: u32
  headers :: "header list"
  body :: "u8 list"

definition message_new :: "message_type \<Rightarrow> u32 \<Rightarrow> header list \<Rightarrow> u8 list \<Rightarrow> message" where
  "message_new t n hs b = \<lparr>preamble = preamble_new t, serial = n, headers = hs, body = b\<rparr>"

section \<open>Headers\<close>

definition header_kind_from_byte :: "u8 \<Rightarrow> (dbus_error, header_kind) outcome" where
  "header_kind_from_byte v =
     (if v = 1 then Ok Path else if v = 2 then Ok Interface else if v = 3 then Ok Member
      else if v = 4 then Ok ErrorName else if v = 5 then Ok ReplySerial
      else if v = 6 then Ok Destination else if v = 7 then Ok Sender
      else if v = 8 then Ok BodySignature else if v = 9 then Ok UnixFd
      else Err (DeserializationError (''found invalid header kind value : '' @ nat_to_string (unat v))))"

definition parse_header_value :: "header_signature \<Rightarrow> header_value decoder" where
  "parse_header_value sg buf ctr =
     (case sg of
        HSU32 \<Rightarrow>
          if length buf < ctr + 4 then
            Err (DeserializationError ''incomplete response : partial header value'')
          else bind_outcome (slice_range buf ctr (ctr + 4)) (\<lambda>bs. Ok (HU32 (from_le_bytes bs), ctr + 4))
      | HSSignature \<Rightarrow>
          bind_outcome (index_at buf ctr) (\<lambda>b.
          let len = unat b; ctr = ctr + 1 in
          if length buf < ctr + len then
            Err (DeserializationError ''incomplete response : partial header value'')
          else
            bind_outcome (slice_range buf ctr (ctr + len)) (\<lambda>bs.
            bind_outcome (unwrap (from_utf8 bs)) (\<lambda>s. Ok (HString s, ctr + (len + 1)))))
      | _ \<Rightarrow>
          if length buf < ctr + 4 then
            Err (DeserializationError ''incomplete response : partial header value length'')
          else
            bind_outcome (slice_range buf ctr (ctr + 4)) (\<lambda>bs.
            let len = unat (from_le_bytes bs :: u32); ctr = ctr + 4 in
            if length buf < ctr + len then
              Err (DeserializationError ''incomplete response : partial header value'')
            else
              bind_outcome (slice_range buf ctr (ctr + len)) (\<lambda>bs.
              bind_outcome (unwrap (from_utf8 bs)) (\<lambda>s. Ok (HString s, ctr + (len + 1))))))"

definition parse_header :: "header decoder" where
  "parse_header buf ctr =
     bind_outcome (bind_outcome (index_at buf ctr) header_kind_from_byte) (\<lambda>k.
     let ctr = ctr + 1 in
     bind_outcome (index_at buf ctr) (\<lambda>signature_length.
     let ctr = ctr + 1 in
     if signature_length \<noteq> 1 then
       Err (IncompleteImplementation ''complex header type not supported'')
     else
       bind_outcome (bind_outcome (index_at buf ctr) header_signature_from_byte) (\<lambda>actual.
       let ctr = ctr + unat signature_length; expected = header_kind_signature k in
       if actual \<noteq> expected then
         Err (DeserializationError (''header signature mismatch, expected ''
           @ debug_header_signature expected @ '', found '' @ debug_header_signature actual))
       else
         let ctr = ctr + 1 in
         bind_outcome (parse_header_value expected buf ctr) (\<lambda>(v, ctr).
         Ok (\<lparr>kind = k, hvalue = v\<rparr>, ctr)))))"

definition header_kind_to_byte :: "header_kind \<Rightarrow> u8" where
  "header_kind_to_byte k =
     (case k of Path \<Rightarrow> 1 | Interface \<Rightarrow> 2 | Member \<Rightarrow> 3 | ErrorName \<Rightarrow> 4 | ReplySerial \<Rightarrow> 5
      | Destination \<Rightarrow> 6 | Sender \<Rightarrow> 7 | BodySignature \<Rightarrow> 8 | UnixFd \<Rightarrow> 9)"

definition serialize_header :: "header encoder" where
  "serialize_header h ret =
     (let ret = adjust_padding ret 8;
          header_kind = header_kind_to_byte (kind h);
          header_signature = header_signature_to_byte (header_kind_signature (kind h));
          signature_length = 1;
          ret = ret @ [header_kind, signature_length, header_signature, 0];
          header_value_length = of_nat (header_value_len (hvalue h)) :: u32;
          ret = (case kind h of
                   BodySignature \<Rightarrow> ret @ [ucast header_value_length]
                 | ReplySerial \<Rightarrow> ret
                 | UnixFd \<Rightarrow> ret
                 | _ \<Rightarrow> ret @ to_le_bytes 4 header_value_length)
      in ret @ header_value_as_bytes (hvalue h))"

definition serialize_headers :: "header list \<Rightarrow> u8 list" where
  "serialize_headers hs = foldl (\<lambda>ret h. serialize_header h ret) [] hs"

lemma parse_header_forward: "parse_header buf c = Ok (h, c') \<Longrightarrow> c < c'"
  by (auto simp: parse_header_def parse_header_value_def Let_def outcome_simps
      split: if_splits header_signature.splits)

text \<open>
  The loop of \<open>deserialize_headers\<close>. \<open>Header::parse\<close> advances the counter by at least four bytes
  when it succeeds, so every round ends nearer to the end of the buffer.
\<close>

function deserialize_headers_loop :: "u8 list \<Rightarrow> nat \<Rightarrow> (dbus_error, header list) outcome" where
  "deserialize_headers_loop buf ctr =
     (if ctr < length buf then
        bind_outcome (parse_header buf ctr) (\<lambda>(h, ctr').
          bind_outcome (deserialize_headers_loop buf (align_counter ctr' 8)) (\<lambda>ret. Ok (h # ret)))
      else Ok [])"
  by pat_completeness auto

termination
  by (relation "measure (\<lambda>(buf, ctr). length buf - ctr)")
     (auto simp: align_counter_pad dest!: parse_header_forward)

declare deserialize_headers_loop.simps [simp del]

definition deserialize_headers :: "u8 list \<Rightarrow> (dbus_error, header list) outcome" where
  "deserialize_headers buf = deserialize_headers_loop buf (align_counter 0 8)"

section \<open>Messages\<close>

definition message_type_to_byte :: "message_type \<Rightarrow> u8" where
  "message_type_to_byte t =
     (case t of MethodCall \<Rightarrow> 1 | MethodReturn \<Rightarrow> 2 | ErrorMessage \<Rightarrow> 3 | Signal \<Rightarrow> 4)"

definition message_type_from_byte :: "u8 \<Rightarrow> (dbus_error, message_type) outcome" where
  "message_type_from_byte v =
     (if v = 1 then Ok MethodCall else if v = 2 then Ok MethodReturn
      else if v = 3 then Ok ErrorMessage else if v = 4 then Ok Signal
      else Err (DeserializationError (''invalid message type '' @ nat_to_string (unat v))))"

definition message_serialize :: "message \<Rightarrow> u8 list" where
  "message_serialize m =
     (let mt = message_type_to_byte (mtype (preamble m));
          msg = [endian_to_byte (endian (preamble m)), mt, flags (preamble m), version (preamble m)];
          msg = msg @ to_le_bytes 4 (of_nat (length (body m)) :: u32);
          msg = msg @ to_le_bytes 4 (serial m);
          serialized_headers = serialize_headers (headers m);
          msg = msg @ to_le_bytes 4 (of_nat (length serialized_headers) :: u32);
          msg = msg @ serialized_headers;
          msg = adjust_padding msg 8
      in msg @ body m)"

definition read_u32_or :: "string \<Rightarrow> u32 decoder" where
  "read_u32_or msg buf counter =
     (if length buf < counter + 4 then Err (DeserializationError msg)
      else bind_outcome (slice_range buf counter (counter + 4)) (\<lambda>bs. Ok (from_le_bytes bs, counter + 4)))"

definition message_deserialize :: "message decoder" where
  "message_deserialize buf counter =
     bind_outcome (bind_outcome (index_at buf counter) endian_from_byte) (\<lambda>e.
     if e \<noteq> Little then Err (IncompleteImplementation ''big endian not supported'')
     else
     bind_outcome (bind_outcome (index_at buf (counter + 1)) message_type_from_byte) (\<lambda>mt.
     bind_outcome (index_at buf (counter + 2)) (\<lambda>fl.
     bind_outcome (index_at buf (counter + 3)) (\<lambda>ver.
     if ver \<noteq> 1 then Err (IncompleteImplementation ''only dbus protocol v1 is supported'')
     else
     let counter = counter + 4; pre = preamble_new mt in
     bind_outcome (read_u32_or ''incomplete response : partial body length'' buf counter) (\<lambda>(body_length, counter).
     bind_outcome (read_u32_or ''incomplete response : partial header serial'' buf counter) (\<lambda>(ser, counter).
     bind_outcome (read_u32_or ''incomplete response : partial header header array length'' buf counter)
       (\<lambda>(header_array_length, counter).
     if length buf < counter + unat header_array_length then
       Err (DeserializationError ''incomplete response : partial header array'')
     else
     bind_outcome (slice_range buf counter (counter + unat header_array_length)) (\<lambda>hbuf.
     bind_outcome (deserialize_headers hbuf) (\<lambda>hs.
     let counter = align_counter (counter + unat header_array_length) 8 in
     if length buf < counter + unat body_length then
       Err (DeserializationError ''incomplete response : partial body value'')
     else
     bind_outcome (slice_range buf counter (counter + unat body_length)) (\<lambda>b.
     Ok (\<lparr>preamble = pre, serial = ser, headers = hs, body = b\<rparr>, counter + unat body_length)))))))))))"

section \<open>Round trips\<close>

definition wf_header :: "header \<Rightarrow> bool" where
  "wf_header h \<longleftrightarrow>
     (case hvalue h of
        HU32 v \<Rightarrow> header_kind_signature (kind h) = HSU32
      | HString s \<Rightarrow> wf_str s \<and> header_kind_signature (kind h) \<noteq> HSU32
          \<and> length s < (if kind h = BodySignature then 2 ^ 8 else 2 ^ 32))"

definition body_header :: "header \<Rightarrow> u8 list" where
  "body_header h =
     [header_kind_to_byte (kind h), 1, header_signature_to_byte (header_kind_signature (kind h)), 0]
     @ (case kind h of
          BodySignature \<Rightarrow> [ucast (of_nat (header_value_len (hvalue h)) :: u32)]
        | ReplySerial \<Rightarrow> []
        | UnixFd \<Rightarrow> []
        | _ \<Rightarrow> to_le_bytes 4 (of_nat (header_value_len (hvalue h)) :: u32))
     @ header_value_as_bytes (hvalue h)"

text \<open>What the loop does in one round: align, then parse.\<close>

definition de_header :: "header decoder" where
  "de_header buf c = parse_header buf (align_counter c 8)"

lemma serialize_header_body:
  "serialize_header h ret = ret @ pad (length ret) 8 @ body_header h"
  by (simp add: serialize_header_def body_header_def adjust_padding_pad Let_def
      split: header_kind.split)

lemma byte_of_kind [simp]: "header_kind_from_byte (header_kind_to_byte k) = Ok k"
  by (cases k) (simp_all add: header_kind_from_byte_def header_kind_to_byte_def)

lemma byte_of_signature [simp]: "header_signature_from_byte (header_signature_to_byte s) = Ok s"
  by (cases s) (simp_all add: header_signature_from_byte_def header_signature_to_byte_def)

lemma byte_of_message_type [simp]: "message_type_from_byte (message_type_to_byte t) = Ok t"
  by (cases t) (simp_all add: message_type_from_byte_def message_type_to_byte_def)

lemma index_at_append:
  "i < length xs \<Longrightarrow> index_at (pre @ xs @ post) (length pre + i) = Ok (xs ! i)"
  by (simp add: index_at_def nth_append)

lemma unat_ucast_of_nat_u8: "n < 256 \<Longrightarrow> unat (ucast (of_nat n :: u32) :: u8) = n"
  by (simp add: unsigned_ucast_eq unsigned_of_nat take_bit_nat_eq_self)

lemma parse_header_value_body:
  assumes "wf_header h"
  shows "parse_header_value (header_kind_signature (kind h)) (pre @ drop 4 (body_header h) @ post) (length pre)
     = Ok (hvalue h, length pre + length (drop 4 (body_header h)))"
  using assms
  by (cases "kind h"; cases "hvalue h")
     (simp_all add: body_header_def wf_header_def header_kind_signature_def parse_header_value_def
        slice_range_def Let_def unat_ucast_of_nat_u8)

lemma parse_header_body:
  assumes "wf_header h"
  shows "parse_header (pre @ body_header h @ post) (length pre)
     = Ok (h, length pre + length (body_header h))"
proof -
  let ?hd = "[header_kind_to_byte (kind h), 1,
      header_signature_to_byte (header_kind_signature (kind h)), 0]"
  obtain r where r: "body_header h = ?hd @ r" by (simp add: body_header_def)
  show ?thesis
    using parse_header_value_body [OF assms, of "pre @ ?hd" post]
    by (simp add: r parse_header_def index_at_def nth_append Let_def)
qed

lemma body_header_not_Nil [simp]: "body_header h \<noteq> []"
  by (simp add: body_header_def)

lemma header_codec: "dbus_elem serialize_header de_header wf_header 8"
proof (rule padded_elem [where body = body_header])
  fix h pre post
  assume "wf_header h"
  then show "de_header (pre @ pad (length pre) 8 @ body_header h @ post) (length pre)
      = Ok (h, length pre + pad_len (length pre) 8 + length (body_header h))"
    using parse_header_body [of h "pre @ pad (length pre) 8" post]
    by (simp add: de_header_def align_counter_pad)
qed (simp_all add: serialize_header_body)

interpretation hdr: dbus_elem serialize_header de_header wf_header 8
  by (rule header_codec)

lemma deserialize_headers_loop_enc:
  assumes "\<forall>h \<in> set hs. wf_header h"
  shows "deserialize_headers_loop (pre @ enc_list serialize_header (length pre) hs)
    (align_counter (length pre) 8) = Ok hs"
  using assms
proof (induction hs arbitrary: pre)
  case Nil
  then show ?case by (simp add: deserialize_headers_loop.simps align_counter_pad)
next
  case (Cons h hs)
  let ?n = "length pre" and ?e = "enc_at serialize_header (length pre) h"
  let ?buf = "pre @ enc_list serialize_header ?n (h # hs)"
  have e: "?e = pad ?n 8 @ body_header h"
    by (rule enc_at_eqI) (rule serialize_header_body)
  have "parse_header ?buf (align_counter ?n 8) = Ok (h, ?n + length ?e)"
    using hdr.de_enc [of h pre] Cons.prems by (simp add: de_header_def)
  moreover have "align_counter ?n 8 < length ?buf"
    by (simp add: align_counter_pad e)
  moreover have "deserialize_headers_loop ?buf (align_counter (?n + length ?e) 8) = Ok hs"
    using Cons.IH [of "pre @ ?e"] Cons.prems by simp
  ultimately show ?case
    by (subst deserialize_headers_loop.simps) simp
qed

lemma deserialize_serialize_headers:
  "\<forall>h \<in> set hs. wf_header h \<Longrightarrow> deserialize_headers (serialize_headers hs) = Ok hs"
  using deserialize_headers_loop_enc [of hs "[]"]
  by (simp add: serialize_headers_def hdr.foldl_ser deserialize_headers_def)

definition wf_message :: "message \<Rightarrow> bool" where
  "wf_message m \<longleftrightarrow>
     preamble m = preamble_new (mtype (preamble m)) \<and> list_all wf_header (headers m)
     \<and> length (serialize_headers (headers m)) < 2 ^ 32 \<and> length (body m) < 2 ^ 32"

lemma read_u32_or_le:
  "read_u32_or e (pre @ to_le_bytes 4 w @ post) (length pre) = Ok (w, length pre + 4)"
  by (simp add: read_u32_or_def slice_range_def)

lemma message_serialize_parts:
  "message_serialize m =
     [endian_to_byte (endian (preamble m)), message_type_to_byte (mtype (preamble m)),
      flags (preamble m), version (preamble m)]
     @ to_le_bytes 4 (of_nat (length (body m)) :: u32) @ to_le_bytes 4 (serial m)
     @ to_le_bytes 4 (of_nat (length (serialize_headers (headers m))) :: u32)
     @ serialize_headers (headers m) @ pad (16 + length (serialize_headers (headers m))) 8 @ body m"
  by (simp add: message_serialize_def Let_def adjust_padding_pad)

text \<open>Reading a message whose parts are laid out one after the other.\<close>

lemma message_deserialize_parts:
  fixes H B pre post :: "u8 list" and ser :: u32
  assumes "length pre mod 8 = 0" and "length H < 2 ^ 32" and "length B < 2 ^ 32"
    and hs: "deserialize_headers H = Ok hs"
    and b1: "b1 = pre @ [108, message_type_to_byte t, fl, 1]"
    and b2: "b2 = b1 @ to_le_bytes 4 (of_nat (length B) :: u32)"
    and b3: "b3 = b2 @ to_le_bytes 4 ser"
    and b4: "b4 = b3 @ to_le_bytes 4 (of_nat (length H) :: u32)"
    and b5: "b5 = b4 @ H @ pad (16 + length H) 8"
    and buf: "buf = b5 @ B @ post"
  shows "message_deserialize buf (length pre) = Ok (message_new t ser hs B, length b5 + length B)"
proof -
  have r1: "read_u32_or e buf (length pre + 4) = Ok (of_nat (length B), length b2)" for e
  proof -
    have "length b1 = length pre + 4" by (simp add: b1)
    then show ?thesis
      using read_u32_or_le [of e b1 "of_nat (length B)"] by (simp add: buf b5 b4 b3 b2)
  qed
  have r2: "read_u32_or e buf (length b2) = Ok (ser, length b3)" for e
    using read_u32_or_le [of e b2 ser] by (simp add: buf b5 b4 b3)
  have r3: "read_u32_or e buf (length b3) = Ok (of_nat (length H), length b4)" for e
    using read_u32_or_le [of e b3 "of_nat (length H)"] by (simp add: buf b5 b4)
  have "(length pre + (16 + length H)) mod 8 = (0 + (16 + length H)) mod 8"
    using assms(1) by (metis mod_add_left_eq mod_0)
  then have "pad_len (length b4 + length H) 8 = pad_len (16 + length H) 8"
    by (intro pad_len_mod) (simp add: b4 b3 b2 b1 add.assoc)
  then have al: "align_counter (length b4 + length H) 8 = length b5"
    by (simp add: align_counter_pad b5)
  have idx: "index_at buf (length pre) = (Ok 108 :: (dbus_error, u8) outcome)"
    "index_at buf (length pre + 1) = (Ok (message_type_to_byte t) :: (dbus_error, u8) outcome)"
    "index_at buf (length pre + 2) = (Ok fl :: (dbus_error, u8) outcome)"
    "index_at buf (length pre + 3) = (Ok 1 :: (dbus_error, u8) outcome)"
    by (simp_all add: buf b5 b4 b3 b2 b1 index_at_def nth_append)
  have s1: "slice_range buf (length b4) (length b4 + length H) = (Ok H :: (dbus_error, u8 list) outcome)"
    by (simp add: buf b5 slice_middle)
  have s2: "slice_range buf (length b5) (length b5 + length B) = (Ok B :: (dbus_error, u8 list) outcome)"
    by (simp add: buf slice_middle)
  have len: "\<not> length buf < length b4 + length H" "\<not> length buf < length b5 + length B"
    by (simp_all add: buf b5)
  show ?thesis
    using assms(2,3) len
    by (simp only: message_deserialize_def idx bind_outcome.simps endian_from_byte_def
        byte_of_message_type r1 r2 r3 s1 s2 hs al Let_def unat_of_nat_u32 split_conv)
       (simp add: message_new_def)
qed

lemma message_roundtrip_at:
  assumes "wf_message m" and "length pre mod 8 = 0"
  shows "message_deserialize (pre @ message_serialize m @ post) (length pre)
    = Ok (m, length pre + length (message_serialize m))"
proof -
  have pm: "preamble m = preamble_new (mtype (preamble m))" using assms(1) by (simp add: wf_message_def)
  have fields: "endian (preamble m) = Little" "flags (preamble m) = 0" "version (preamble m) = 1"
    by (subst pm, simp add: preamble_new_def)+
  have m: "message_new (mtype (preamble m)) (serial m) (headers m) (body m) = m"
    by (simp add: message_new_def pm [symmetric])
  have "deserialize_headers (serialize_headers (headers m)) = Ok (headers m)"
    using assms(1) by (intro deserialize_serialize_headers) (simp add: wf_message_def list_all_iff)
  from message_deserialize_parts [OF assms(2) _ _ this refl refl refl refl refl refl,
      of "body m" "mtype (preamble m)" 0 "serial m" post] assms(1)
  show ?thesis
    by (simp add: m message_serialize_parts fields endian_to_byte_def wf_message_def add.assoc)
qed

section \<open>Prefixes\<close>

lemma ok_le_read_u32_or: "ok_le (read_u32_or e buf i) (read_u32_or e (buf @ post) i)"
  unfolding read_u32_or_def by (intro ok_le_intros ok_le_refl) simp

text \<open>A message that was read completely is read the same when more input follows.\<close>

lemma message_deserialize_mono: "ok_le (message_deserialize buf c) (message_deserialize (buf @ post) c)"
  unfolding message_deserialize_def Let_def
  by (intro ok_le_intros ok_le_read_u32_or ok_le_refl) simp_all

lemma message_deserialize_end: "ok_all (\<lambda>(m, c'). c' \<le> length buf) (message_deserialize buf c)"
  unfolding message_deserialize_def Let_def
  by (intro ok_all_intros) simp_all

section \<open>Properties\<close>

text \<open>
  C1. Round trip of D-Bus messages: \<open>Message::deserialize\<close> reads back every well-formed message
  from the bytes \<open>Message::serialize\<close> produced, at any 8-aligned position of a buffer and whatever
  follows, and stops exactly behind the message.
\<close>

theorem message_roundtrip:
  assumes "wf_message m" and "length pre mod 8 = 0"
  shows "message_deserialize (pre @ message_serialize m @ post) (length pre)
    = Ok (m, length pre + length (message_serialize m))"
  using assms by (rule message_roundtrip_at)

definition demo_message :: message where
  "demo_message = message_new MethodReturn 7
     [\<lparr>kind = ReplySerial, hvalue = HU32 3\<rparr>, \<lparr>kind = BodySignature, hvalue = HString ''s''\<rparr>]
     (ser_string ''ok'' [])"

lemma wf_demo_message: "wf_message demo_message"
  by (simp add: demo_message_def message_new_def wf_message_def preamble_new_def wf_header_def
      header_kind_signature_def wf_str_ascii serialize_headers_def serialize_header_def
      adjust_padding_def ser_string_def as_bytes_def Let_def)

theorem message_roundtrip_witness:
  "message_deserialize ([] @ message_serialize demo_message @ [1, 2]) (length ([] :: u8 list))
    = Ok (demo_message, length ([] :: u8 list) + length (message_serialize demo_message))"
  by (rule message_roundtrip) (simp_all add: wf_demo_message)

text \<open>
  C0. No truncation is mistaken for a message: none of the proper prefixes of a serialized message
  deserializes, so a short read cannot be taken for a complete reply.
\<close>

theorem message_prefix_rejected:
  assumes "wf_message m" and "k < length (message_serialize m)"
  shows "\<not> is_ok (message_deserialize (take k (message_serialize m)) 0)"
proof
  assume "is_ok (message_deserialize (take k (message_serialize m)) 0)"
  then obtain m' c where r: "message_deserialize (take k (message_serialize m)) 0 = Ok (m', c)"
    by (auto simp: is_ok_def split: outcome.splits)
  have "message_deserialize (message_serialize m) 0 = Ok (m, length (message_serialize m))"
    using message_roundtrip_at [OF assms(1), of "[]" "[]"] by simp
  with ok_leD [OF message_deserialize_mono r, of "drop k (message_serialize m)"]
  have "c = length (message_serialize m)" by auto
  moreover have "c \<le> length (take k (message_serialize m))"
    using ok_allD [OF message_deserialize_end r] by simp
  ultimately show False using assms(2) by simp
qed

theorem message_prefix_rejected_witness:
  "\<not> is_ok (message_deserialize (take 20 (message_serialize demo_message)) 0)"
  by (rule message_prefix_rejected)
     (simp_all add: wf_demo_message, simp add: demo_message_def message_new_def message_serialize_parts
        serialize_headers_def serialize_header_def adjust_padding_def Let_def)

text \<open>
  C0. The flag for big-endian messages is compared with a lower-case letter: a message that starts
  with the flag \<open>B\<close> of the D-Bus protocol makes \<open>Message::deserialize\<close> panic, and the error for
  unsupported big-endian messages is returned for the letter \<open>b\<close> only.
\<close>

theorem big_endian_flag_panics:
  "message_deserialize (66 # buf) 0 = Panic
   \<and> message_deserialize (98 # buf) 0 = Err (IncompleteImplementation ''big endian not supported'')"
  by (simp add: message_deserialize_def index_at_def endian_from_byte_def)

end
