(* ===== verification/Dbus_Connection.thy ===== *)
theory Dbus_Connection
  imports Dbus_Message
begin

text \<open>
  The D-Bus client, \<open>libcgroups/src/systemd/dbus_native/dbus.rs\<close> and \<open>proxy.rs\<close>: bus addresses, the
  connection and its authentication, the framing of messages on the socket, \<open>send_message\<close>, the
  method calls of the proxy and the \<open>SystemdClient\<close> operations built from them.

  The kernel and the process environment are the fields of the record \<open>dbus_env\<close>, over a state \<open>'w\<close>
  of the world that every call threads. A call is a function of the world whose result is \<open>None\<close>
  when it never returns: \<open>read_exact\<close> retries for as long as \<open>recv\<close> is interrupted and \<open>send_message\<close>
  reads for as long as the peer sends signals. \<open>stream_socket\<close> states what \<open>recv\<close> promises on a
  connected stream socket, and under it both loops return and the framing is exact.
\<close>

section \<open>The environment\<close>

datatype 'a sys_result = SysOk 'a | SysErr nat

type_synonym ('w, 'a) io = "'w \<Rightarrow> ((dbus_error, 'a) outcome \<times> 'w) option"

definition io_return :: "'a \<Rightarrow> ('w, 'a) io" where
  "io_return x w = Some (Ok x, w)"

definition io_lift :: "(dbus_error, 'a) outcome \<Rightarrow> ('w, 'a) io" where
  "io_lift r w = Some (r, w)"

definition io_bind :: "('w, 'a) io \<Rightarrow> ('a \<Rightarrow> ('w, 'b) io) \<Rightarrow> ('w, 'b) io" where
  "io_bind m f w =
     (case m w of
        None \<Rightarrow> None
      | Some (Ok x, w') \<Rightarrow> f x w'
      | Some (Err e, w') \<Rightarrow> Some (Err e, w')
      | Some (Panic, w') \<Rightarrow> Some (Panic, w')
      | Some (Diverge, w') \<Rightarrow> Some (Diverge, w'))"

text \<open>A system call with \<open>?\<close> after it: the errno becomes \<open>DbusError::Nix\<close>.\<close>

definition io_sys :: "('w \<Rightarrow> 'a sys_result \<times> 'w) \<Rightarrow> ('w, 'a) io" where
  "io_sys c w = (case c w of (SysOk x, w') \<Rightarrow> Some (Ok x, w') | (SysErr e, w') \<Rightarrow> Some (Err (Nix e), w'))"

record 'w dbus_env =
  sys_socket :: "'w \<Rightarrow> int sys_result \<times> 'w"
  unix_addr_new :: "string \<Rightarrow> 'w \<Rightarrow> string sys_result \<times> 'w"
  sys_connect :: "int \<Rightarrow> string \<Rightarrow> 'w \<Rightarrow> unit sys_result \<times> 'w"
  sys_set_receive_timeout :: "int \<Rightarrow> int \<Rightarrow> 'w \<Rightarrow> unit sys_result \<times> 'w"
  sys_send :: "int \<Rightarrow> u8 list \<Rightarrow> 'w \<Rightarrow> nat sys_result \<times> 'w"
  sys_sendmsg :: "int \<Rightarrow> u8 list \<Rightarrow> 'w \<Rightarrow> nat sys_result \<times> 'w"
  sys_recv :: "int \<Rightarrow> nat \<Rightarrow> 'w \<Rightarrow> u8 list sys_result \<times> 'w"
  env_var :: "string \<Rightarrow> string option"
  path_exists :: "string \<Rightarrow> bool"
  uid_is_root :: bool
  busctl_status :: "(string, u8 list) sum"
  debug_messages :: "message list \<Rightarrow> string"

definition EINTR :: nat where "EINTR = 4"

definition RECV_TIMEOUT_SECS :: int where "RECV_TIMEOUT_SECS = 10"

definition SYSTEMD_PRIVATE_SOCKET :: string where "SYSTEMD_PRIVATE_SOCKET = ''/run/systemd/private''"

definition DEVICE_ALLOW :: string where "DEVICE_ALLOW = ''DeviceAllow''"

record dbus_connection =
  system :: bool
  socket :: int
  conn_id :: "string option"
  msg_ctr :: u32

section \<open>Bus addresses and the user id\<close>

definition hex_digit :: "nat \<Rightarrow> char" where
  "hex_digit d = char_of (if d < 10 then 48 + d else 87 + d)"

fun nat_to_hex :: "nat \<Rightarrow> string" where
  "nat_to_hex n = (if n < 16 then [hex_digit n] else nat_to_hex (n div 16) @ [hex_digit (n mod 16)])"

declare nat_to_hex.simps [simp del]

definition uid_to_hex_str :: "u32 \<Rightarrow> string" where
  "uid_to_hex_str uid = concat (map (\<lambda>c. nat_to_hex (of_char c)) (nat_to_string (unat uid)))"

definition strip_prefix :: "string \<Rightarrow> string \<Rightarrow> string option" where
  "strip_prefix p s = (if prefix p s then Some (drop (length p) s) else None)"

fun parse_dbus_address_loop :: "(string \<Rightarrow> bool) \<Rightarrow> string list \<Rightarrow> string option" where
  "parse_dbus_address_loop exists [] = None"
| "parse_dbus_address_loop exists (addr # addrs) =
     (case strip_prefix ''unix:path='' addr of
        Some s \<Rightarrow> if \<not> exists s then parse_dbus_address_loop exists addrs else Some s
      | None \<Rightarrow>
          (case strip_prefix ''unix:abstract='' addr of
             Some s \<Rightarrow> Some s
           | None \<Rightarrow> parse_dbus_address_loop exists addrs))"

definition parse_dbus_address :: "(string \<Rightarrow> bool) \<Rightarrow> string \<Rightarrow> (dbus_error, string) outcome" where
  "parse_dbus_address exists env_value =
     ok_or (BusAddressError (''no valid bus path found in list '' @ env_value))
       (parse_dbus_address_loop exists (split_on CHR '';'' env_value))"

definition get_session_bus_address :: "'w dbus_env \<Rightarrow> (dbus_error, string) outcome" where
  "get_session_bus_address env =
     (case env_var env ''DBUS_SESSION_BUS_ADDRESS'' of
        Some s \<Rightarrow> parse_dbus_address (path_exists env) s
      | None \<Rightarrow>
          (case env_var env ''XDG_RUNTIME_DIR'' of
             Some s \<Rightarrow>
               let s = s @ ''/bus'' in
               if \<not> path_exists env s then
                 Err (BusAddressError (''session bus address '' @ s @ '' does not exist''))
               else Ok s
           | None \<Rightarrow> Err (BusAddressError ''could not find dbus session bus address from env'')))"

definition get_system_bus_address :: "'w dbus_env \<Rightarrow> (dbus_error, string) outcome" where
  "get_system_bus_address env =
     (case env_var env ''DBUS_SYSTEM_BUS_ADDRESS'' of
        Some s \<Rightarrow> parse_dbus_address (path_exists env) s
      | None \<Rightarrow> Ok ''/var/run/dbus/system_bus_socket'')"

definition get_actual_uid :: "'w dbus_env \<Rightarrow> (dbus_error, u32) outcome" where
  "get_actual_uid env =
     (case busctl_status env of
        Inl e \<Rightarrow> Err (BusctlError e)
      | Inr out \<Rightarrow>
          (let stdout = from_utf8_lossy out in
           bind_outcome
             (ok_or (BusctlError ''could not find OwnerUID from busctl'')
               (find (\<lambda>s. prefix ''OwnerUID='' s) (str_lines stdout))) (\<lambda>found.
           bind_outcome (map_err UidError (parse_u32 (trim_start_matches ''OwnerUID='' found))) (\<lambda>uid.
           Ok (of_nat uid)))))"

section \<open>The connection\<close>

definition connect :: "'w dbus_env \<Rightarrow> string \<Rightarrow> bool \<Rightarrow> ('w, dbus_connection) io" where
  "connect env addr sys =
     io_bind (io_sys (sys_socket env)) (\<lambda>fd.
     io_bind (io_sys (unix_addr_new env addr)) (\<lambda>unix_addr.
     io_bind (io_sys (sys_connect env fd unix_addr)) (\<lambda>_.
     io_bind (io_sys (sys_set_receive_timeout env fd RECV_TIMEOUT_SECS)) (\<lambda>_.
     io_return \<lparr>system = sys, socket = fd, conn_id = None, msg_ctr = 0\<rparr>))))"

text \<open>\<open>recv\<close> into a zeroed buffer of 64 bytes leaves zeros after what arrived; the filter drops them.\<close>

definition auth :: "'w dbus_env \<Rightarrow> dbus_connection \<Rightarrow> u32 \<Rightarrow> ('w, unit) io" where
  "auth env conn uid =
     io_bind (io_sys (sys_send env (socket conn) [0])) (\<lambda>_.
     let msg = ''AUTH EXTERNAL '' @ uid_to_hex_str uid @ [CHR 0x0D, CHR 0x0A] in
     io_bind (io_sys (sys_send env (socket conn) (as_bytes msg))) (\<lambda>_.
     io_bind (io_sys (sys_recv env (socket conn) 64)) (\<lambda>received.
     let buf = received @ replicate (64 - length received) 0;
         reply = from_utf8_lossy (filter (\<lambda>v. v \<noteq> 0) buf) in
     if \<not> prefix ''OK'' reply then
       io_lift (Err (AuthenticationErr (''Authentication failed, got message : '' @ reply)))
     else
       io_bind (io_sys (sys_send env (socket conn) (as_bytes (''BEGIN'' @ [CHR 0x0D, CHR 0x0A])))) (\<lambda>_.
       io_return ()))))"

partial_function (option) read_exact ::
    "'w dbus_env \<Rightarrow> int \<Rightarrow> nat \<Rightarrow> u8 list \<Rightarrow> 'w \<Rightarrow> ((dbus_error, u8 list) outcome \<times> 'w) option" where
  "read_exact env fd n buf w =
     (if length buf < n then
        (case sys_recv env fd (n - length buf) w of
           (SysOk bs, w') \<Rightarrow>
             if length bs = 0 then Some (Err (ConnectionError ''connection closed unexpectedly''), w')
             else read_exact env fd n (buf @ bs) w'
         | (SysErr e, w') \<Rightarrow>
             if e = EINTR then read_exact env fd n buf w' else Some (Err (Nix e), w'))
      else Some (Ok buf, w))"

definition align_header_len :: "nat \<Rightarrow> nat" where
  "align_header_len n = unat ((of_nat (n + 7) :: u64) AND NOT 7)"

definition read_one_message :: "'w dbus_env \<Rightarrow> dbus_connection \<Rightarrow> ('w, u8 list) io" where
  "read_one_message env conn =
     io_bind (read_exact env (socket conn) 16 []) (\<lambda>fixed.
     io_bind (io_lift (slice_range fixed 4 8)) (\<lambda>b1.
     io_bind (io_lift (slice_range fixed 12 16)) (\<lambda>b2.
     let body_len = unat (from_le_bytes b1 :: u32);
         header_array_len = unat (from_le_bytes b2 :: u32);
         aligned_header_len = align_header_len header_array_len in
     io_bind (read_exact env (socket conn) (aligned_header_len + body_len) []) (\<lambda>rest.
     io_return (fixed @ rest)))))"

definition get_msg_id :: "dbus_connection \<Rightarrow> u32 \<times> dbus_connection" where
  "get_msg_id conn = (let old_ctr = msg_ctr conn in (old_ctr + 1, conn\<lparr>msg_ctr := old_ctr + 1\<rparr>))"

definition is_final :: "message \<Rightarrow> bool" where
  "is_final msg \<longleftrightarrow> mtype (preamble msg) = MethodReturn \<or> mtype (preamble msg) = ErrorMessage"

partial_function (option) reply_loop ::
    "'w dbus_env \<Rightarrow> dbus_connection \<Rightarrow> message_type \<Rightarrow> message list \<Rightarrow> 'w
     \<Rightarrow> ((dbus_error, message list) outcome \<times> 'w) option" where
  "reply_loop env conn mt ret w =
     (case read_one_message env conn w of
        None \<Rightarrow> None
      | Some (r, w') \<Rightarrow>
          (case bind_outcome r (\<lambda>msg_bytes. message_deserialize msg_bytes 0) of
             Ok (msg, ctr) \<Rightarrow>
               if mt \<noteq> MethodCall \<or> is_final msg then Some (Ok (ret @ [msg]), w')
               else reply_loop env conn mt (ret @ [msg]) w'
           | Err e \<Rightarrow> Some (Err e, w')
           | Panic \<Rightarrow> Some (Panic, w')
           | Diverge \<Rightarrow> Some (Diverge, w')))"

text \<open>
  The counter of the connection is an atomic that \<open>&self\<close> methods change, so from here on a call
  threads the connection together with the world.
\<close>

definition with_conn :: "dbus_connection \<Rightarrow> ('w, 'a) io \<Rightarrow> 'w \<Rightarrow> ((dbus_error, 'a) outcome \<times> dbus_connection \<times> 'w) option" where
  "with_conn conn m w = map_option (\<lambda>(r, w'). (r, conn, w')) (m w)"

definition send_message ::
    "'w dbus_env \<Rightarrow> message_type \<Rightarrow> header list \<Rightarrow> u8 list \<Rightarrow> (dbus_connection \<times> 'w, message list) io" where
  "send_message env mt hs b = (\<lambda>(conn, w).
     (let hs = (case conn_id conn of
                  Some s \<Rightarrow> hs @ [\<lparr>kind = Sender, hvalue = HString s\<rparr>] | None \<Rightarrow> hs);
          (msg_id, conn) = get_msg_id conn;
          serialized = message_serialize (message_new mt msg_id hs b)
      in with_conn conn
           (io_bind (io_sys (sys_sendmsg env (socket conn) serialized)) (\<lambda>_. reply_loop env conn mt [])) w))"

definition hello :: "'w dbus_env \<Rightarrow> (dbus_connection \<times> 'w, unit) io" where
  "hello env =
     (let hs = [\<lparr>kind = Path, hvalue = HString ''/org/freedesktop/DBus''\<rparr>,
                \<lparr>kind = Destination, hvalue = HString ''org.freedesktop.DBus''\<rparr>,
                \<lparr>kind = Interface, hvalue = HString ''org.freedesktop.DBus''\<rparr>,
                \<lparr>kind = Member, hvalue = HString ''Hello''\<rparr>]
      in io_bind (send_message env MethodCall hs []) (\<lambda>res.
         let res = filter (\<lambda>m. mtype (preamble m) = MethodReturn) res in
         case res of
           [] \<Rightarrow> io_lift (Err (AuthenticationErr
             (''expected Hello call to have reply, found no reply message, got ''
              @ debug_messages env res @ '' instead'')))
         | m # _ \<Rightarrow>
             io_bind (io_lift (de_string (body m) 0)) (\<lambda>(name, ctr).
             (\<lambda>(conn, w). Some (Ok (), conn\<lparr>conn_id := Some name\<rparr>, w)))))"

definition connection_new :: "'w dbus_env \<Rightarrow> string \<Rightarrow> u32 \<Rightarrow> bool \<Rightarrow> ('w, dbus_connection) io" where
  "connection_new env addr uid sys =
     io_bind (connect env addr sys) (\<lambda>conn.
     io_bind (auth env conn uid) (\<lambda>_.
     (\<lambda>w. map_option (\<lambda>(r, conn', w'). (bind_outcome r (\<lambda>_. Ok conn'), w')) (hello env (conn, w)))))"

definition new_direct :: "'w dbus_env \<Rightarrow> string \<Rightarrow> bool \<Rightarrow> ('w, dbus_connection) io" where
  "new_direct env addr sys =
     io_bind (connect env addr sys) (\<lambda>conn.
     io_bind (auth env conn 0) (\<lambda>_. io_return conn))"

definition new_system :: "'w dbus_env \<Rightarrow> ('w, dbus_connection) io" where
  "new_system env w =
     (case io_bind (io_lift (get_system_bus_address env)) (\<lambda>addr. connection_new env addr 0 True) w of
        Some (Err e, w') \<Rightarrow>
          if uid_is_root env \<and> path_exists env SYSTEMD_PRIVATE_SOCKET
          then new_direct env SYSTEMD_PRIVATE_SOCKET True w'
          else Some (Err (BusAddressError ''could not connect to system bus or systemd private socket''), w')
      | r \<Rightarrow> r)"

definition new_session :: "'w dbus_env \<Rightarrow> ('w, dbus_connection) io" where
  "new_session env =
     io_bind (io_lift (get_session_bus_address env)) (\<lambda>addr.
     io_bind (io_lift (get_actual_uid env)) (\<lambda>uid.
     connection_new env addr uid False))"

section \<open>Method calls\<close>

definition check_signature_compatibility :: "string \<Rightarrow> string \<Rightarrow> bool" where
  "check_signature_compatibility actual expected =
     (if actual = expected then True
      else if expected = ''s'' \<and> (actual = ''s'' \<or> actual = ''o'') then True
      else False)"

record proxy =
  dest :: string
  path :: string

definition create_proxy :: proxy where
  "create_proxy = \<lparr>dest = ''org.freedesktop.systemd1'', path = ''/org/freedesktop/systemd1''\<rparr>"

text \<open>The derived \<open>Debug\<close> output of a byte vector.\<close>

definition debug_bytes :: "u8 list \<Rightarrow> string" where
  "debug_bytes bs = ''['' @ join_with '', '' (map (\<lambda>b. nat_to_string (unat b)) bs) @ '']''"

definition handle_reply ::
    "(message list \<Rightarrow> string) \<Rightarrow> string \<Rightarrow> 'o decoder \<Rightarrow> message list \<Rightarrow> (dbus_error, 'o) outcome" where
  "handle_reply dbg sig_out de_out reply_messages =
     (case filter (\<lambda>m. mtype (preamble m) = ErrorMessage) reply_messages of
        msg # _ \<Rightarrow>
          if body msg = [] then Err (MethodCallErr ''Unknown Dbus Error'')
          else bind_outcome (de_string (body msg) 0) (\<lambda>(reason, ctr). Err (MethodCallErr reason))
      | [] \<Rightarrow>
          (case filter (\<lambda>m. mtype (preamble m) = MethodReturn) reply_messages of
             [] \<Rightarrow> Err (MethodCallErr
               (''expected to get a reply for method call, got '' @ dbg reply_messages @ '' instead''))
           | reply # _ \<Rightarrow>
               (let signature_header = filter (\<lambda>h. kind h = BodySignature) (headers reply) in
                if signature_header = [] \<and> body reply \<noteq> [] then
                  Err (MethodCallErr ''Body non empty, but body signature header missing'')
                else if sig_out = [] then map_outcome fst (de_out [] 0)
                else
                  bind_outcome (index_at signature_header 0) (\<lambda>h.
                  bind_outcome (case hvalue h of HString s \<Rightarrow> Ok s | HU32 v \<Rightarrow> Panic) (\<lambda>actual.
                  if \<not> check_signature_compatibility actual sig_out then
                    Err (DeserializationError (''reply signature mismatch : expected '' @ sig_out
                      @ '', found '' @ actual @ '' : '' @ [CHR 0x0A] @ debug_bytes (body reply)))
                  else map_outcome fst (de_out (body reply) 0))))))"

text \<open>
  The body is the signature of its type and the bytes \<open>serialize\<close> writes into an empty vector.
\<close>

definition method_call ::
    "'w dbus_env \<Rightarrow> proxy \<Rightarrow> string \<Rightarrow> string \<Rightarrow> (string \<times> u8 list) option \<Rightarrow> string \<Rightarrow> 'o decoder
     \<Rightarrow> (dbus_connection \<times> 'w, 'o) io" where
  "method_call env p interface member b sig_out de_out =
     (let hs = [\<lparr>kind = Path, hvalue = HString (path p)\<rparr>,
                \<lparr>kind = Destination, hvalue = HString (dest p)\<rparr>,
                \<lparr>kind = Interface, hvalue = HString interface\<rparr>,
                \<lparr>kind = Member, hvalue = HString member\<rparr>];
          (hs, serialized_body) =
            (case b of
               Some (sg, bytes) \<Rightarrow> (hs @ [\<lparr>kind = BodySignature, hvalue = HString sg\<rparr>], bytes)
             | None \<Rightarrow> (hs, []))
      in io_bind (send_message env MethodCall hs serialized_body) (\<lambda>reply_messages.
         io_lift (handle_reply (debug_messages env) sig_out de_out reply_messages)))"

definition MANAGER_IFACE :: string where "MANAGER_IFACE = ''org.freedesktop.systemd1.Manager''"

definition get_unit :: "'w dbus_env \<Rightarrow> proxy \<Rightarrow> string \<Rightarrow> (dbus_connection \<times> 'w, string) io" where
  "get_unit env p name =
     method_call env p MANAGER_IFACE ''GetUnit'' (Some (sig_string, ser_string name [])) sig_string de_string"

definition start_transient_unit ::
    "'w dbus_env \<Rightarrow> proxy \<Rightarrow> string \<Rightarrow> string \<Rightarrow> variant structure_rec list
     \<Rightarrow> variant structure_rec list structure_rec list \<Rightarrow> (dbus_connection \<times> 'w, string) io" where
  "start_transient_unit env p name mode properties aux =
     method_call env p MANAGER_IFACE ''StartTransientUnit''
       (Some (sig_tuple4 sig_string sig_string (sig_vec (sig_structure sig_variant))
                (sig_vec (sig_structure (sig_vec (sig_structure sig_variant)))),
              ser_tuple4 ser_string ser_string (ser_vec (ser_structure ser_variant) al_structure)
                (ser_vec (ser_structure (ser_vec (ser_structure ser_variant) al_structure)) al_structure)
                (name, mode, properties, aux) []))
       sig_string de_string"

definition stop_unit :: "'w dbus_env \<Rightarrow> proxy \<Rightarrow> string \<Rightarrow> string \<Rightarrow> (dbus_connection \<times> 'w, string) io" where
  "stop_unit env p name mode =
     method_call env p MANAGER_IFACE ''StopUnit''
       (Some (sig_tuple2 sig_string sig_string, ser_tuple2 ser_string ser_string (name, mode) []))
       sig_string de_string"

definition set_unit_properties ::
    "'w dbus_env \<Rightarrow> proxy \<Rightarrow> string \<Rightarrow> bool \<Rightarrow> variant structure_rec list \<Rightarrow> (dbus_connection \<times> 'w, unit) io" where
  "set_unit_properties env p name runtime properties =
     method_call env p MANAGER_IFACE ''SetUnitProperties''
       (Some (sig_tuple3 sig_string sig_bool (sig_vec (sig_structure sig_variant)),
              ser_tuple3 ser_string ser_bool (ser_vec (ser_structure ser_variant) al_structure)
                (name, runtime, properties) []))
       sig_unit de_unit"

definition get_string_property :: "'w dbus_env \<Rightarrow> proxy \<Rightarrow> string \<Rightarrow> (dbus_connection \<times> 'w, string) io" where
  "get_string_property env p property =
     io_bind
       (method_call env p ''org.freedesktop.DBus.Properties'' ''Get''
          (Some (sig_tuple2 sig_string sig_string,
                 ser_tuple2 ser_string ser_string (MANAGER_IFACE, property) []))
          sig_variant de_variant)
       (\<lambda>t. case t of VString s \<Rightarrow> io_return s | _ \<Rightarrow> io_lift Panic)"

definition proxy_version :: "'w dbus_env \<Rightarrow> proxy \<Rightarrow> (dbus_connection \<times> 'w, string) io" where
  "proxy_version env p = get_string_property env p ''Version''"

definition control_group :: "'w dbus_env \<Rightarrow> proxy \<Rightarrow> (dbus_connection \<times> 'w, string) io" where
  "control_group env p = get_string_property env p ''ControlGroup''"

definition attach_process ::
    "'w dbus_env \<Rightarrow> proxy \<Rightarrow> string \<Rightarrow> string \<Rightarrow> u32 \<Rightarrow> (dbus_connection \<times> 'w, unit) io" where
  "attach_process env p name cgroup pid =
     method_call env p MANAGER_IFACE ''AttachProcessesToUnit''
       (Some (sig_tuple3 sig_string sig_string (sig_vec sig_u32),
              ser_tuple3 ser_string ser_string (ser_vec ser_u32 al_u32) (name, cgroup, [pid]) []))
       sig_unit de_unit"

section \<open>The systemd client\<close>

datatype systemd_client_error =
    DBus dbus_error
  | FailedTransient systemd_client_error string string
  | FailedStop systemd_client_error string
  | FailedProperties systemd_client_error string
  | SystemdVersion int_error

type_synonym ('w, 'a) client_io = "'w \<Rightarrow> ((systemd_client_error, 'a) outcome \<times> 'w) option"

definition client_result :: "(dbus_error \<Rightarrow> systemd_client_error) \<Rightarrow> ('a \<Rightarrow> 'b) \<Rightarrow> ('w, 'a) io \<Rightarrow> ('w, 'b) client_io" where
  "client_result h f m w = map_option (\<lambda>(r, w'). (map_outcome f (map_err h r), w')) (m w)"

definition transient_unit_exists :: "'w dbus_env \<Rightarrow> string \<Rightarrow> (dbus_connection \<times> 'w, bool) client_io" where
  "transient_unit_exists env unit_name s =
     (case get_unit env create_proxy unit_name s of
        Some (Ok u, s') \<Rightarrow> Some (Ok True, s')
      | Some (Err e, s') \<Rightarrow> Some (Ok False, s')
      | Some (Panic, s') \<Rightarrow> Some (Panic, s')
      | Some (Diverge, s') \<Rightarrow> Some (Diverge, s')
      | None \<Rightarrow> None)"

definition transient_unit_properties :: "string \<Rightarrow> u32 \<Rightarrow> string \<Rightarrow> string \<Rightarrow> (string \<times> variant) list" where
  "transient_unit_properties container_name pid parent unit_name =
     [(''Description'', VString (''youki container '' @ container_name))]
     @ (if suffix ''slice'' unit_name then [(''Wants'', VString parent)]
        else [(''Slice'', VString parent), (''Delegate'', VBool True)])
     @ [(''MemoryAccounting'', VBool True), (''CPUAccounting'', VBool True),
        (''IOAccounting'', VBool True), (''TasksAccounting'', VBool True),
        (''DefaultDependencies'', VBool False), (''PIDs'', VArrayU32 [pid])]"

definition client_start_transient_unit ::
    "'w dbus_env \<Rightarrow> string \<Rightarrow> u32 \<Rightarrow> string \<Rightarrow> string \<Rightarrow> (dbus_connection \<times> 'w, unit) client_io" where
  "client_start_transient_unit env container_name pid parent unit_name =
     (let properties = transient_unit_properties container_name pid parent unit_name;
          props = map (\<lambda>(k, v). \<lparr>key = k, val = v\<rparr>) properties
      in client_result (\<lambda>err. FailedTransient (DBus err) unit_name parent) (\<lambda>_. ())
           (start_transient_unit env create_proxy unit_name ''replace'' props []))"

definition client_stop_transient_unit :: "'w dbus_env \<Rightarrow> string \<Rightarrow> (dbus_connection \<times> 'w, unit) client_io" where
  "client_stop_transient_unit env unit_name =
     client_result (\<lambda>err. FailedStop (DBus err) unit_name) (\<lambda>_. ())
       (stop_unit env create_proxy unit_name ''replace'')"

fun mask_bytes :: "string \<Rightarrow> u64 list \<Rightarrow> (dbus_error, u8 list) outcome" where
  "mask_bytes k [] = Ok []"
| "mask_bytes k (b # bs) =
     (if 255 < b then Err (IncorrectMessage (k @ '' contains a non-byte mask value''))
      else bind_outcome (mask_bytes k bs) (\<lambda>rest. Ok (ucast b # rest)))"

definition wire_value :: "string \<Rightarrow> variant \<Rightarrow> (dbus_error, variant) outcome" where
  "wire_value k v =
     (case v of
        VArrayU64 msk \<Rightarrow>
          if k = ''AllowedCPUs'' \<or> k = ''AllowedMemoryNodes''
          then bind_outcome (mask_bytes k (rev msk)) (\<lambda>bytes. Ok (VArrayU8 bytes))
          else Ok v
      | _ \<Rightarrow> Ok v)"

text \<open>The properties in the order the iterator of the \<open>HashMap\<close> yields them.\<close>

fun wire_properties :: "(string \<times> variant) list \<Rightarrow> (dbus_error, variant structure_rec list) outcome" where
  "wire_properties [] = Ok []"
| "wire_properties ((k, v) # ps) =
     bind_outcome (wire_value k v) (\<lambda>value.
     bind_outcome (wire_properties ps) (\<lambda>rest. Ok (\<lparr>key = k, val = value\<rparr> # rest)))"

definition unit_props :: "(string \<times> variant) list \<Rightarrow> (dbus_error, variant structure_rec list) outcome" where
  "unit_props properties =
     bind_outcome (wire_properties properties) (\<lambda>props.
     Ok (if DEVICE_ALLOW \<in> fst ` set properties
         then \<lparr>key = DEVICE_ALLOW, val = VArrayStructSS []\<rparr> # props else props))"

definition client_set_unit_properties ::
    "'w dbus_env \<Rightarrow> string \<Rightarrow> (string \<times> variant) list \<Rightarrow> (dbus_connection \<times> 'w, unit) client_io" where
  "client_set_unit_properties env unit_name properties s =
     (case map_err DBus (unit_props properties) of
        Ok props \<Rightarrow>
          client_result (\<lambda>err. FailedProperties (DBus err) unit_name) id
            (set_unit_properties env create_proxy unit_name True props) s
      | Err e \<Rightarrow> Some (Err e, s)
      | Panic \<Rightarrow> Some (Panic, s)
      | Diverge \<Rightarrow> Some (Diverge, s))"

definition control_cgroup_root :: "'w dbus_env \<Rightarrow> (dbus_connection \<times> 'w, string) client_io" where
  "control_cgroup_root env = client_result DBus id (control_group env create_proxy)"

definition add_process_to_unit :: "'w dbus_env \<Rightarrow> string \<Rightarrow> string \<Rightarrow> u32 \<Rightarrow> (dbus_connection \<times> 'w, unit) client_io" where
  "add_process_to_unit env unit_name subcgroup pid =
     client_result DBus id (attach_process env create_proxy unit_name subcgroup pid)"

section \<open>Framing\<close>

text \<open>
  What \<open>recv\<close> promises on a connected stream socket: it takes at least one and at most \<open>n\<close> bytes
  off the front of the stream when some have arrived, and otherwise changes nothing; with bytes
  waiting it fails only when a signal interrupts it, which happens finitely often in a row.
\<close>

definition stream_socket :: "'w dbus_env \<Rightarrow> int \<Rightarrow> ('w \<Rightarrow> u8 list) \<Rightarrow> ('w \<Rightarrow> nat) \<Rightarrow> bool" where
  "stream_socket env fd pending interrupts \<longleftrightarrow>
     (\<forall>n w. 0 < n \<longrightarrow>
        (case sys_recv env fd n w of
           (SysOk bs, w') \<Rightarrow>
             pending w = bs @ pending w' \<and> length bs \<le> n \<and> (pending w \<noteq> [] \<longrightarrow> bs \<noteq> [])
         | (SysErr e, w') \<Rightarrow>
             pending w' = pending w \<and> (pending w \<noteq> [] \<longrightarrow> e = EINTR \<and> interrupts w' < interrupts w)))"

lemma stream_socket_recv:
  assumes "stream_socket env fd pending interrupts" and "0 < n" and "pending w \<noteq> []"
  obtains (data) bs w' where "sys_recv env fd n w = (SysOk bs, w')" "pending w = bs @ pending w'"
      "length bs \<le> n" "bs \<noteq> []"
  | (intr) w' where "sys_recv env fd n w = (SysErr EINTR, w')" "pending w' = pending w"
      "interrupts w' < interrupts w"
proof -
  obtain r w' where r: "sys_recv env fd n w = (r, w')" by (cases "sys_recv env fd n w")
  have law: "case r of
      SysOk bs \<Rightarrow> pending w = bs @ pending w' \<and> length bs \<le> n \<and> (pending w \<noteq> [] \<longrightarrow> bs \<noteq> [])
    | SysErr e \<Rightarrow> pending w' = pending w \<and> (pending w \<noteq> [] \<longrightarrow> e = EINTR \<and> interrupts w' < interrupts w)"
    using assms(1) [unfolded stream_socket_def, rule_format, OF assms(2), of w]
    by (simp add: r)
  show thesis
  proof (cases r)
    case (SysOk bs)
    with law assms(3) r show thesis by (intro data [of bs w']) simp_all
  next
    case (SysErr e)
    with law assms(3) r show thesis by (intro intr [of w']) simp_all
  qed
qed

lemma read_exact_reads:
  assumes "stream_socket env fd pending interrupts"
    and "length buf \<le> n" and "n - length buf \<le> length (pending w)"
  shows "\<exists>w'. read_exact env fd n buf w = Some (Ok (buf @ take (n - length buf) (pending w)), w')
      \<and> pending w' = drop (n - length buf) (pending w)"
  using assms(2,3)
proof (induction "(length (pending w), interrupts w)" arbitrary: w buf
    rule: wf_induct_rule [OF wf_lex_prod [OF wf_less_than wf_less_than]])
  case 1
  show ?case
  proof (cases "length buf < n")
    case True
    with "1.prems" have "0 < n - length buf" "pending w \<noteq> []" by auto
    from assms(1) this show ?thesis
    proof (cases rule: stream_socket_recv)
      case (data bs w')
      have "\<exists>w''. read_exact env fd n (buf @ bs) w' = Some (Ok ((buf @ bs) @ take (n - length (buf @ bs)) (pending w')), w'')
          \<and> pending w'' = drop (n - length (buf @ bs)) (pending w')"
        by (rule "1.hyps") (use data "1.prems" in auto)
      with data True show ?thesis
        by (simp add: read_exact.simps [of env fd n buf w])
    next
      case (intr w')
      with True "1.hyps" [of w' buf] "1.prems" show ?thesis
        by (simp add: read_exact.simps [of env fd n buf w])
    qed
  qed (use "1.prems" in \<open>simp add: read_exact.simps [of env fd n buf w]\<close>)
qed

lemma align_header_len_pad:
  assumes "n < 2 ^ 32"
  shows "align_header_len n = n + pad_len n 8"
  using assms and_not_7 [of "n + 7"] by (simp add: align_header_len_def round_up_8 pad_len_def)

lemma pad_len_16: "pad_len (16 + n) 8 = pad_len n 8"
  by (rule pad_len_mod) (simp add: mod_add_eq [symmetric])

text \<open>The fixed part of a message, as its first sixteen bytes, and what follows it.\<close>

lemma message_serialize_fixed:
  fixes m :: message
  obtains F R where "message_serialize m = F @ R" "length F = 16"
    "slice_range F 4 8 = (Ok (to_le_bytes 4 (of_nat (length (body m)) :: u32)) :: (dbus_error, _) outcome)"
    "slice_range F 12 16
       = (Ok (to_le_bytes 4 (of_nat (length (serialize_headers (headers m))) :: u32)) :: (dbus_error, _) outcome)"
    "length R = length (serialize_headers (headers m)) + pad_len (length (serialize_headers (headers m))) 8
       + length (body m)"
proof
  let ?H = "serialize_headers (headers m)"
  let ?F = "[endian_to_byte (endian (preamble m)), message_type_to_byte (mtype (preamble m)),
      flags (preamble m), version (preamble m)]
     @ to_le_bytes 4 (of_nat (length (body m)) :: u32) @ to_le_bytes 4 (serial m)
     @ to_le_bytes 4 (of_nat (length ?H) :: u32)"
  show "message_serialize m = ?F @ ?H @ pad (16 + length ?H) 8 @ body m"
    by (simp add: message_serialize_parts)
qed (simp_all add: slice_range_def pad_len_16)

lemma io_bind_Ok: "m w = Some (Ok x, w') \<Longrightarrow> io_bind m f w = f x w'"
  by (simp add: io_bind_def)

lemma read_one_message_frames:
  assumes s: "stream_socket env (socket conn) pending interrupts"
    and wf: "wf_message m" and p: "pending w = message_serialize m @ rest"
  shows "\<exists>w'. read_one_message env conn w = Some (Ok (message_serialize m), w') \<and> pending w' = rest"
proof -
  let ?H = "serialize_headers (headers m)"
  obtain F R where FR: "message_serialize m = F @ R" "length F = 16"
    and sl: "slice_range F 4 8 = (Ok (to_le_bytes 4 (of_nat (length (body m)) :: u32)) :: (dbus_error, _) outcome)"
      "slice_range F 12 16 = (Ok (to_le_bytes 4 (of_nat (length ?H) :: u32)) :: (dbus_error, _) outcome)"
    and R: "length R = length ?H + pad_len (length ?H) 8 + length (body m)"
    by (rule message_serialize_fixed)
  have lens: "length ?H < 2 ^ 32" "length (body m) < 2 ^ 32" using wf by (simp_all add: wf_message_def)
  obtain w1 where w1: "read_exact env (socket conn) 16 [] w = Some (Ok F, w1)" "pending w1 = R @ rest"
    using read_exact_reads [OF s, of "[]" 16 w] FR p by auto
  obtain w2 where w2: "read_exact env (socket conn) (length R) [] w1 = Some (Ok R, w2)" "pending w2 = rest"
    using read_exact_reads [OF s, of "[]" "length R" w1] w1 by auto
  have "read_one_message env conn w = Some (Ok (F @ R), w2)"
    using lens w2(1)
    by (simp add: read_one_message_def w1(1) sl io_lift_def io_bind_def
        io_return_def align_header_len_pad R)
  with FR w2 show ?thesis by simp
qed

text \<open>The replies a method call reads: messages that do not end the wait, then one that does.\<close>

lemma reply_loop_reads:
  assumes s: "stream_socket env (socket conn) pending interrupts"
    and "\<forall>m \<in> set (sigs @ [fin]). wf_message m" and "\<forall>m \<in> set sigs. \<not> is_final m" and "is_final fin"
    and "pending w = concat (map message_serialize (sigs @ [fin])) @ rest"
  shows "\<exists>w'. reply_loop env conn MethodCall ret w = Some (Ok (ret @ sigs @ [fin]), w') \<and> pending w' = rest"
  using assms(2-)
proof (induction sigs arbitrary: ret w)
  case Nil
  then obtain w' where "read_one_message env conn w = Some (Ok (message_serialize fin), w')" "pending w' = rest"
    using read_one_message_frames [OF s, of fin w rest] by auto
  with Nil message_roundtrip_at [of fin "[]" "[]"] show ?case
    by (simp add: reply_loop.simps [of env conn MethodCall ret])
next
  case (Cons m sigs)
  then obtain w' where "read_one_message env conn w = Some (Ok (message_serialize m), w')"
    "pending w' = concat (map message_serialize (sigs @ [fin])) @ rest"
    using read_one_message_frames [OF s, of m w] by force
  with Cons.IH [of w' "ret @ [m]"] Cons.prems message_roundtrip_at [of m "[]" "[]"] show ?case
    by (simp add: reply_loop.simps [of env conn MethodCall ret])
qed

definition sent_message :: "dbus_connection \<Rightarrow> message_type \<Rightarrow> header list \<Rightarrow> u8 list \<Rightarrow> message" where
  "sent_message conn mt hs b =
     message_new mt (msg_ctr conn + 1)
       (case conn_id conn of Some s \<Rightarrow> hs @ [\<lparr>kind = Sender, hvalue = HString s\<rparr>] | None \<Rightarrow> hs) b"

lemma send_message_replies:
  assumes "stream_socket env (socket conn) pending interrupts"
    and "sys_sendmsg env (socket conn) (message_serialize (sent_message conn MethodCall hs b)) w = (SysOk n, w1)"
    and "pending w1 = concat (map message_serialize (sigs @ [fin])) @ rest"
    and "\<forall>m \<in> set (sigs @ [fin]). wf_message m" and "\<forall>m \<in> set sigs. \<not> is_final m" and "is_final fin"
  shows "\<exists>w'. send_message env MethodCall hs b (conn, w)
      = Some (Ok (sigs @ [fin]), conn\<lparr>msg_ctr := msg_ctr conn + 1\<rparr>, w') \<and> pending w' = rest"
proof -
  let ?conn = "conn\<lparr>msg_ctr := msg_ctr conn + 1\<rparr>"
  have "stream_socket env (socket ?conn) pending interrupts" using assms(1) by simp
  from reply_loop_reads [OF this assms(4-6,3), of "[]"]
  obtain w' where "reply_loop env ?conn MethodCall [] w1 = Some (Ok (sigs @ [fin]), w')" "pending w' = rest"
    by auto
  then show ?thesis
    using assms(2)
    by (simp add: send_message_def get_msg_id_def with_conn_def io_bind_def io_sys_def sent_message_def
        Let_def split: option.splits)
qed

section \<open>Calls and replies\<close>

definition call_headers :: "proxy \<Rightarrow> string \<Rightarrow> string \<Rightarrow> string \<Rightarrow> header list" where
  "call_headers p interface member sg =
     [\<lparr>kind = Path, hvalue = HString (path p)\<rparr>, \<lparr>kind = Destination, hvalue = HString (dest p)\<rparr>,
      \<lparr>kind = Interface, hvalue = HString interface\<rparr>, \<lparr>kind = Member, hvalue = HString member\<rparr>,
      \<lparr>kind = BodySignature, hvalue = HString sg\<rparr>]"

text \<open>
  \<open>answered\<close>: the peer took the bytes of the call and what it sends back starts with \<open>sigs\<close>, which do
  not end the wait, and the final message \<open>fin\<close>.
\<close>

definition answered ::
    "'w dbus_env \<Rightarrow> dbus_connection \<Rightarrow> ('w \<Rightarrow> u8 list) \<Rightarrow> header list \<Rightarrow> u8 list \<Rightarrow> 'w
     \<Rightarrow> message list \<Rightarrow> message \<Rightarrow> u8 list \<Rightarrow> bool" where
  "answered env conn pending hs bytes w sigs fin rest \<longleftrightarrow>
     (case sys_sendmsg env (socket conn) (message_serialize (sent_message conn MethodCall hs bytes)) w of
        (SysOk n, w1) \<Rightarrow> pending w1 = concat (map message_serialize (sigs @ [fin])) @ rest
      | (SysErr e, w1) \<Rightarrow> False)
     \<and> list_all wf_message (sigs @ [fin]) \<and> list_all (\<lambda>m. \<not> is_final m) sigs \<and> is_final fin"

lemma answered_send_message:
  assumes "stream_socket env (socket conn) pending interrupts"
    and "answered env conn pending hs bytes w sigs fin rest"
  shows "\<exists>w'. send_message env MethodCall hs bytes (conn, w)
      = Some (Ok (sigs @ [fin]), conn\<lparr>msg_ctr := msg_ctr conn + 1\<rparr>, w') \<and> pending w' = rest"
proof -
  obtain n w1 where "sys_sendmsg env (socket conn)
      (message_serialize (sent_message conn MethodCall hs bytes)) w = (SysOk n, w1)"
    "pending w1 = concat (map message_serialize (sigs @ [fin])) @ rest"
    using assms(2) by (auto simp: answered_def split: prod.splits sys_result.splits)
  with assms show ?thesis
    by (intro send_message_replies) (auto simp: answered_def list_all_iff)
qed

lemma filter_final:
  assumes "list_all (\<lambda>m. \<not> is_final m) sigs" and "t = MethodReturn \<or> t = ErrorMessage"
  shows "filter (\<lambda>m. mtype (preamble m) = t) sigs = []"
  using assms by (auto simp: filter_empty_conv list_all_iff is_final_def)

lemma handle_reply_final:
  assumes "list_all (\<lambda>m. \<not> is_final m) sigs" and "is_final fin"
  shows "handle_reply dbg sig_out de_out (sigs @ [fin]) = handle_reply dbg sig_out de_out [fin]"
  using assms
  by (auto simp: handle_reply_def filter_final [OF assms(1)] is_final_def)

lemma method_call_answered:
  assumes "stream_socket env (socket conn) pending interrupts"
    and "answered env conn pending (call_headers p interface member sg) bytes w sigs fin rest"
  shows "\<exists>w'. method_call env p interface member (Some (sg, bytes)) sig_out de_out (conn, w)
      = Some (handle_reply (debug_messages env) sig_out de_out [fin], conn\<lparr>msg_ctr := msg_ctr conn + 1\<rparr>, w')
      \<and> pending w' = rest"
proof -
  have "handle_reply (debug_messages env) sig_out de_out (sigs @ [fin])
      = handle_reply (debug_messages env) sig_out de_out [fin]"
    using assms(2) by (intro handle_reply_final) (simp_all add: answered_def)
  with answered_send_message [OF assms] show ?thesis
    by (auto simp: method_call_def call_headers_def io_bind_def io_lift_def)
qed

section \<open>Properties\<close>

text \<open>
  C7. Message framing: on a stream socket that hands out its bytes in pieces of any size and is
  interrupted by signals any number of times, \<open>read_one_message\<close> returns the bytes of exactly the
  next message and leaves everything after it on the socket. In particular it returns.
\<close>

theorem read_one_message_exact:
  assumes "stream_socket env (socket conn) pending interrupts"
    and "wf_message m" and "pending w = message_serialize m @ rest"
  shows "\<exists>w'. read_one_message env conn w = Some (Ok (message_serialize m), w') \<and> pending w' = rest"
  using assms by (rule read_one_message_frames)

text \<open>
  A socket for the examples: its state is a number of interruptions to come and the bytes that are
  waiting, of which one call hands out at most five; a sent message is answered with \<open>reply\<close>.
\<close>

definition demo_env :: "u8 list \<Rightarrow> (nat \<times> u8 list) dbus_env" where
  "demo_env reply =
     \<lparr>sys_socket = (\<lambda>w. (SysOk 3, w)), unix_addr_new = (\<lambda>a w. (SysOk a, w)),
      sys_connect = (\<lambda>fd a w. (SysOk (), w)), sys_set_receive_timeout = (\<lambda>fd t w. (SysOk (), w)),
      sys_send = (\<lambda>fd bs w. (SysOk (length bs), w)),
      sys_sendmsg = (\<lambda>fd bs (k, p). (SysOk (length bs), (k, p @ reply))),
      sys_recv = (\<lambda>fd n (k, p). if 0 < k then (SysErr EINTR, (k - 1, p))
                                else (SysOk (take (min n 5) p), (2, drop (min n 5) p))),
      env_var = (\<lambda>_. None), path_exists = (\<lambda>_. False), uid_is_root = False, busctl_status = Inr [],
      debug_messages = (\<lambda>_. [])\<rparr>"

definition demo_conn :: dbus_connection where
  "demo_conn = \<lparr>system = True, socket = 3, conn_id = None, msg_ctr = 0\<rparr>"

lemma demo_env_stream: "stream_socket (demo_env reply) fd snd fst"
  by (auto simp: stream_socket_def demo_env_def min_def split: prod.splits)

theorem read_one_message_exact_witness:
  "\<exists>w'. read_one_message (demo_env []) demo_conn (2, message_serialize demo_message @ [9])
      = Some (Ok (message_serialize demo_message), w') \<and> snd w' = [9]"
  by (rule read_one_message_exact [OF demo_env_stream wf_demo_message]) simp

text \<open>
  C12. A method call that the peer answers with a method return delivers the value of the reply:
  messages such as signals that arrive before it are skipped, the declared signature of the body is
  checked, the decoded body is the result, the call counter has advanced by one, and what the peer
  sent after the reply is still on the socket.
\<close>

theorem method_call_returns:
  assumes "stream_socket env (socket conn) pending interrupts"
    and "answered env conn pending (call_headers p interface member sg) bytes w sigs fin rest"
    and "mtype (preamble fin) = MethodReturn"
    and "filter (\<lambda>h. kind h = BodySignature) (headers fin) = \<lparr>kind = BodySignature, hvalue = HString s\<rparr> # hs"
    and "check_signature_compatibility s sig_out" and "sig_out \<noteq> []"
    and "de_out (body fin) 0 = Ok (x, c)"
  shows "\<exists>w'. method_call env p interface member (Some (sg, bytes)) sig_out de_out (conn, w)
      = Some (Ok x, conn\<lparr>msg_ctr := msg_ctr conn + 1\<rparr>, w') \<and> pending w' = rest"
proof -
  have "handle_reply (debug_messages env) sig_out de_out [fin] = Ok x"
    using assms(3-) by (simp add: handle_reply_def index_at_def)
  with method_call_answered [OF assms(1,2), of sig_out de_out] show ?thesis by simp
qed

definition demo_signal :: message where
  "demo_signal = message_new Signal 5 [\<lparr>kind = Path, hvalue = HString ''/o''\<rparr>] []"

lemma wf_demo_signal: "wf_message demo_signal"
  by (simp add: demo_signal_def message_new_def wf_message_def preamble_new_def wf_header_def
      header_kind_signature_def wf_str_ascii serialize_headers_def serialize_header_def
      adjust_padding_def Let_def)

lemma demo_answered:
  "is_final m \<Longrightarrow> wf_message m \<Longrightarrow>
   answered (demo_env (message_serialize demo_signal @ message_serialize m @ [1])) demo_conn snd hs bytes (1, [])
     [demo_signal] m [1]"
  by (simp add: answered_def demo_env_def wf_demo_signal)
     (simp add: is_final_def demo_signal_def message_new_def preamble_new_def)

theorem method_call_returns_witness:
  "\<exists>w'. method_call (demo_env (message_serialize demo_signal @ message_serialize demo_message @ [1]))
        create_proxy MANAGER_IFACE ''GetUnit'' (Some (sig_string, ser_string ''a.scope'' [])) sig_string de_string
        (demo_conn, (1, []))
      = Some (Ok ''ok'', demo_conn\<lparr>msg_ctr := msg_ctr demo_conn + 1\<rparr>, w') \<and> snd w' = [1]"
proof (rule method_call_returns [OF demo_env_stream demo_answered])
  show "is_final demo_message" "mtype (preamble demo_message) = MethodReturn"
    by (simp_all add: is_final_def demo_message_def message_new_def preamble_new_def)
  show "filter (\<lambda>h. kind h = BodySignature) (headers demo_message)
      = \<lparr>kind = BodySignature, hvalue = HString ''s''\<rparr> # []"
    by (simp add: demo_message_def message_new_def)
  show "de_string (body demo_message) 0 = Ok (''ok'', length (ser_string ''ok'' []))"
    using string.roundtrip [of "''ok''" "[]" "[]"]
    by (simp add: demo_message_def message_new_def wf_string_def wf_str_ascii)
qed (simp_all add: wf_demo_message check_signature_compatibility_def sig_string_def)

text \<open>
  C34. A method call that the peer answers with an error message fails with the text the peer sent,
  whatever signals arrive before it.
\<close>

theorem method_call_error:
  assumes "stream_socket env (socket conn) pending interrupts"
    and "answered env conn pending (call_headers p interface member sg) bytes w sigs fin rest"
    and "mtype (preamble fin) = ErrorMessage" and "body fin = ser_string reason []" and "wf_string reason"
  shows "\<exists>w'. method_call env p interface member (Some (sg, bytes)) sig_out de_out (conn, w)
      = Some (Err (MethodCallErr reason), conn\<lparr>msg_ctr := msg_ctr conn + 1\<rparr>, w') \<and> pending w' = rest"
proof -
  have "de_string (body fin) 0 = Ok (reason, length (body fin))"
    using string.roundtrip [of reason "[]" "[]"] assms(4,5) by simp
  moreover have "body fin \<noteq> []"
    using assms(4) by (simp add: ser_string_def)
  ultimately have "handle_reply (debug_messages env) sig_out de_out [fin] = Err (MethodCallErr reason)"
    using assms(3) by (simp add: handle_reply_def)
  with method_call_answered [OF assms(1,2), of sig_out de_out] show ?thesis by simp
qed

definition demo_error :: message where
  "demo_error = message_new ErrorMessage 8
     [\<lparr>kind = ErrorName, hvalue = HString ''e''\<rparr>, \<lparr>kind = BodySignature, hvalue = HString ''s''\<rparr>]
     (ser_string ''no such unit'' [])"

theorem method_call_error_witness:
  "\<exists>w'. method_call (demo_env (message_serialize demo_signal @ message_serialize demo_error @ [1]))
        create_proxy MANAGER_IFACE ''GetUnit'' (Some (sig_string, ser_string ''a.scope'' [])) sig_string de_string
        (demo_conn, (1, []))
      = Some (Err (MethodCallErr ''no such unit''), demo_conn\<lparr>msg_ctr := msg_ctr demo_conn + 1\<rparr>, w')
        \<and> snd w' = [1]"
proof (rule method_call_error [OF demo_env_stream demo_answered])
  show "is_final demo_error" "mtype (preamble demo_error) = ErrorMessage"
    "body demo_error = ser_string ''no such unit'' []"
    by (simp_all add: is_final_def demo_error_def message_new_def preamble_new_def)
  show "wf_message demo_error"
    by (simp add: demo_error_def message_new_def wf_message_def preamble_new_def wf_header_def
        header_kind_signature_def wf_str_ascii serialize_headers_def serialize_header_def
        adjust_padding_def ser_string_def as_bytes_def Let_def)
qed (simp add: wf_string_def wf_str_ascii)

text \<open>
  C40. A reply without a body and without a signature header, where a value is expected, is not
  reported as an error: indexing the empty list of signature headers panics.
\<close>

theorem empty_reply_panics:
  assumes "mtype (preamble m) = MethodReturn" and "body m = []"
    and "\<forall>h \<in> set (headers m). kind h \<noteq> BodySignature" and "sig_out \<noteq> []"
  shows "handle_reply dbg sig_out de_out [m] = Panic"
  using assms by (simp add: handle_reply_def index_at_def)

theorem empty_reply_panics_witness:
  "handle_reply (\<lambda>_. []) sig_string de_string [message_new MethodReturn 1 [\<lparr>kind = ReplySerial, hvalue = HU32 1\<rparr>] []] = Panic"
  by (rule empty_reply_panics) (simp_all add: message_new_def preamble_new_def sig_string_def)

definition device_allow_values :: "variant structure_rec list \<Rightarrow> string structure_rec list list" where
  "device_allow_values props =
     List.map_filter (\<lambda>p. if key p = DEVICE_ALLOW
       then (case val p of VArrayStructSS es \<Rightarrow> Some es | _ \<Rightarrow> None) else None) props"

lemma device_allow_values_simps [simp]:
  "device_allow_values [] = []"
  "device_allow_values (\<lparr>key = k, val = v\<rparr> # ps) =
     (if k = DEVICE_ALLOW then (case v of VArrayStructSS es \<Rightarrow> es # device_allow_values ps
        | _ \<Rightarrow> device_allow_values ps) else device_allow_values ps)"
  by (simp_all add: device_allow_values_def List.map_filter_simps split: variant.splits)

lemma wire_value_struct:
  "k = DEVICE_ALLOW \<Longrightarrow> wire_value k v = Ok v"
  by (simp add: wire_value_def DEVICE_ALLOW_def split: variant.splits)

lemma wire_properties_device_allow:
  "wire_properties ps = Ok props \<Longrightarrow>
   device_allow_values props = device_allow_values (map (\<lambda>(k, v). \<lparr>key = k, val = v\<rparr>) ps)"
proof (induction ps arbitrary: props rule: wire_properties.induct)
  case (2 k v ps)
  then obtain wv rest where "wire_value k v = Ok wv" "wire_properties ps = Ok rest"
    "props = \<lparr>key = k, val = wv\<rparr> # rest"
    by (auto simp: outcome_simps)
  with 2 wire_value_struct [of k v] show ?case by (auto split: variant.splits)
qed simp

lemma device_allow_values_unique:
  assumes "distinct (map fst ps)" and "(DEVICE_ALLOW, VArrayStructSS es) \<in> set ps"
  shows "device_allow_values (map (\<lambda>(k, v). \<lparr>key = k, val = v\<rparr>) ps) = [es]"
proof -
  have none: "device_allow_values (map (\<lambda>(k, v). \<lparr>key = k, val = v\<rparr>) qs) = []"
    if "DEVICE_ALLOW \<notin> fst ` set qs" for qs
    using that by (induction qs) auto
  show ?thesis using assms
  proof (induction ps)
    case (Cons q qs)
    obtain k v where q: "q = (k, v)" by (cases q)
    show ?case
    proof (cases "k = DEVICE_ALLOW")
      case True
      with Cons.prems q have "v = VArrayStructSS es" "DEVICE_ALLOW \<notin> fst ` set qs"
        by (auto simp: image_iff)
      with True q none [of qs] show ?thesis by simp
    qed (use Cons q in auto)
  qed simp
qed

text \<open>
  C30. \<open>set_unit_properties\<close> replaces the device list of a unit. The comment in the code says how
  systemd treats the property: a non-empty array is appended to the list and an empty one clears
  it. Under that rule, and whatever the unit's list was and in whatever order the hash map yields
  the properties, the list after the message is exactly the one the caller passed.
\<close>

theorem device_allow_replaced:
  assumes "unit_props ps = Ok props" and "distinct (map fst ps)"
    and "(DEVICE_ALLOW, VArrayStructSS entries) \<in> set ps"
    and "\<forall>old. upd old [] = []" and "\<forall>old es. es \<noteq> [] \<longrightarrow> upd old es = old @ es"
  shows "foldl upd old (device_allow_values props) = entries"
proof -
  from assms(1) obtain wired where w: "wire_properties ps = Ok wired"
    by (auto simp: unit_props_def outcome_simps)
  have "DEVICE_ALLOW \<in> fst ` set ps" using assms(3) by force
  with assms(1) w have "props = \<lparr>key = DEVICE_ALLOW, val = VArrayStructSS []\<rparr> # wired"
    by (auto simp: unit_props_def)
  then have "device_allow_values props = [[], entries]"
    using wire_properties_device_allow [OF w] device_allow_values_unique [OF assms(2,3)] by simp
  with assms(4,5) show ?thesis by (cases "entries = []") simp_all
qed

theorem device_allow_replaced_witness:
  "foldl (\<lambda>old es. if es = [] then [] else old @ es) [\<lparr>key = ''/dev/old'', val = ''r''\<rparr>]
     (device_allow_values
       [\<lparr>key = DEVICE_ALLOW, val = VArrayStructSS []\<rparr>, \<lparr>key = ''CPUWeight'', val = VU64 5\<rparr>,
        \<lparr>key = DEVICE_ALLOW, val = VArrayStructSS [\<lparr>key = ''char-pts'', val = ''rwm''\<rparr>]\<rparr>])
   = [\<lparr>key = ''char-pts'', val = ''rwm''\<rparr>]"
  by (rule device_allow_replaced
        [where ps = "[(''CPUWeight'', VU64 5), (DEVICE_ALLOW, VArrayStructSS [\<lparr>key = ''char-pts'', val = ''rwm''\<rparr>])]"])
     (simp_all add: unit_props_def wire_value_def DEVICE_ALLOW_def)

end
