(* ===== verification/Systemd_Controllers.thy ===== *)
theory Systemd_Controllers
  imports Cgroup_V2_Manager Dbus_Connection
begin

text \<open>
  The controllers of the systemd cgroup manager: \<open>libcgroups/src/systemd/\<close>\{\<open>cpu\<close>, \<open>cpuset\<close>, \<open>devices\<close>, \<open>io\<close>,
  \<open>memory\<close>, \<open>pids\<close>, \<open>unified\<close>\}\<open>.rs\<close>. Each turns a part of the OCI resources into properties of the systemd
  unit. The \<open>HashMap\<close> of properties is a map from names to D-Bus variants. Arithmetic on \<open>u64\<close> wraps around, as
  in the release profile.
\<close>

unbundle bit_operations_syntax

type_synonym properties = "string \<rightharpoonup> variant"

section \<open>CPU and process limits\<close>

datatype systemd_cpu_error = RealtimeSystemd

definition sd_convert_shares_to_cgroup2 :: "(nat \<Rightarrow> nat) \<Rightarrow> nat \<Rightarrow> nat" where
  "sd_convert_shares_to_cgroup2 fit shares =
     (if shares = 0 then 0
      else if shares \<le> 2 then 1
      else if 262144 \<le> shares then 10000
      else fit shares)"

text \<open>Division by a period of zero panics.\<close>

definition sd_cpu_quota :: "linux_cpu \<Rightarrow> ('e, u64) outcome" where
  "sd_cpu_quota cpu =
     (case cpu_quota cpu of
        Some specified_quota \<Rightarrow>
          if 0 < specified_quota then
            (let period = (case cpu_period cpu of Some p \<Rightarrow> p | None \<Rightarrow> 100000) in
             if period = 0 then Panic
             else Ok (word_of_int specified_quota * 1000000 div of_nat period))
          else Ok (- 1)
      | None \<Rightarrow> Ok (- 1))"

definition sd_cpu_apply :: "(nat \<Rightarrow> nat) \<Rightarrow> linux_cpu \<Rightarrow> properties \<Rightarrow> (systemd_cpu_error, properties) outcome" where
  "sd_cpu_apply fit cpu properties =
     (if is_realtime_requested cpu \<and>
         (0 < (case cpu_realtime_runtime cpu of Some r \<Rightarrow> r | None \<Rightarrow> 0) \<or> 0 < (case cpu_realtime_period cpu of Some q \<Rightarrow> q | None \<Rightarrow> 0))
      then Err RealtimeSystemd
      else
        (let properties =
           (case cpu_shares cpu of
              Some shares \<Rightarrow>
                (let weight = sd_convert_shares_to_cgroup2 fit shares in
                 if weight \<noteq> 0 then properties(''CPUWeight'' \<mapsto> VU64 (of_nat weight)) else properties)
            | None \<Rightarrow> properties)
         in
         bind_outcome (sd_cpu_quota cpu) (\<lambda>quota.
         (let period = (case cpu_period cpu of Some p \<Rightarrow> if 0 < p then of_nat p else 100000 | None \<Rightarrow> 100000) in
          Ok (properties(''CPUQuotaPerSecUSec'' \<mapsto> VU64 quota, ''CPUQuotaPeriodUSec'' \<mapsto> VU64 period))))))"

definition sd_pids_apply :: "int \<Rightarrow> properties \<Rightarrow> properties" where
  "sd_pids_apply limit properties =
     properties(''TasksMax'' \<mapsto> VU64 (if 0 < limit then word_of_int limit else - 1))"

section \<open>CPU sets\<close>

text \<open>
  The crate \<open>fixedbitset\<close>, with its blocks of 64 bits: growing beyond the memory that can be allocated aborts.
\<close>

record 'b bitset_ops =
  bs_with_capacity :: "nat \<Rightarrow> 'b"
  bs_len :: "'b \<Rightarrow> nat"
  bs_grow :: "nat \<Rightarrow> 'b \<Rightarrow> 'b option"
  bs_set :: "nat \<Rightarrow> bool \<Rightarrow> 'b \<Rightarrow> 'b"
  bs_set_range :: "nat \<Rightarrow> nat \<Rightarrow> bool \<Rightarrow> 'b \<Rightarrow> 'b"
  bs_as_slice :: "'b \<Rightarrow> u64 list"

datatype bitmask_error = InvalidIndex int_error string | InvalidRange string

text \<open>\<open>usize::checked_add(1)\<close>.\<close>

definition checked_succ :: "nat \<Rightarrow> nat option" where
  "checked_succ n = (if n < 2 ^ 64 - 1 then Some (n + 1) else None)"

definition grow_to :: "'b bitset_ops \<Rightarrow> string \<Rightarrow> nat \<Rightarrow> 'b \<Rightarrow> (bitmask_error, 'b) outcome" where
  "grow_to ops cpu_set i bitset =
     (if bs_len ops bitset \<le> i then
        bind_outcome (ok_or (InvalidRange cpu_set) (checked_succ i)) (\<lambda>n.
        case bs_grow ops n bitset of Some b \<Rightarrow> Ok b | None \<Rightarrow> Panic)
      else Ok bitset)"

definition parse_index :: "string \<Rightarrow> (bitmask_error, nat) outcome" where
  "parse_index s = map_err (\<lambda>e. InvalidIndex e s) (parse_usize s)"

definition bitmask_part :: "'b bitset_ops \<Rightarrow> string \<Rightarrow> 'b \<Rightarrow> (bitmask_error, 'b) outcome" where
  "bitmask_part ops cpu_set bitset =
     (case map trim (split_on (CHR ''-'') cpu_set) of
        start # fin # _ \<Rightarrow>
          bind_outcome (parse_index start) (\<lambda>start_index.
          bind_outcome (parse_index fin) (\<lambda>end_index.
          if end_index < start_index then Err (InvalidRange cpu_set)
          else
            bind_outcome (ok_or (InvalidRange cpu_set) (checked_succ end_index)) (\<lambda>n.
            bind_outcome (grow_to ops cpu_set end_index bitset) (\<lambda>b.
            Ok (bs_set_range ops start_index n True b)))))
      | start # [] \<Rightarrow>
          bind_outcome (parse_index start) (\<lambda>cpu_index.
          bind_outcome (grow_to ops cpu_set cpu_index bitset) (\<lambda>b.
          Ok (bs_set ops cpu_index True b)))
      | [] \<Rightarrow> Panic)"

fun bitmask_loop :: "'b bitset_ops \<Rightarrow> string list \<Rightarrow> 'b \<Rightarrow> (bitmask_error, 'b) outcome" where
  "bitmask_loop ops [] bitset = Ok bitset"
| "bitmask_loop ops (cpu_set # parts) bitset =
     (let cpu_set = trim cpu_set in
      if cpu_set = [] then bitmask_loop ops parts bitset
      else bind_outcome (bitmask_part ops cpu_set bitset) (bitmask_loop ops parts))"

definition to_be_bytes :: "u64 \<Rightarrow> u8 list" where
  "to_be_bytes w = rev (to_le_bytes 8 w)"

definition to_bitmask :: "'b bitset_ops \<Rightarrow> string \<Rightarrow> (bitmask_error, u8 list) outcome" where
  "to_bitmask ops cpus =
     bind_outcome (bitmask_loop ops (split_terminator (CHR '','') cpus) (bs_with_capacity ops 8)) (\<lambda>bitset.
     Ok (dropWhile (\<lambda>b. b = 0) (concat (map to_be_bytes (rev (bs_as_slice ops bitset))))))"

datatype systemd_cpuset_error = OldSystemd | CpusBitmask bitmask_error | MemoryNodesBitmask bitmask_error

definition bitmask_variant :: "u8 list \<Rightarrow> variant" where
  "bitmask_variant bytes = VArrayU64 (map ucast bytes)"

definition set_bitmask :: "'b bitset_ops \<Rightarrow> (bitmask_error \<Rightarrow> 'e) \<Rightarrow> string \<Rightarrow> string option \<Rightarrow> properties \<Rightarrow> ('e, properties) outcome" where
  "set_bitmask ops h name v properties =
     (case v of
        Some r \<Rightarrow> bind_outcome (map_err h (to_bitmask ops r)) (\<lambda>msk. Ok (properties(name \<mapsto> bitmask_variant msk)))
      | None \<Rightarrow> Ok properties)"

definition sd_cpuset_apply :: "'b bitset_ops \<Rightarrow> linux_cpu \<Rightarrow> nat \<Rightarrow> properties \<Rightarrow> (systemd_cpuset_error, properties) outcome" where
  "sd_cpuset_apply ops cpu systemd_version properties =
     (if systemd_version \<le> 243 then Err OldSystemd
      else
        bind_outcome (set_bitmask ops CpusBitmask ''AllowedCPUs'' (cpu_cpus cpu) properties) (\<lambda>properties.
        set_bitmask ops MemoryNodesBitmask ''AllowedMemoryNodes'' (cpu_mems cpu) properties))"

section \<open>Memory\<close>

datatype systemd_memory_error = ReservationValue int | MemoryLimit int | SdSwapValue int string

text \<open>A limit of an \<open>i64\<close>: positive, unlimited or invalid.\<close>

definition memory_property :: "(int \<Rightarrow> 'e) \<Rightarrow> string \<Rightarrow> int option \<Rightarrow> properties \<Rightarrow> ('e, properties) outcome" where
  "memory_property h name v properties =
     (case v of
        Some n \<Rightarrow>
          if 1 \<le> n then Ok (properties(name \<mapsto> VU64 (word_of_int n)))
          else if n = - 1 then Ok (properties(name \<mapsto> VU64 (- 1)))
          else Err (h n)
      | None \<Rightarrow> Ok properties)"

definition apply_swap :: "int option \<Rightarrow> int option \<Rightarrow> properties \<Rightarrow> (systemd_memory_error, properties) outcome" where
  "apply_swap swap limit properties =
     (let insert_swap = (\<lambda>v. Ok (properties(''MemorySwapMax'' \<mapsto> VU64 v)));
          reject = (\<lambda>s. Err (SdSwapValue s (case limit of None \<Rightarrow> ''none'' | Some v \<Rightarrow> int_to_string v)))
      in
      case swap of
        None \<Rightarrow> if limit = Some (- 1) then insert_swap (- 1) else Ok properties
      | Some s \<Rightarrow>
          if s = - 1 then insert_swap (- 1)
          else if s = 0 then reject s
          else if 1 \<le> s \<and> limit \<in> {None, Some 0, Some (- 1)} then reject s
          else case limit of
            Some l \<Rightarrow> if l \<le> s then insert_swap (word_of_int (s - l)) else Ok properties
          | None \<Rightarrow> Ok properties)"

definition sd_memory_apply :: "linux_memory \<Rightarrow> properties \<Rightarrow> (systemd_memory_error, properties) outcome" where
  "sd_memory_apply memory properties =
     bind_outcome (memory_property ReservationValue ''MemoryLow'' (mem_reservation_of memory) properties) (\<lambda>properties.
     bind_outcome (memory_property MemoryLimit ''MemoryMax'' (mem_limit_of memory) properties) (\<lambda>properties.
     apply_swap (mem_swap_of memory) (mem_limit_of memory) properties))"

section \<open>Block I/O\<close>

datatype systemd_io_error = DeviceNotFound int int

text \<open>\<open>read_link\<close> is \<open>fs::read_link\<close>, with \<open>None\<close> for an error.\<close>

definition dev_path_from_major_minor :: "(string \<Rightarrow> path option) \<Rightarrow> int \<Rightarrow> int \<Rightarrow> string option" where
  "dev_path_from_major_minor read_link maj mnr =
     (let name_of = (\<lambda>class. Option.bind (read_link (''/sys/dev/'' @ class @ ''/'' @ int_to_string maj @ '':'' @ int_to_string mnr)) file_name);
          dev = (\<lambda>name. ''/dev/'' @ from_utf8_lossy (as_bytes name))
      in case name_of ''block'' of
           Some name \<Rightarrow> Some (dev name)
         | None \<Rightarrow> map_option dev (name_of ''char''))"

fun io_limits :: "(string \<Rightarrow> path option) \<Rightarrow> throttle_device list \<Rightarrow> (systemd_io_error, u64 structure_rec list) outcome" where
  "io_limits read_link [] = Ok []"
| "io_limits read_link (d # ds) =
     (case dev_path_from_major_minor read_link (td_major d) (td_minor d) of
        Some dev \<Rightarrow> bind_outcome (io_limits read_link ds) (\<lambda>rest. Ok (\<lparr>key = dev, val = of_nat (td_rate d)\<rparr> # rest))
      | None \<Rightarrow> Err (DeviceNotFound (td_major d) (td_minor d)))"

definition apply_limits :: "(string \<Rightarrow> path option) \<Rightarrow> throttle_device list option \<Rightarrow> string \<Rightarrow> properties \<Rightarrow> (systemd_io_error, properties) outcome" where
  "apply_limits read_link devices name properties =
     (case devices of
        Some ds \<Rightarrow>
          bind_outcome (io_limits read_link ds) (\<lambda>limits.
          Ok (if limits \<noteq> [] then properties(name \<mapsto> VArrayStructU64 limits) else properties))
      | None \<Rightarrow> Ok properties)"

definition sd_io_apply :: "(string \<Rightarrow> path option) \<Rightarrow> linux_block_io \<Rightarrow> properties \<Rightarrow> (systemd_io_error, properties) outcome" where
  "sd_io_apply read_link blkio properties =
     bind_outcome (apply_limits read_link (io_throttle_read_bps blkio) ''IOReadBandwidthMax'' properties) (\<lambda>properties.
     bind_outcome (apply_limits read_link (io_throttle_write_bps blkio) ''IOWriteBandwidthMax'' properties) (\<lambda>properties.
     bind_outcome (apply_limits read_link (io_throttle_read_iops blkio) ''IOReadIOPSMax'' properties) (\<lambda>properties.
     apply_limits read_link (io_throttle_write_iops blkio) ''IOWriteIOPSMax'' properties)))"

section \<open>Devices\<close>

datatype systemd_devices_error = ProcDevices string os_error | UnsupportedDeviceType device_type

record access_flags =
  acc_read :: bool
  acc_write :: bool
  acc_mknod :: bool

definition no_access :: access_flags where
  "no_access = \<lparr>acc_read = False, acc_write = False, acc_mknod = False\<rparr>"

definition access_is_empty :: "access_flags \<Rightarrow> bool" where
  "access_is_empty a \<longleftrightarrow> \<not> (acc_read a \<or> acc_write a \<or> acc_mknod a)"

definition access_add :: "string \<Rightarrow> access_flags \<Rightarrow> access_flags" where
  "access_add s a =
     foldl (\<lambda>a flag.
       if flag = CHR ''r'' then a\<lparr>acc_read := True\<rparr>
       else if flag = CHR ''w'' then a\<lparr>acc_write := True\<rparr>
       else if flag = CHR ''m'' then a\<lparr>acc_mknod := True\<rparr>
       else a) a s"

definition show_access :: "access_flags \<Rightarrow> string" where
  "show_access a = (if acc_read a then ''r'' else '''') @ (if acc_write a then ''w'' else '''') @ (if acc_mknod a then ''m'' else '''')"

definition find_device_group_in :: "string \<Rightarrow> device_type \<Rightarrow> u64 \<Rightarrow> string option" where
  "find_device_group_in content t maj =
     (let scan = (\<lambda>header pre.
            snd (foldl (\<lambda>(in_section, found) line.
              if found \<noteq> None then (in_section, found)
              else
                (let trimmed = trim line in
                 if trimmed = header then (True, None)
                 else if in_section then
                   if trimmed = [] then (False, None)
                   else
                     (case split_once (CHR '' '') trimmed of
                        Some (maj_str, name) \<Rightarrow>
                          (case parse_u64 (trim maj_str) of
                             Ok n \<Rightarrow> if n = unat maj \<and> CHR ''/'' \<notin> set (trim name) then (True, Some (pre @ ''-'' @ trim name)) else (True, None)
                           | _ \<Rightarrow> (True, None))
                      | None \<Rightarrow> (True, None))
                 else (False, None))) (False, None) (str_lines content)))
      in if t = DevC then scan ''Character devices:'' ''char''
         else if t = DevB then scan ''Block devices:'' ''block''
         else None)"

text \<open>The order of \<open>String\<close>, by bytes, and \<open>entry(path).or_default().add(access)\<close> on a \<open>BTreeMap\<close>.\<close>

fun str_less :: "string \<Rightarrow> string \<Rightarrow> bool" where
  "str_less [] ys = (ys \<noteq> [])"
| "str_less (x # xs) [] = False"
| "str_less (x # xs) (y # ys) = ((of_char x :: nat) < of_char y \<or> x = y \<and> str_less xs ys)"

fun entry_add :: "string \<Rightarrow> string \<Rightarrow> (string \<times> access_flags) list \<Rightarrow> (string \<times> access_flags) list" where
  "entry_add p s [] = [(p, access_add s no_access)]"
| "entry_add p s ((q, a) # es) =
     (if p = q then (q, access_add s a) # es
      else if str_less p q then (p, access_add s no_access) # (q, a) # es
      else (q, a) # entry_add p s es)"

definition non_negative :: "i64 option \<Rightarrow> i64 option" where
  "non_negative v = (case v of Some n \<Rightarrow> if 0 \<le> sint n then Some n else None | None \<Rightarrow> None)"

text \<open>
  The entry of a rule: \<open>None\<close> where the rule is skipped. \<open>exists_at\<close> is \<open>Path::exists\<close>, \<open>proc_devices\<close> the
  result of reading \<open>/proc/devices\<close>.
\<close>

definition device_entry :: "(string \<Rightarrow> bool) \<Rightarrow> (os_error, string) outcome \<Rightarrow> nat \<Rightarrow> device_type \<Rightarrow> string \<Rightarrow> device_rule \<Rightarrow>
    (systemd_devices_error, string option) outcome" where
  "device_entry exists_at proc_devices systemd_version t type_prefix rule =
     (case (non_negative (major rule), non_negative (minor rule)) of
        (None, None) \<Rightarrow> Ok (Some (type_prefix @ ''-*''))
      | (None, Some _) \<Rightarrow> Ok None
      | (Some maj, None) \<Rightarrow>
          if 240 \<le> systemd_version then Ok (Some (type_prefix @ ''-'' @ int_to_string (sint maj)))
          else bind_outcome (map_err (ProcDevices ''/proc/devices'') proc_devices) (\<lambda>content.
               Ok (find_device_group_in content t maj))
      | (Some maj, Some mnr) \<Rightarrow>
          (let node = ''/dev/'' @ type_prefix @ ''/'' @ int_to_string (sint maj) @ '':'' @ int_to_string (sint mnr) in
           if systemd_version < 240 \<and> \<not> exists_at node then Ok None else Ok (Some node)))"

fun allow_entries :: "(string \<Rightarrow> bool) \<Rightarrow> (os_error, string) outcome \<Rightarrow> nat \<Rightarrow> device_type \<Rightarrow> device_rule list \<Rightarrow>
    (string \<times> access_flags) list \<Rightarrow> (systemd_devices_error, (string \<times> access_flags) list) outcome" where
  "allow_entries exists_at proc_devices systemd_version dflt [] allowed = Ok allowed"
| "allow_entries exists_at proc_devices systemd_version dflt (rule # rs) allowed =
     (let t = typ_or dflt rule in
      if t \<noteq> DevC \<and> t \<noteq> DevB then Err (UnsupportedDeviceType t)
      else
        (case access rule of
           None \<Rightarrow> allow_entries exists_at proc_devices systemd_version dflt rs allowed
         | Some acc \<Rightarrow>
             bind_outcome (device_entry exists_at proc_devices systemd_version t (if t = DevC then ''char'' else ''block'') rule) (\<lambda>entry.
             allow_entries exists_at proc_devices systemd_version dflt rs
               (case entry of Some p \<Rightarrow> entry_add p acc allowed | None \<Rightarrow> allowed))))"

definition device_policy :: "string \<Rightarrow> string structure_rec list \<Rightarrow> properties \<Rightarrow> properties" where
  "device_policy policy allow_list properties =
     properties(''DevicePolicy'' \<mapsto> VString policy, ''DeviceAllow'' \<mapsto> VArrayStructSS allow_list)"

definition sd_devices_apply :: "(string \<Rightarrow> bool) \<Rightarrow> (os_error, string) outcome \<Rightarrow> device_type \<Rightarrow> (linux_device \<Rightarrow> device_rule) \<Rightarrow>
    device_rule list option \<Rightarrow> nat \<Rightarrow> properties \<Rightarrow> (systemd_devices_error, properties) outcome" where
  "sd_devices_apply exists_at proc_devices dflt to_rule devices systemd_version properties =
     (let em = add_rules dflt (case devices of Some ds \<Rightarrow> ds | None \<Rightarrow> []) (with_default_allow False);
          has_deny_rule = list_ex (\<lambda>rule. \<not> allow rule) (rules em)
      in
      if default_allow em \<and> \<not> has_deny_rule then Ok (device_policy ''auto'' [] properties)
      else if has_deny_rule then Ok (device_policy ''strict'' [] properties)
      else
        (let em = foldl (\<lambda>em d. add_rule dflt d em) em (map to_rule default_devices @ default_allow_devices) in
         bind_outcome (allow_entries exists_at proc_devices systemd_version dflt (rules em) []) (\<lambda>allowed.
         Ok (device_policy ''strict''
               (map (\<lambda>(p, a). \<lparr>key = p, val = show_access a\<rparr>) (filter (\<lambda>(p, a). \<not> access_is_empty a) allowed)) properties))))"

section \<open>Unified resources\<close>

datatype systemd_unified_error =
    CpuWeightError int_error string
  | CpuMaxFormat string
  | CpuQuotaError int_error string
  | CpuPeriodError int_error string
  | SdOldSystemd string
  | CpuSetCpu bitmask_error
  | SdMemory int_error string string
  | PidsMax int_error string
  | SdInvalidFilename string
  | SdInvalidFormat string

definition memory_property_name :: "string \<Rightarrow> string option" where
  "memory_property_name k =
     map_of [(''memory.min'', ''MemoryMin''), (''memory.low'', ''MemoryLow''), (''memory.high'', ''MemoryHigh''), (''memory.max'', ''MemoryMax'')] k"

definition unified_cpu_max :: "string \<Rightarrow> properties \<Rightarrow> (systemd_unified_error, properties) outcome" where
  "unified_cpu_max v properties =
     (case split_whitespace v of
        [q] \<Rightarrow>
          bind_outcome (map_err (\<lambda>e. CpuQuotaError e q) (parse_u64 q)) (\<lambda>quota.
          Ok (properties(''CPUQuotaPerSecUSec'' \<mapsto> VU64 (of_nat quota))))
      | [q, p] \<Rightarrow>
          bind_outcome (map_err (\<lambda>e. CpuQuotaError e q) (parse_u64 q)) (\<lambda>quota.
          bind_outcome (map_err (\<lambda>e. CpuPeriodError e p) (parse_u64 p)) (\<lambda>period.
          Ok (properties(''CPUQuotaPerSecUSec'' \<mapsto> VU64 (of_nat quota), ''CPUQuotaPeriodUSec'' \<mapsto> VU64 (of_nat period)))))
      | _ \<Rightarrow> Err (CpuMaxFormat v))"

definition sd_unified_entry :: "'b bitset_ops \<Rightarrow> (nat \<Rightarrow> nat) \<Rightarrow> nat \<Rightarrow> string \<times> string \<Rightarrow> properties \<Rightarrow>
    (systemd_unified_error, properties) outcome" where
  "sd_unified_entry ops fit systemd_version = (\<lambda>(k, v) properties.
     if CHR ''/'' \<in> set k then Err (SdInvalidFilename k)
     else if CHR ''.'' \<notin> set k \<or> prefix ''.'' k then Err (SdInvalidFormat k)
     else if k = ''cpu.weight'' then
       bind_outcome (map_err (\<lambda>e. CpuWeightError e v) (parse_u64 v)) (\<lambda>shares.
       Ok (properties(''CPUWeight'' \<mapsto> VU64 (of_nat (sd_convert_shares_to_cgroup2 fit shares)))))
     else if k = ''cpu.max'' then unified_cpu_max v properties
     else if k = ''cpuset.cpus'' \<or> k = ''cpuset.mems'' then
       if systemd_version \<le> 243 then Err (SdOldSystemd k)
       else
         bind_outcome (map_err CpuSetCpu (to_bitmask ops v)) (\<lambda>msk.
         Ok (properties((if k = ''cpuset.cpus'' then ''AllowedCPUs'' else ''AllowedMemoryNodes'') \<mapsto> bitmask_variant msk)))
     else
       (case memory_property_name k of
          Some name \<Rightarrow>
            bind_outcome (map_err (\<lambda>e. SdMemory e k v) (parse_u64 v)) (\<lambda>n. Ok (properties(name \<mapsto> VU64 (of_nat n))))
        | None \<Rightarrow>
            if k = ''pids.max'' then
              bind_outcome (map_err (\<lambda>e. PidsMax e v) (parse_i64 (trim v))) (\<lambda>n. Ok (properties(''TasksMax'' \<mapsto> VU64 (word_of_int n))))
            else Ok properties))"

fun sd_unified_apply :: "'b bitset_ops \<Rightarrow> (nat \<Rightarrow> nat) \<Rightarrow> nat \<Rightarrow> (string \<times> string) list \<Rightarrow> properties \<Rightarrow>
    (systemd_unified_error, properties) outcome" where
  "sd_unified_apply ops fit systemd_version [] properties = Ok properties"
| "sd_unified_apply ops fit systemd_version (e # es) properties =
     bind_outcome (sd_unified_entry ops fit systemd_version e properties) (sd_unified_apply ops fit systemd_version es)"

section \<open>What DeviceAllow grants\<close>

lemma access_add_flags: "set (show_access (access_add s a)) = set (show_access a) \<union> set s \<inter> {CHR ''r'', CHR ''w'', CHR ''m''}"
proof (induction s arbitrary: a)
  case (Cons c s)
  have "access_add (c # s) a = access_add s (access_add [c] a)"
    by (simp add: access_add_def)
  moreover have "set (show_access (access_add [c] a)) = set (show_access a) \<union> {c} \<inter> {CHR ''r'', CHR ''w'', CHR ''m''}"
    by (auto simp: access_add_def show_access_def)
  ultimately show ?case
    using Cons [of "access_add [c] a"] by auto
qed (simp add: access_add_def)

lemma show_access_empty: "show_access a = [] \<longleftrightarrow> access_is_empty a" "set (show_access no_access) = {}"
  by (auto simp: show_access_def access_is_empty_def no_access_def)

lemma entry_add_cases:
  "(q, a) \<in> set (entry_add p s es) \<Longrightarrow>
     (q, a) \<in> set es \<or> q = p \<and> (a = access_add s no_access \<or> (\<exists>b. (p, b) \<in> set es \<and> a = access_add s b))"
  by (induction p s es rule: entry_add.induct) (auto split: if_splits)

text \<open>A flag of an entry comes from a rule for that entry.\<close>

definition granted_by :: "(device_rule \<Rightarrow> string \<Rightarrow> bool) \<Rightarrow> device_rule set \<Rightarrow> (string \<times> access_flags) list \<Rightarrow> bool" where
  "granted_by names R es \<longleftrightarrow>
     (\<forall>(p, a) \<in> set es. \<forall>f \<in> set (show_access a). \<exists>r \<in> R. \<exists>acc. access r = Some acc \<and> f \<in> set acc \<and> names r p)"

lemma granted_by_add:
  assumes "granted_by names R es" and "r \<in> R" "access r = Some acc" "names r p"
  shows "granted_by names R (entry_add p acc es)"
  unfolding granted_by_def
proof clarify
  fix q a f
  assume q: "(q, a) \<in> set (entry_add p acc es)" and f: "f \<in> set (show_access a)"
  show "\<exists>r \<in> R. \<exists>acc. access r = Some acc \<and> f \<in> set acc \<and> names r q"
    using entry_add_cases [OF q] f assms unfolding granted_by_def
    by (fastforce simp: access_add_flags show_access_empty)
qed

definition rule_names :: "(string \<Rightarrow> bool) \<Rightarrow> (os_error, string) outcome \<Rightarrow> nat \<Rightarrow> device_type \<Rightarrow> device_rule \<Rightarrow> string \<Rightarrow> bool" where
  "rule_names exists_at proc_devices systemd_version dflt r p \<longleftrightarrow>
     device_entry exists_at proc_devices systemd_version (typ_or dflt r) (if typ_or dflt r = DevC then ''char'' else ''block'') r = Ok (Some p)"

lemma allow_entries_granted:
  assumes "allow_entries ex pd v dflt rs allowed = Ok es" "granted_by (rule_names ex pd v dflt) R allowed" "set rs \<subseteq> R"
  shows "granted_by (rule_names ex pd v dflt) R es"
  using assms
proof (induction rs arbitrary: allowed)
  case (Cons r rs)
  show ?case
  proof (cases "access r")
    case None
    then show ?thesis
      using Cons by (auto simp: Let_def split: if_splits)
  next
    case (Some acc)
    then obtain entry where e: "device_entry ex pd v (typ_or dflt r) (if typ_or dflt r = DevC then ''char'' else ''block'') r = Ok entry"
      and rest: "allow_entries ex pd v dflt rs (case entry of Some p \<Rightarrow> entry_add p acc allowed | None \<Rightarrow> allowed) = Ok es"
      using Cons.prems(1) by (auto simp: Let_def outcome_simps split: if_splits)
    have n: "entry = Some p \<Longrightarrow> rule_names ex pd v dflt r p" for p
      using e by (simp add: rule_names_def)
    have "granted_by (rule_names ex pd v dflt) R (case entry of Some p \<Rightarrow> entry_add p acc allowed | None \<Rightarrow> allowed)"
      using Cons.prems(2,3) Some n by (auto intro!: granted_by_add split: option.split)
    then show ?thesis
      using Cons.IH [OF rest] Cons.prems(3) by simp
  qed
qed simp

lemma add_rules_append: "add_rules dflt (rs @ rs') em = foldl (\<lambda>em d. add_rule dflt d em) (add_rules dflt rs em) rs'"
  by (simp add: add_rules_def)

lemma foldl_add_rule_rules: "set (rules (foldl (\<lambda>em d. add_rule dflt d em) em rs)) \<subseteq> set (rules em) \<union> set rs"
proof (induction rs arbitrary: em)
  case (Cons r rs)
  have "set (rules (add_rule dflt r em)) \<subseteq> set (rules em) \<union> {r}"
    by (auto simp: add_rule_def)
  then show ?case
    using Cons [of "add_rule dflt r em"] by auto
qed simp


section \<open>Limits for systemd and for the cgroup file system\<close>

text \<open>
  C0. With a memory limit and a larger sum of memory and swap, systemd is given the memory limit and the
  difference as the swap limit, the values that the cgroup v2 manager writes to the files.
\<close>

theorem systemd_memory_limits:
  assumes "1 \<le> l" and "l \<le> s" and "mem_limit_of mem = Some l" and "mem_swap_of mem = Some s"
    and "sd_memory_apply mem properties = Ok properties'"
  shows "properties' ''MemoryMax'' = Some (VU64 (word_of_int l)) \<and> properties' ''MemorySwapMax'' = Some (VU64 (word_of_int (s - l))) \<and>
    swap_limit l (Some s) = Some (s - l)"
  using assms by (auto simp: sd_memory_apply_def memory_property_def apply_swap_def swap_limit_def outcome_simps Let_def split: if_splits option.splits)

text \<open>
  C0. A sum of memory and swap below the memory limit is an error for the cgroup v2 manager but is silently
  dropped by the systemd manager, which leaves the swap of the container unlimited.
\<close>

theorem swap_below_limit_dropped:
  assumes "1 \<le> s" and "s < l"
  shows "apply_swap (Some s) (Some l) properties = Ok properties \<and>
    fst (v2_memory_apply env p \<lparr>mem_limit_of = Some l, mem_reservation_of = None, mem_swap_of = Some s\<rparr> w) = Err (SwapTooSmall s l)"
  using assms by (auto simp: apply_swap_def v2_memory_apply_def memory_limits_def Let_def st_bind_def st_fail_def)

text \<open>
  C0. The quota of a unified \<open>cpu.max\<close> entry reaches systemd without regard to its period, while the same
  quota and period given as CPU resources are converted to time per second; and a unified
  \<open>cpu.weight\<close>, which is a weight already, is converted as if it were shares.
\<close>

theorem unified_cpu_not_converted:
  assumes "split_whitespace v = [nat_to_string q, nat_to_string p]" and "0 < q" and "0 < p" and "q < 2 ^ 63" and "p < 2 ^ 64"
  shows "(\<exists>properties'. unified_cpu_max v properties = Ok properties' \<and> properties' ''CPUQuotaPerSecUSec'' = Some (VU64 (of_nat q))) \<and>
    sd_cpu_quota (cpu\<lparr>cpu_quota := Some (int q), cpu_period := Some p\<rparr>) = Ok (of_nat q * 1000000 div of_nat p) \<and>
    sd_unified_entry ops fit ver (''cpu.weight'', ''2'') Map.empty = Ok [''CPUWeight'' \<mapsto> VU64 1]"
proof -
  have "parse_u64 ''2'' = Ok 2"
    by (simp add: parse_uint_def digit_val_def)
  then show ?thesis
    using assms by (simp add: unified_cpu_max_def sd_cpu_quota_def sd_unified_entry_def sd_convert_shares_to_cgroup2_def)
qed

text \<open>
  C0. A CPU quota with a period of zero makes the systemd CPU controller divide by zero and panic, where the
  cgroup v2 controller just writes the values.
\<close>

theorem zero_period_panics:
  assumes "cpu_quota cpu = Some q" and "0 < q" and "cpu_period cpu = Some 0" and "\<not> is_realtime_requested cpu"
  shows "sd_cpu_apply fit cpu properties = Panic"
  using assms by (simp add: sd_cpu_apply_def sd_cpu_quota_def Let_def)

section \<open>CPU sets reach systemd\<close>

text \<open>
  What the bit set promises: \<open>mem b\<close> are the bits that are set, all below the length; up to \<open>limit\<close> it can
  be grown; its blocks hold 64 bits each, the least significant bit first.
\<close>

definition bitset_law :: "'b bitset_ops \<Rightarrow> ('b \<Rightarrow> nat set) \<Rightarrow> nat \<Rightarrow> bool" where
  "bitset_law ops mem limit \<longleftrightarrow>
     (\<forall>n. mem (bs_with_capacity ops n) = {}) \<and>
     (\<forall>n b. n \<le> limit \<longrightarrow> bs_len ops b < n \<longrightarrow> (\<exists>b'. bs_grow ops n b = Some b' \<and> bs_len ops b' = n \<and> mem b' = mem b)) \<and>
     (\<forall>i b. i < bs_len ops b \<longrightarrow> mem (bs_set ops i True b) = insert i (mem b)) \<and>
     (\<forall>i j b. i \<le> j \<longrightarrow> j \<le> bs_len ops b \<longrightarrow> mem (bs_set_range ops i j True b) = mem b \<union> {i..<j}) \<and>
     (\<forall>b i. i \<in> mem b \<longleftrightarrow> i div 64 < length (bs_as_slice ops b) \<and> bit (bs_as_slice ops b ! (i div 64)) (i mod 64))"

definition show_range :: "nat \<times> nat \<Rightarrow> string" where
  "show_range = (\<lambda>(a, b). if a = b then nat_to_string a else nat_to_string a @ ''-'' @ nat_to_string b)"

definition show_cpus :: "(nat \<times> nat) list \<Rightarrow> string" where
  "show_cpus rs = join_with '','' (map show_range rs)"

definition cpus_of :: "(nat \<times> nat) list \<Rightarrow> nat set" where
  "cpus_of rs = (\<Union>(a, b) \<in> set rs. {a..b})"

lemma show_range_printable: "list_all printable (show_range r)"
  by (auto simp: show_range_def list_all_iff nat_to_string_printable split: prod.splits) (simp add: printable_def)

lemma show_range_no_comma: "CHR '','' \<notin> set (show_range r)" "show_range r \<noteq> []"
  by (auto simp: show_range_def nat_to_string_char_neq digit_val_def split: prod.splits)

lemma parse_index_show: "n < 2 ^ 64 \<Longrightarrow> parse_index (nat_to_string n) = Ok n"
  by (simp add: parse_index_def)

lemma grow_to_Ok:
  assumes "bitset_law ops mem limit" "i < limit" "limit < 2 ^ 64"
  shows "\<exists>b'. grow_to ops s i b = Ok b' \<and> i < bs_len ops b' \<and> mem b' = mem b"
proof (cases "bs_len ops b \<le> i")
  case True
  then have "\<exists>b'. bs_grow ops (i + 1) b = Some b' \<and> bs_len ops b' = i + 1 \<and> mem b' = mem b"
    using assms(1,2) unfolding bitset_law_def by (metis Suc_eq_plus1 Suc_leI le_imp_less_Suc)
  moreover have "checked_succ i = Some (i + 1)"
    using assms(2,3) by (simp add: checked_succ_def)
  ultimately show ?thesis
    using True by (auto simp: grow_to_def)
qed (simp add: grow_to_def)

lemma bitmask_part_show:
  assumes "bitset_law ops mem limit" "limit < 2 ^ 64" "lo \<le> hi" "hi < limit"
  shows "\<exists>b'. bitmask_part ops (show_range (lo, hi)) b = Ok b' \<and> mem b' = mem b \<union> {lo..hi}"
proof -
  obtain b1 where g: "grow_to ops (show_range (lo, hi)) hi b = Ok b1" "hi < bs_len ops b1" "mem b1 = mem b"
    using grow_to_Ok [OF assms(1,4,2)] by blast
  have s: "split_on CHR ''-'' (nat_to_string n) = [nat_to_string n]" for n
    by (intro split_on_no_sep nat_to_string_char_neq) simp
  have t: "trim (nat_to_string n) = nat_to_string n" for n
    by (intro trim_printable) (auto simp: list_all_iff nat_to_string_printable)
  show ?thesis
  proof (cases "lo = hi")
    case True
    then have "bitmask_part ops (show_range (lo, hi)) b = Ok (bs_set ops hi True b1)"
      using g(1) assms by (simp add: bitmask_part_def show_range_def s t parse_index_show)
    moreover have "mem (bs_set ops hi True b1) = insert hi (mem b1)"
      using assms(1) g(2) unfolding bitset_law_def by simp
    ultimately show ?thesis
      using g(3) True by auto
  next
    case False
    have "split_on CHR ''-'' (show_range (lo, hi)) = [nat_to_string lo, nat_to_string hi]"
      using False split_on_append [of "CHR ''-''" "nat_to_string lo" "nat_to_string hi"] nat_to_string_char_neq [of "CHR ''-''" lo]
      by (simp add: show_range_def s)
    then have "bitmask_part ops (show_range (lo, hi)) b = Ok (bs_set_range ops lo (hi + 1) True b1)"
      using g(1) assms by (simp add: bitmask_part_def t parse_index_show checked_succ_def)
    moreover have "mem (bs_set_range ops lo (hi + 1) True b1) = mem b1 \<union> {lo..<hi + 1}"
      using assms(1,3) g(2) unfolding bitset_law_def by simp
    ultimately show ?thesis
      using g(3) by (auto simp: atLeastLessThanSuc_atLeastAtMost)
  qed
qed

lemma bitmask_loop_show:
  assumes "bitset_law ops mem limit" "limit < 2 ^ 64" "\<forall>(a, b) \<in> set rs. a \<le> b \<and> b < limit"
  shows "\<exists>b'. bitmask_loop ops (map show_range rs) b = Ok b' \<and> mem b' = mem b \<union> cpus_of rs"
  using assms(3)
proof (induction rs arbitrary: b)
  case (Cons r rs)
  obtain lo hi where r: "r = (lo, hi)"
    by (cases r)
  with Cons.prems obtain b1 where b1: "bitmask_part ops (show_range r) b = Ok b1" "mem b1 = mem b \<union> {lo..hi}"
    using bitmask_part_show [OF assms(1,2), of lo hi b] by auto
  have "\<forall>(a, b) \<in> set rs. a \<le> b \<and> b < limit"
    using Cons.prems by simp
  from Cons.IH [OF this, of b1] obtain b' where "bitmask_loop ops (map show_range rs) b1 = Ok b'" "mem b' = mem b1 \<union> cpus_of rs"
    by blast
  then show ?case
    using b1 r show_range_no_comma(2) [of r] by (auto simp: trim_printable [OF show_range_printable] Let_def cpus_of_def)
qed (simp add: cpus_of_def)

lemma split_terminator_show:
  assumes "rs \<noteq> []" shows "split_terminator CHR '','' (show_cpus rs) = map show_range rs"
proof -
  have "split_on CHR '','' (show_cpus rs) = map show_range rs"
    unfolding show_cpus_def using assms show_range_no_comma by (intro split_on_join) auto
  moreover have "last (map show_range rs) \<noteq> []"
    using assms show_range_no_comma(2) by (simp add: last_map)
  ultimately show ?thesis
    by (simp add: split_terminator_def)
qed

text \<open>The bits of a little-endian byte array.\<close>

definition le_bit :: "u8 list \<Rightarrow> nat \<Rightarrow> bool" where
  "le_bit bs i \<longleftrightarrow> i div 8 < length bs \<and> bit (bs ! (i div 8)) (i mod 8)"

lemma le_bit_snoc_zero: "le_bit (bs @ [0]) i \<longleftrightarrow> le_bit bs i"
  by (auto simp: le_bit_def nth_append less_Suc_eq)

lemma le_bit_strip: "le_bit (rev (dropWhile (\<lambda>b. b = 0) (rev bs))) i \<longleftrightarrow> le_bit bs i"
  by (induction bs rule: rev_induct) (auto simp: le_bit_snoc_zero)

lemma to_le_bytes_bit: "i < 8 * n \<Longrightarrow> bit (to_le_bytes n w ! (i div 8)) (i mod 8) \<longleftrightarrow> bit w i"
proof (induction n arbitrary: w i)
  case (Suc n)
  show ?case
  proof (cases "i < 8")
    case True
    then show ?thesis
      by (simp add: bit_ucast_iff bit_imp_le_length)
  next
    case False
    then have d: "i div 8 = Suc ((i - 8) div 8)" "(i - 8) mod 8 = i mod 8" "i - 8 < 8 * n"
      using Suc.prems by (simp_all add: le_div_geq le_mod_geq)
    then show ?thesis
      using Suc.IH [OF d(3), of "drop_bit 8 w"] False by (simp add: bit_drop_bit_eq)
  qed
qed simp

lemma le_bit_blocks:
  "le_bit (concat (map (to_le_bytes 8) (ws :: u64 list))) i \<longleftrightarrow> i div 64 < length ws \<and> bit (ws ! (i div 64)) (i mod 64)"
proof (induction ws arbitrary: i)
  case (Cons w ws)
  show ?case
  proof (cases "i < 64")
    case True
    then have "i div 8 < 8"
      by simp
    then show ?thesis
      using True to_le_bytes_bit [of i 8 w] by (simp add: le_bit_def nth_append del: to_le_bytes.simps)
  next
    case False
    then obtain k where k: "i = 64 + k"
      using le_Suc_ex by (metis not_less)
    have d: "(64 + k) div 8 = 8 + k div 8" "(64 + k) mod 8 = k mod 8" "(64 + k) div 64 = Suc (k div 64)" "(64 + k) mod 64 = k mod 64"
      by (simp_all, presburger)
    have "le_bit (concat (map (to_le_bytes 8) (w # ws))) i \<longleftrightarrow> le_bit (concat (map (to_le_bytes 8) ws)) k"
      unfolding k le_bit_def d by (simp add: nth_append del: to_le_bytes.simps)
    then show ?thesis
      using Cons [of k] unfolding k d by simp
  qed
qed (simp add: le_bit_def)

lemma mask_bytes_ucast: "mask_bytes k (map ucast bs) = Ok bs"
proof (induction bs)
  case (Cons b bs)
  have "\<not> 255 < (ucast b :: u64)"
    using unsigned_less [where 'a = nat, of b] by (simp add: word_less_nat_alt unsigned_ucast_eq take_bit_nat_eq_self)
  moreover have "ucast (ucast b :: u64) = b"
    by (rule bit_word_eqI) (simp add: bit_ucast_iff)
  ultimately show ?case
    using Cons by simp
qed simp

text \<open>
  C36. A CPU set written as a list of ranges reaches systemd unchanged: the controller accepts it, and the byte
  array that the D-Bus client sends for it, least significant byte first, has exactly the bits of the
  listed CPUs. The indices must be small enough for the bit set to be allocated.
\<close>

theorem cpuset_reaches_systemd:
  assumes "bitset_law ops mem limit" and "limit < 2 ^ 64" and "\<forall>(a, b) \<in> set rs. a \<le> b \<and> b < limit" and "rs \<noteq> []"
    and "243 < ver" and "cpu_cpus cpu = Some (show_cpus rs)" and "cpu_mems cpu = None"
  shows "\<exists>v bytes. sd_cpuset_apply ops cpu ver Map.empty = Ok [''AllowedCPUs'' \<mapsto> v] \<and> wire_value ''AllowedCPUs'' v = Ok (VArrayU8 bytes) \<and>
    (\<forall>i. le_bit bytes i \<longleftrightarrow> i \<in> cpus_of rs)"
proof -
  obtain b where b: "bitmask_loop ops (map show_range rs) (bs_with_capacity ops 8) = Ok b" "mem b = cpus_of rs"
    using bitmask_loop_show [OF assms(1-3), of "bs_with_capacity ops 8"] assms(1) unfolding bitset_law_def by auto
  let ?L = "concat (map (to_le_bytes 8) (bs_as_slice ops b))"
  let ?m = "dropWhile (\<lambda>b. b = 0) (rev ?L)"
  have "concat (map to_be_bytes (rev (bs_as_slice ops b))) = rev ?L"
    by (simp add: rev_concat rev_map to_be_bytes_def [abs_def] comp_def del: to_le_bytes.simps)
  then have m: "to_bitmask ops (show_cpus rs) = Ok ?m"
    using b(1) split_terminator_show [OF assms(4)] by (simp add: to_bitmask_def)
  have "mask_bytes ''AllowedCPUs'' (rev (map ucast ?m)) = Ok (rev ?m)"
    using mask_bytes_ucast [of "''AllowedCPUs''" "rev ?m"] by (simp add: rev_map)
  then have "wire_value ''AllowedCPUs'' (bitmask_variant ?m) = Ok (VArrayU8 (rev ?m))"
    by (simp add: wire_value_def bitmask_variant_def)
  moreover have "le_bit (rev ?m) i \<longleftrightarrow> i \<in> cpus_of rs" for i
    using assms(1) unfolding le_bit_strip le_bit_blocks bitset_law_def b(2) [symmetric] by blast
  moreover have "sd_cpuset_apply ops cpu ver Map.empty = Ok [''AllowedCPUs'' \<mapsto> bitmask_variant ?m]"
    using assms(5-7) m by (simp add: sd_cpuset_apply_def set_bitmask_def)
  ultimately show ?thesis
    by blast
qed

section \<open>Concrete resources\<close>

definition demo_bitset :: "bool list bitset_ops" where
  "demo_bitset =
     \<lparr>bs_with_capacity = (\<lambda>n. replicate n False), bs_len = length,
      bs_grow = (\<lambda>n b. Some (b @ replicate (n - length b) False)),
      bs_set = (\<lambda>i v b. b[i := v]),
      bs_set_range = (\<lambda>i j v b. map (\<lambda>k. if i \<le> k \<and> k < j then v else b ! k) [0..<length b]),
      bs_as_slice = (\<lambda>b. map (\<lambda>j. horner_sum of_bool 2 (take 64 (drop (64 * j) b))) [0..<(length b + 63) div 64])\<rparr>"

lemma demo_bitset_law: "bitset_law demo_bitset (\<lambda>b. {i. i < length b \<and> b ! i}) limit"
proof -
  have "i < length b \<and> b ! i \<longleftrightarrow> i div 64 < (length b + 63) div 64 \<and> i mod 64 < min 64 (length b - 64 * (i div 64)) \<and>
      drop (64 * (i div 64)) b ! (i mod 64)" for i and b :: "bool list"
  proof -
    have "64 * (i div 64) + i mod 64 = i"
      by simp
    then have "i mod 64 < length b - 64 * (i div 64) \<longleftrightarrow> i < length b"
      by linarith
    moreover have "i div 64 < (length b + 63) div 64" if "i < length b"
      using that div_le_mono [of "i + 64" "length b + 63" 64] by simp
    ultimately have "i div 64 < (length b + 63) div 64 \<and> i mod 64 < length b - 64 * (i div 64) \<longleftrightarrow> i < length b"
      by blast
    then show ?thesis
      by (auto simp: nth_drop)
  qed
  moreover have "i div 64 < length (bs_as_slice demo_bitset b) \<and> bit (bs_as_slice demo_bitset b ! (i div 64)) (i mod 64) \<longleftrightarrow>
      i div 64 < (length b + 63) div 64 \<and> i mod 64 < min 64 (length b - 64 * (i div 64)) \<and> drop (64 * (i div 64)) b ! (i mod 64)" for i b
    by (auto simp: demo_bitset_def bit_horner_sum_bit_word_iff)
  ultimately have slice: "i div 64 < length (bs_as_slice demo_bitset b) \<and> bit (bs_as_slice demo_bitset b ! (i div 64)) (i mod 64) \<longleftrightarrow>
      i < length b \<and> b ! i" for i b
    by blast
  show ?thesis
    unfolding bitset_law_def slice by (auto simp: demo_bitset_def nth_append nth_list_update)
qed

definition no_cpu :: linux_cpu where
  "no_cpu = \<lparr>cpu_shares = None, cpu_quota = None, cpu_burst = None, cpu_period = None, cpu_realtime_runtime = None,
     cpu_realtime_period = None, cpu_cpus = None, cpu_mems = None, cpu_idle = None\<rparr>"

theorem cpuset_reaches_systemd_witness:
  "\<exists>v bytes. sd_cpuset_apply demo_bitset (no_cpu\<lparr>cpu_cpus := Some (show_cpus [(0, 3), (70, 70)])\<rparr>) 250 Map.empty = Ok [''AllowedCPUs'' \<mapsto> v] \<and>
     wire_value ''AllowedCPUs'' v = Ok (VArrayU8 bytes) \<and> (\<forall>i. le_bit bytes i \<longleftrightarrow> i \<in> {0..3} \<union> {70})"
  using cpuset_reaches_systemd [OF demo_bitset_law, of 1024 "[(0, 3), (70, 70)]" 250 "no_cpu\<lparr>cpu_cpus := Some (show_cpus [(0, 3), (70, 70)])\<rparr>"]
  by (simp add: no_cpu_def cpus_of_def)


theorem systemd_memory_limits_witness:
  "\<exists>properties'. sd_memory_apply \<lparr>mem_limit_of = Some 100, mem_reservation_of = None, mem_swap_of = Some 300\<rparr> Map.empty = Ok properties' \<and>
     properties' ''MemorySwapMax'' = Some (VU64 200)"
proof -
  let ?m = "\<lparr>mem_limit_of = Some 100, mem_reservation_of = None, mem_swap_of = Some 300\<rparr>"
  obtain properties' where "sd_memory_apply ?m Map.empty = Ok properties'"
    by (simp add: sd_memory_apply_def memory_property_def apply_swap_def Let_def)
  then show ?thesis
    using systemd_memory_limits [of 100 300 ?m Map.empty properties'] by simp
qed

theorem swap_below_limit_dropped_witness:
  "apply_swap (Some 100) (Some 300) Map.empty = Ok Map.empty \<and>
   fst (v2_memory_apply demo_fs_env [RootDir] \<lparr>mem_limit_of = Some 300, mem_reservation_of = None, mem_swap_of = Some 100\<rparr> empty_fs) =
     Err (SwapTooSmall 100 300)"
  by (rule swap_below_limit_dropped) simp_all

theorem unified_cpu_not_converted_witness:
  "\<exists>properties'. unified_cpu_max ''50 100'' Map.empty = Ok properties' \<and> properties' ''CPUQuotaPerSecUSec'' = Some (VU64 50) \<and>
     sd_cpu_quota (no_cpu\<lparr>cpu_quota := Some 50, cpu_period := Some 100\<rparr>) = (Ok 500000 :: (systemd_cpu_error, u64) outcome)"
proof -
  have s: "nat_to_string 50 = ''50''" "nat_to_string 100 = ''100''"
    by (simp_all add: nat_to_string.simps char_of_def bit_iff_odd)
  have "split_whitespace (join_with '' '' [''50'', ''100'']) = [''50'', ''100'']"
    by (rule split_whitespace_join) (auto simp: printable_def)
  then have "split_whitespace ''50 100'' = [nat_to_string 50, nat_to_string 100]"
    by (simp add: s)
  from unified_cpu_not_converted [OF this, of Map.empty no_cpu demo_bitset id 250] show ?thesis
    by auto
qed

theorem zero_period_panics_witness:
  "sd_cpu_apply id (no_cpu\<lparr>cpu_quota := Some 1, cpu_period := Some 0\<rparr>) Map.empty = Panic"
  by (rule zero_period_panics [of _ 1]) (simp_all add: no_cpu_def is_realtime_requested_def)

end
