(* ===== verification/Systemd_Manager.thy ===== *)
theory Systemd_Manager
  imports Systemd_Controllers
begin

text \<open>
  The systemd cgroup manager, \<open>libcgroups/src/systemd/manager.rs\<close>: parsing the cgroups path of the
  configuration, connecting with retries, expanding slices into directories, and the operations of
  the trait \<open>CgroupManager\<close>. The trait \<open>SystemdClient\<close> is the record \<open>systemd_client\<close>, which
  \<open>dbus_client\<close> fills with the operations of \<open>Dbus_Connection\<close>.
\<close>

section \<open>The systemd client\<close>

record 's systemd_client =
  sc_transient_unit_exists :: "string \<Rightarrow> ('s, systemd_client_error, bool) st"
  sc_start_transient_unit :: "string \<Rightarrow> u32 \<Rightarrow> string \<Rightarrow> string \<Rightarrow> ('s, systemd_client_error, unit) st"
  sc_stop_transient_unit :: "string \<Rightarrow> ('s, systemd_client_error, unit) st"
  sc_set_unit_properties :: "string \<Rightarrow> (string \<times> variant) list \<Rightarrow> ('s, systemd_client_error, unit) st"
  sc_systemd_version :: "('s, systemd_client_error, nat) st"
  sc_control_cgroup_root :: "('s, systemd_client_error, path) st"
  sc_add_process_to_unit :: "string \<Rightarrow> string \<Rightarrow> u32 \<Rightarrow> ('s, systemd_client_error, unit) st"

text \<open>
  The first number of the version string. The Unicode predicates \<open>char::is_alphabetic\<close> and \<open>char::is_numeric\<close>
  are arguments.
\<close>

definition parse_version :: "(string \<Rightarrow> bool) \<Rightarrow> (string \<Rightarrow> bool) \<Rightarrow> string \<Rightarrow> (int_error, nat) outcome" where
  "parse_version alphabetic numeric v = parse_u32 (concat (takeWhile numeric (dropWhile alphabetic (str_chars v))))"

text \<open>A reply that never comes makes the call diverge.\<close>

definition st_total :: "('s \<Rightarrow> (('e, 'a) outcome \<times> 's) option) \<Rightarrow> ('s, 'e, 'a) st" where
  "st_total m s = (case m s of Some r \<Rightarrow> r | None \<Rightarrow> (Diverge, s))"

definition client_systemd_version :: "(string \<Rightarrow> bool) \<Rightarrow> (string \<Rightarrow> bool) \<Rightarrow> 'w dbus_env \<Rightarrow>
    (dbus_connection \<times> 'w, systemd_client_error, nat) st" where
  "client_systemd_version alphabetic numeric env =
     st_bind (st_map_err DBus (st_total (proxy_version env create_proxy))) (\<lambda>v.
     st_lift (map_err SystemdVersion (parse_version alphabetic numeric v)))"

definition client_control_cgroup_root :: "('s, systemd_client_error, string) st \<Rightarrow> ('s, systemd_client_error, path) st" where
  "client_control_cgroup_root cgroup_root = st_bind cgroup_root (\<lambda>s. st_return (parse_path s))"

definition dbus_client :: "(string \<Rightarrow> bool) \<Rightarrow> (string \<Rightarrow> bool) \<Rightarrow> 'w dbus_env \<Rightarrow> (dbus_connection \<times> 'w) systemd_client" where
  "dbus_client alphabetic numeric env =
     \<lparr>sc_transient_unit_exists = (\<lambda>u. st_total (transient_unit_exists env u)),
      sc_start_transient_unit = (\<lambda>n pid parent u. st_total (client_start_transient_unit env n pid parent u)),
      sc_stop_transient_unit = (\<lambda>u. st_total (client_stop_transient_unit env u)),
      sc_set_unit_properties = (\<lambda>u ps. st_total (client_set_unit_properties env u ps)),
      sc_systemd_version = client_systemd_version alphabetic numeric env,
      sc_control_cgroup_root = client_control_cgroup_root (st_total (control_cgroup_root env)),
      sc_add_process_to_unit = (\<lambda>u sub pid. st_total (add_process_to_unit env u sub pid))\<rparr>"

section \<open>Cgroups paths and units\<close>

record cgroups_path =
  cp_parent :: string
  cp_prefix :: string
  cp_name :: string

datatype cgroups_path_error = NoPath | InvalidUtf8 path | MalformedPath path

text \<open>The path of the configuration is given by its text.\<close>

definition parse_cgroups_path :: "string \<Rightarrow> (cgroups_path_error, cgroups_path) outcome" where
  "parse_cgroups_path s =
     (if s = [] then Err NoPath
      else if \<not> wf_str s then Err (InvalidUtf8 (parse_path s))
      else case split_on (CHR '':'') s of
             [p, n] \<Rightarrow> Ok \<lparr>cp_parent = '''', cp_prefix = p, cp_name = n\<rparr>
           | [par, p, n] \<Rightarrow> Ok \<lparr>cp_parent = par, cp_prefix = p, cp_name = n\<rparr>
           | _ \<Rightarrow> Err (MalformedPath (parse_path s)))"

definition show_cgroups_path :: "cgroups_path \<Rightarrow> string" where
  "show_cgroups_path c = cp_parent c @ '':'' @ cp_prefix c @ '':'' @ cp_name c"

definition ensure_parent_unit :: "bool \<Rightarrow> cgroups_path \<Rightarrow> cgroups_path" where
  "ensure_parent_unit use_system c =
     (if cp_parent c = [] then c\<lparr>cp_parent := if use_system then ''system.slice'' else ''user.slice''\<rparr> else c)"

definition split_sub_cgroup :: "string \<Rightarrow> string \<times> string" where
  "split_sub_cgroup name = (takeWhile (\<lambda>c. c \<noteq> CHR ''/'') name, dropWhile (\<lambda>c. c \<noteq> CHR ''/'') name)"

definition get_unit_name :: "cgroups_path \<Rightarrow> string" where
  "get_unit_name c =
     (if \<not> suffix ''.slice'' (cp_name c) then cp_prefix c @ ''-'' @ cp_name c @ ''.scope'' else cp_name c)"

datatype systemd_manager_error =
    SdIo wrapped_io_error
  | SdCgroupsPath cgroups_path_error
  | InvalidSliceName string
  | SystemdClient systemd_client_error
  | SdJoinSafely join_safely_error
  | FileNotFound path
  | BadDelegationBoundary path path
  | SdV2Manager v2_manager_error
  | WaitForProcessInCgroupTimeout string
  | SdCpuErr systemd_cpu_error
  | SdCpuSetErr systemd_cpuset_error
  | SdDevicesErr systemd_devices_error
  | SdEbpfDevicesErr devices_error
  | SdIoErr systemd_io_error
  | SdMemoryErr systemd_memory_error
  | SdUnifiedErr systemd_unified_error
  | SystemdNotAvailable

text \<open>The loop of \<open>expand_slice\<close> over the components, with the path and the prefix so far.\<close>

fun slice_loop :: "string list \<Rightarrow> string \<Rightarrow> string \<Rightarrow> string option" where
  "slice_loop [] dir pre = Some dir"
| "slice_loop (c # cs) dir pre =
     (if c = [] then None else slice_loop cs (dir @ ''/'' @ pre @ c @ ''.slice'') (pre @ c @ ''-''))"

definition expand_slice :: "string \<Rightarrow> (systemd_manager_error, path) outcome" where
  "expand_slice sl =
     (if length sl \<le> 6 \<or> \<not> suffix ''.slice'' sl then Err (InvalidSliceName sl)
      else if CHR ''/'' \<in> set sl then Err (InvalidSliceName sl)
      else
        (let slice_name = trim_end_matches ''.slice'' sl in
         if slice_name = ''-'' then Ok [RootDir]
         else map_outcome parse_path (ok_or (InvalidSliceName sl) (slice_loop (split_on (CHR ''-'') slice_name) '''' ''''))))"

definition sd_join :: "path \<Rightarrow> path \<Rightarrow> (systemd_manager_error, path) outcome" where
  "sd_join base p = map_err SdJoinSafely (cg_join_safely base p)"

definition construct_cgroups_path :: "('s, systemd_client_error, path) st \<Rightarrow> cgroups_path \<Rightarrow> string \<Rightarrow>
    ('s, systemd_manager_error, path \<times> path) st" where
  "construct_cgroups_path control_root c sub_cgroup =
     st_bind (st_lift (expand_slice (cp_parent c))) (\<lambda>parent.
     st_bind (st_map_err SystemdClient control_root) (\<lambda>systemd_root.
     st_lift (
       bind_outcome (sd_join systemd_root parent) (\<lambda>p.
       bind_outcome (sd_join p (parse_path (get_unit_name c))) (\<lambda>p.
       bind_outcome (sd_join p (parse_path sub_cgroup)) (\<lambda>p.
       Ok (p, systemd_root)))))))"

section \<open>Creating the manager\<close>

definition CONNECT_MAX_RETRIES :: nat where "CONNECT_MAX_RETRIES = 7"
definition CONNECT_BASE_DELAY_MS :: nat where "CONNECT_BASE_DELAY_MS = 100"
definition CONNECT_JITTER_DIVISOR :: nat where "CONNECT_JITTER_DIVISOR = 8"

definition EAGAIN :: nat where "EAGAIN = 11"

record sd_manager =
  sd_root_path :: path
  sd_cgroups_path :: path
  sd_full_path :: path
  sd_destructured_path :: cgroups_path
  sd_container_name :: string
  sd_sub_cgroup :: string
  sd_unit_name :: string
  sd_fs_manager :: v2_manager
  sd_delegation_boundary :: path
  sd_wait_timeout :: nat
  sd_rootless :: bool

text \<open>
  What creating the manager calls: connecting to the system or the session bus, asking a connection for
  the control group of systemd, sleeping, and the nanoseconds of the clock within the current second,
  \<open>None\<close> before the epoch. \<open>dbus_connect_env\<close> is the instance for \<open>DbusConnection\<close>.
\<close>

record ('w, 'c) connect_env =
  connect_bus :: "bool \<Rightarrow> ('w, systemd_client_error, 'c) st"
  cgroup_root_of :: "('c \<times> 'w, systemd_client_error, string) st"
  connect_sleep :: "nat \<Rightarrow> 'w \<Rightarrow> 'w"
  subsec_nanos :: "'w \<Rightarrow> nat option"

definition dbus_connect_env :: "'w dbus_env \<Rightarrow> (nat \<Rightarrow> 'w \<Rightarrow> 'w) \<Rightarrow> ('w \<Rightarrow> nat option) \<Rightarrow> ('w, dbus_connection) connect_env" where
  "dbus_connect_env env sleep nanos =
     \<lparr>connect_bus = (\<lambda>use_system. st_map_err DBus (st_total (if use_system then new_system env else new_session env))),
      cgroup_root_of = st_total (control_cgroup_root env), connect_sleep = sleep, subsec_nanos = nanos\<rparr>"

definition is_eagain :: "systemd_manager_error \<Rightarrow> bool" where
  "is_eagain e \<longleftrightarrow> e = SystemdClient (DBus (Nix EAGAIN))"

definition backoff :: "nat option \<Rightarrow> nat \<Rightarrow> nat" where
  "backoff nanos retry =
     (let delay_ms = CONNECT_BASE_DELAY_MS * 2 ^ retry;
          jitter_ms = (case nanos of Some n \<Rightarrow> n mod (1 + delay_ms div CONNECT_JITTER_DIVISOR) | None \<Rightarrow> 0)
      in delay_ms + jitter_ms)"

definition try_connect :: "('w, 'c) connect_env \<Rightarrow> bool \<Rightarrow> ('w, systemd_manager_error, 'c) st" where
  "try_connect env use_system = st_map_err SystemdClient (connect_bus env use_system)"

text \<open>An attempt: connect, then ask for the cgroup root. The connection is dropped when the second step fails.\<close>

definition connect_attempt :: "('w, 'c) connect_env \<Rightarrow> bool \<Rightarrow> cgroups_path \<Rightarrow> string \<Rightarrow>
    ('w, systemd_manager_error, 'c \<times> path \<times> path) st" where
  "connect_attempt env use_system c sub_cgroup =
     st_bind (try_connect env use_system) (\<lambda>conn w.
     case construct_cgroups_path (client_control_cgroup_root (cgroup_root_of env)) c sub_cgroup (conn, w) of
       (r, conn, w) \<Rightarrow> (map_outcome (\<lambda>ps. (conn, ps)) r, w))"

text \<open>
  The attempts that are left when \<open>retry\<close> have failed with EAGAIN, the last one with \<open>last_err\<close>. The
  message of the final error has the text of that error.
\<close>

fun connect_loop :: "('w, 'c) connect_env \<Rightarrow> (systemd_manager_error \<Rightarrow> string) \<Rightarrow> bool \<Rightarrow> cgroups_path \<Rightarrow> string \<Rightarrow>
    nat \<Rightarrow> systemd_manager_error option \<Rightarrow> ('w, systemd_manager_error, 'c \<times> path \<times> path) st" where
  "connect_loop env show_error use_system c sub_cgroup 0 last_err w =
     (Err (SystemdClient (DBus (ConnectionError
        (''dbus connection failed after 7 retries: '' @ (case last_err of Some e \<Rightarrow> show_error e | None \<Rightarrow> ''unknown error''))))), w)"
| "connect_loop env show_error use_system c sub_cgroup (Suc left) last_err w =
     (case connect_attempt env use_system c sub_cgroup w of
        (Err e, w) \<Rightarrow>
          if \<not> is_eagain e then (Err e, w)
          else
            (let retry = CONNECT_MAX_RETRIES - Suc left;
                 w = (if left = 0 then w else connect_sleep env (backoff (subsec_nanos env w) retry) w)
             in connect_loop env show_error use_system c sub_cgroup left (Some e) w)
      | r \<Rightarrow> r)"

definition sd_manager_new :: "('w, 'c) connect_env \<Rightarrow> (systemd_manager_error \<Rightarrow> string) \<Rightarrow> path \<Rightarrow> string \<Rightarrow> string \<Rightarrow> bool \<Rightarrow> nat \<Rightarrow>
    ('w, systemd_manager_error, 'c \<times> sd_manager) st" where
  "sd_manager_new env show_error root cgroups_path name use_system timeout =
     st_bind (st_lift (map_err SdCgroupsPath (parse_cgroups_path cgroups_path))) (\<lambda>c.
     (let c = ensure_parent_unit use_system c;
          (base, sub_cgroup) = split_sub_cgroup (cp_name c);
          c = c\<lparr>cp_name := base\<rparr>
      in
      st_bind (connect_loop env show_error use_system c sub_cgroup CONNECT_MAX_RETRIES None) (\<lambda>(conn, p, boundary).
      st_lift (
        bind_outcome (sd_join root p) (\<lambda>full.
        bind_outcome (map_err SdV2Manager (v2_manager_new root p)) (\<lambda>fs_manager.
        Ok (conn, \<lparr>sd_root_path = root, sd_cgroups_path = p, sd_full_path = full, sd_destructured_path = c,
                   sd_container_name = name, sd_sub_cgroup = sub_cgroup, sd_unit_name = get_unit_name c,
                   sd_fs_manager = fs_manager, sd_delegation_boundary = boundary, sd_wait_timeout = timeout,
                   sd_rootless = False\<rparr>)))))))"

definition sd_with_rootless :: "bool \<Rightarrow> sd_manager \<Rightarrow> sd_manager" where
  "sd_with_rootless b m = m\<lparr>sd_rootless := b\<rparr>"

section \<open>The operations of the manager\<close>

datatype sd_controller_type = SdCpu | SdCpuSet | SdDevices | SdIoCtl | SdMemoryCtl | SdPids

primrec show_sd_controller :: "sd_controller_type \<Rightarrow> string" where
  "show_sd_controller SdCpu = ''cpu''"
| "show_sd_controller SdCpuSet = ''cpuset''"
| "show_sd_controller SdDevices = ''devices''"
| "show_sd_controller SdIoCtl = ''io''"
| "show_sd_controller SdMemoryCtl = ''memory''"
| "show_sd_controller SdPids = ''pids''"

definition SD_CONTROLLER_TYPES :: "sd_controller_type list" where
  "SD_CONTROLLER_TYPES = [SdCpu, SdCpuSet, SdDevices, SdIoCtl, SdMemoryCtl, SdPids]"

text \<open>
  What the operations call: the client, the clock, the reads of the controllers and the crate \<open>fixedbitset\<close>,
  and the order in which the \<open>HashMap\<close> of the properties is iterated.
\<close>

record ('w, 'b) sd_env = "'w manager_env" +
  sd_client :: "'w systemd_client"
  clock_ms :: "'w \<Rightarrow> nat"
  sd_bitset :: "'b bitset_ops"
  sd_read_link :: "'w \<Rightarrow> string \<Rightarrow> path option"
  sd_proc_devices :: "'w \<Rightarrow> (os_error, string) outcome"
  sd_iter :: "properties \<Rightarrow> (string \<times> variant) list"

definition sd_controller_of_name :: "string \<Rightarrow> sd_controller_type option" where
  "sd_controller_of_name name =
     (if name = ''cpu'' then Some SdCpu else if name = ''memory'' then Some SdMemoryCtl
      else if name = ''pids'' then Some SdPids else None)"

definition sd_get_available_controllers :: "('w, 'z) fs_env_scheme \<Rightarrow> sd_manager \<Rightarrow> path \<Rightarrow> 'w \<Rightarrow>
    (systemd_manager_error, sd_controller_type list) outcome" where
  "sd_get_available_controllers env m p w =
     (let controllers_path = in_dir (path_join (sd_root_path m) p) ''cgroup.controllers'' in
      if \<not> fs_env.path_exists env controllers_path w then Err (FileNotFound controllers_path)
      else bind_outcome (map_err (\<lambda>e. SdIo (WRead e controllers_path)) (read_to_string env controllers_path w)) (\<lambda>content.
           Ok (List.map_filter sd_controller_of_name (split_whitespace content))))"

definition write_controllers :: "('w, 'z) fs_env_scheme \<Rightarrow> path \<Rightarrow> string list \<Rightarrow> ('w, systemd_manager_error, unit) st" where
  "write_controllers env p controllers =
     st_for (\<lambda>c. st_map_err SdIo (write_cgroup_file env (in_dir p ''cgroup.subtree_control'') c)) controllers"

fun attach_loop :: "('w, 'z) fs_env_scheme \<Rightarrow> string list \<Rightarrow> path \<Rightarrow> path \<Rightarrow> ('w, systemd_manager_error, unit) st" where
  "attach_loop env controllers current [] w = (Ok (), w)"
| "attach_loop env controllers current (c # cs) w =
     (let current = path_join current [c] in
      if \<not> fs_env.path_exists env current w then (Ok (), w)
      else st_bind (if cs \<noteq> [] then write_controllers env current controllers else st_return ())
             (\<lambda>_. attach_loop env controllers current cs) w)"

definition ensure_controllers_attached :: "('w, 'z) fs_env_scheme \<Rightarrow> sd_manager \<Rightarrow> ('w, systemd_manager_error, unit) st" where
  "ensure_controllers_attached env m =
     st_bind (st_lift (sd_join (sd_root_path m) (sd_delegation_boundary m))) (\<lambda>boundary.
     st_bind (\<lambda>w. (sd_get_available_controllers env m boundary w, w)) (\<lambda>available.
     (let controllers = map (\<lambda>c. ''+'' @ show_sd_controller c) available in
      st_bind (write_controllers env boundary controllers) (\<lambda>_.
      st_bind (st_lift (ok_or (BadDelegationBoundary (sd_delegation_boundary m) (sd_cgroups_path m))
                 (Rust_Paths.strip_prefix (sd_delegation_boundary m) (sd_cgroups_path m)))) (\<lambda>rest.
      attach_loop env controllers boundary (filter (\<lambda>c. c \<noteq> RootDir) rest))))))"

text \<open>An error that most likely means that the cgroup has not been set up yet.\<close>

definition is_read_error :: "v2_manager_error \<Rightarrow> bool" where
  "is_read_error e \<longleftrightarrow> (case e of MgrIo (WRead _ _) \<Rightarrow> True | _ \<Rightarrow> False)"

text \<open>
  The loop of \<open>wait_for_process_in_cgroup\<close>. The first argument bounds the iterations, the second the depth of
  the cgroup tree.
\<close>

fun wait_for_pid :: "nat \<Rightarrow> nat \<Rightarrow> ('w, 'b, 'z) sd_env_scheme \<Rightarrow> sd_manager \<Rightarrow> nat \<Rightarrow> i32 \<Rightarrow> ('w, systemd_manager_error, unit) st" where
  "wait_for_pid 0 depth env m start pid w = (Diverge, w)"
| "wait_for_pid (Suc n) depth env m start pid w =
     (if clock_ms env w - start < sd_wait_timeout m then
        (case v2_get_all_pids depth env (sd_fs_manager m) w of
           Ok pids \<Rightarrow>
             if pid \<in> set pids then (Ok (), w)
             else wait_for_pid n depth env m start pid (sleep_ms env 20 w)
         | Err e \<Rightarrow>
             if is_read_error e then wait_for_pid n depth env m start pid (sleep_ms env 20 w)
             else (Err (SdV2Manager e), w)
         | Panic \<Rightarrow> (Panic, w)
         | Diverge \<Rightarrow> (Diverge, w))
      else (Err (WaitForProcessInCgroupTimeout (show_pid pid)), w))"

definition wait_for_process_in_cgroup :: "nat \<Rightarrow> nat \<Rightarrow> ('w, 'b, 'z) sd_env_scheme \<Rightarrow> sd_manager \<Rightarrow> i32 \<Rightarrow>
    ('w, systemd_manager_error, unit) st" where
  "wait_for_process_in_cgroup fuel depth env m pid w = wait_for_pid fuel depth env m (clock_ms env w) pid w"

definition sd_add_task :: "nat \<Rightarrow> nat \<Rightarrow> ('w, 'b, 'z) sd_env_scheme \<Rightarrow> sd_manager \<Rightarrow> i32 \<Rightarrow> ('w, systemd_manager_error, unit) st" where
  "sd_add_task fuel depth env m pid =
     (if sint pid = - 1 then st_return ()
      else
        st_bind (st_map_err SystemdClient (sc_transient_unit_exists (sd_client env) (sd_unit_name m))) (\<lambda>present.
        if present then
          st_map_err SystemdClient (sc_add_process_to_unit (sd_client env) (sd_unit_name m) (sd_sub_cgroup m) pid)
        else
          st_bind (st_map_err SystemdClient
            (sc_start_transient_unit (sd_client env) (sd_container_name m) pid (cp_parent (sd_destructured_path m)) (sd_unit_name m))) (\<lambda>_.
          wait_for_process_in_cgroup fuel depth env m pid)))"

definition opt_apply :: "('a \<Rightarrow> properties \<Rightarrow> ('e, properties) outcome) \<Rightarrow> 'a option \<Rightarrow> properties \<Rightarrow> ('e, properties) outcome" where
  "opt_apply f v properties = (case v of Some x \<Rightarrow> f x properties | None \<Rightarrow> Ok properties)"

primrec sd_controller_apply :: "('w, 'b, 'z) sd_env_scheme \<Rightarrow> linux_resources \<Rightarrow> nat \<Rightarrow> 'w \<Rightarrow> sd_controller_type \<Rightarrow> properties \<Rightarrow>
    (systemd_manager_error, properties) outcome" where
  "sd_controller_apply env res ver w SdCpu properties =
     map_err SdCpuErr (opt_apply (sd_cpu_apply (shares_fit env)) (res_cpu res) properties)"
| "sd_controller_apply env res ver w SdCpuSet properties =
     map_err SdCpuSetErr (opt_apply (\<lambda>cpu. sd_cpuset_apply (sd_bitset env) cpu ver) (res_cpu res) properties)"
| "sd_controller_apply env res ver w SdDevices properties =
     map_err SdDevicesErr (sd_devices_apply (\<lambda>node. fs_env.path_exists env (parse_path node) w) (sd_proc_devices env w)
       (default_device_type env) (device_to_rule env) (res_devices res) ver properties)"
| "sd_controller_apply env res ver w SdIoCtl properties =
     map_err SdIoErr (opt_apply (sd_io_apply (sd_read_link env w)) (res_block_io res) properties)"
| "sd_controller_apply env res ver w SdMemoryCtl properties =
     map_err SdMemoryErr (opt_apply sd_memory_apply (res_memory res) properties)"
| "sd_controller_apply env res ver w SdPids properties =
     opt_apply (\<lambda>limit properties. Ok (sd_pids_apply limit properties)) (res_pids res) properties"

fun sd_controllers :: "('w, 'b, 'z) sd_env_scheme \<Rightarrow> linux_resources \<Rightarrow> nat \<Rightarrow> 'w \<Rightarrow> sd_controller_type list \<Rightarrow> properties \<Rightarrow>
    (systemd_manager_error, properties) outcome" where
  "sd_controllers env res ver w [] properties = Ok properties"
| "sd_controllers env res ver w (c # cs) properties =
     bind_outcome (sd_controller_apply env res ver w c properties) (sd_controllers env res ver w cs)"

text \<open>The properties that \<open>apply\<close> sends.\<close>

definition sd_properties :: "('w, 'b, 'z) sd_env_scheme \<Rightarrow> linux_resources \<Rightarrow> nat \<Rightarrow> 'w \<Rightarrow> (systemd_manager_error, properties) outcome" where
  "sd_properties env res ver w =
     bind_outcome (sd_controllers env res ver w SD_CONTROLLER_TYPES Map.empty) (\<lambda>properties.
     map_err SdUnifiedErr (opt_apply (sd_unified_apply (sd_bitset env) (shares_fit env) ver) (res_unified res) properties))"

definition sd_device_filter :: "('w, 'b, 'z) sd_env_scheme \<Rightarrow> sd_manager \<Rightarrow> linux_resources \<Rightarrow> ('w, systemd_manager_error, unit) st" where
  "sd_device_filter env m res w =
     (case apply_devices (bpf_of env) (devcg_of env) (default_device_type env) (device_to_rule env)
             (show_path (sd_full_path m)) (res_devices res) w of
        (Ok _, w) \<Rightarrow> (Ok (), w)
      | (Err e, w) \<Rightarrow> if sd_rootless m then (Ok (), w) else (Err (SdEbpfDevicesErr e), w)
      | (Panic, w) \<Rightarrow> (Panic, w)
      | (Diverge, w) \<Rightarrow> (Diverge, w))"

definition sd_apply :: "('w, 'b, 'z) sd_env_scheme \<Rightarrow> sd_manager \<Rightarrow> controller_opt \<Rightarrow> ('w, systemd_manager_error, unit) st" where
  "sd_apply env m opt =
     st_bind (st_map_err SystemdClient (sc_systemd_version (sd_client env))) (\<lambda>ver.
     st_bind (\<lambda>w. (sd_properties env (resources opt) ver w, w)) (\<lambda>properties.
     st_bind
       (if sd_iter env properties \<noteq> [] then
          st_bind (ensure_controllers_attached env m) (\<lambda>_.
          st_map_err SystemdClient (sc_set_unit_properties (sd_client env) (sd_unit_name m) (sd_iter env properties)))
        else st_return ()) (\<lambda>_.
     sd_device_filter env m (resources opt))))"

definition sd_remove :: "('w, 'b, 'z) sd_env_scheme \<Rightarrow> sd_manager \<Rightarrow> ('w, systemd_manager_error, unit) st" where
  "sd_remove env m =
     st_bind (st_map_err SystemdClient (sc_transient_unit_exists (sd_client env) (sd_unit_name m))) (\<lambda>present.
     if present then st_map_err SystemdClient (sc_stop_transient_unit (sd_client env) (sd_unit_name m)) else st_return ())"

definition sd_freeze :: "('w, 'b, 'z) sd_env_scheme \<Rightarrow> sd_manager \<Rightarrow> freezer_state \<Rightarrow> ('w, systemd_manager_error, unit) st" where
  "sd_freeze env m state = st_map_err SdV2Manager (v2_freeze env (sd_fs_manager m) state)"

definition sd_stats :: "(string \<Rightarrow> 'f option) \<Rightarrow> 'f \<Rightarrow> ((string \<times> string list) list \<Rightarrow> (string \<times> string list) list) \<Rightarrow>
    ('w, 'z) fs_env_scheme \<Rightarrow> sd_manager \<Rightarrow> 'w \<Rightarrow> (systemd_manager_error, 'f stats) outcome" where
  "sd_stats parse_f64 zero iter env m w = map_err SdV2Manager (v2_stats parse_f64 zero iter env (sd_fs_manager m) w)"

definition sd_get_all_pids :: "nat \<Rightarrow> ('w, 'z) fs_env_scheme \<Rightarrow> sd_manager \<Rightarrow> 'w \<Rightarrow> (systemd_manager_error, i32 list) outcome" where
  "sd_get_all_pids depth env m w = map_err SdIo (walk_dir depth env (sd_full_path m) w)"

section \<open>Slices\<close>

text \<open>The slices from the top down to the one whose name has the components \<open>cs\<close>.\<close>

definition slice_names :: "string list \<Rightarrow> string list" where
  "slice_names cs = map (\<lambda>i. join_with ''-'' (take (Suc i) cs) @ ''.slice'') [0..<length cs]"

lemma slice_names_Cons:
  "slice_names (c # cs) = (c @ ''.slice'') # map (\<lambda>n. c @ ''-'' @ n) (slice_names cs)"
proof -
  have "[0..<length (c # cs)] = 0 # map Suc [0..<length cs]"
    using upt_conv_Cons [of 0 "length (c # cs)"] by (simp add: map_Suc_upt del: upt_Suc)
  moreover have "join_with ''-'' (take (Suc (Suc i)) (c # cs)) = c @ ''-'' @ join_with ''-'' (take (Suc i) cs)" if "i < length cs" for i
    using that by (cases cs) auto
  ultimately show ?thesis
    by (simp add: slice_names_def comp_def)
qed

lemma slice_loop_names:
  "slice_loop cs dir pre = (if [] \<in> set cs then None else Some (dir @ concat (map (\<lambda>n. ''/'' @ pre @ n) (slice_names cs))))"
proof (induction cs arbitrary: dir pre)
  case Nil
  then show ?case
    by (simp add: slice_names_def)
next
  case (Cons c cs)
  then show ?case
    by (auto simp: slice_names_Cons comp_def)
qed

lemma slice_names_no_slash:
  assumes "\<forall>c \<in> set cs. CHR ''/'' \<notin> set c" and "n \<in> set (slice_names cs)"
  shows "CHR ''/'' \<notin> set n" and "wf_name n"
proof -
  show s: "CHR ''/'' \<notin> set n"
    using assms
  proof (induction cs arbitrary: n)
    case Nil
    then show ?case
      by (simp add: slice_names_def)
  next
    case (Cons c cs)
    then show ?case
      by (auto simp: slice_names_Cons)
  qed
  obtain m where "n = m @ ''.slice''"
    using assms(2) by (auto simp: slice_names_def)
  then show "wf_name n"
    using s by (auto simp: wf_name_def append_eq_Cons_conv)
qed

lemma parse_slash_names:
  assumes "list_all wf_name ns" and "ns \<noteq> []"
  shows "parse_path (concat (map (\<lambda>n. ''/'' @ n) ns)) = RootDir # map Normal ns"
proof -
  have "''/'' @ join_with ''/'' ns = concat (map (\<lambda>n. ''/'' @ n) ns)"
    using assms(2) by (induction "''/''" ns rule: join_with.induct) auto
  then have "show_path (RootDir # map Normal ns) = concat (map (\<lambda>n. ''/'' @ n) ns)"
    by (simp add: show_path_def comp_def)
  moreover have "wf_path (RootDir # map Normal ns)"
    using assms(1) by (auto simp: wf_path_def list_all_iff)
  ultimately show ?thesis
    by (metis parse_show_path)
qed

lemma trim_end_matches_once:
  assumes "p \<noteq> []" and "\<not> suffix p s"
  shows "trim_end_matches p (s @ p) = s"
proof -
  have "ws_prefix_len [rev p] (rev s) = 0"
    using assms(2) by (simp add: ws_prefix_len_def suffix_to_prefix)
  then have "strip_ws [rev p] (rev s) = rev s"
    by (subst strip_ws.simps) simp
  moreover have "strip_ws [rev p] (rev (s @ p)) = strip_ws [rev p] (rev s)"
    using assms(1) by (subst strip_ws.simps) (simp add: ws_prefix_len_def)
  ultimately show ?thesis
    by (simp add: trim_end_matches_def)
qed

text \<open>
  C0. \<open>expand_slice\<close> turns the name of a slice into the chain of directories that systemd uses: for the
  components of the name between the dashes, it gives the slices of the first component, of the
  first two, and so on down to the slice itself. A name with an empty component is an error.
\<close>

theorem expand_slice_hierarchy:
  assumes "cs \<noteq> []" and "\<forall>c \<in> set cs. CHR ''-'' \<notin> set c \<and> CHR ''/'' \<notin> set c"
    and "join_with ''-'' cs \<noteq> []" and "join_with ''-'' cs \<noteq> ''-''" and "\<not> suffix ''.slice'' (join_with ''-'' cs)"
  shows "expand_slice (join_with ''-'' cs @ ''.slice'') =
    (if [] \<in> set cs then Err (InvalidSliceName (join_with ''-'' cs @ ''.slice''))
     else Ok (RootDir # map (\<lambda>i. Normal (join_with ''-'' (take (Suc i) cs) @ ''.slice'')) [0..<length cs]))"
proof -
  have "split_on (CHR ''-'') (join_with ''-'' cs) = cs"
    using assms(1,2) by (intro split_on_join) auto
  moreover have "trim_end_matches ''.slice'' (join_with ''-'' cs @ ''.slice'') = join_with ''-'' cs"
    using assms(5) by (intro trim_end_matches_once) auto
  moreover have "CHR ''/'' \<notin> set (join_with ''-'' cs)"
    using assms(2) by (induction "''-''" cs rule: join_with.induct) auto
  moreover have "parse_path (concat (map (\<lambda>n. ''/'' @ n) (slice_names cs))) = RootDir # map Normal (slice_names cs)"
    using assms(1,2) slice_names_no_slash(2) by (intro parse_slash_names) (auto simp: list_all_iff slice_names_def)
  ultimately show ?thesis
    using assms(3,4) suffixI [of _ "join_with ''-'' cs" "''.slice''"] by (auto simp: expand_slice_def slice_loop_names slice_names_def comp_def)
qed

section \<open>The cgroup lies below the boundary and below the root\<close>

lemma resolve_append_normal: "resolve st (p @ map Normal ns) = resolve st p @ ns"
proof (induction st p rule: resolve.induct)
  case (1 st)
  have "resolve st (map Normal ns) = rev st @ ns" for st
    by (induction ns arbitrary: st) auto
  then show ?case
    by simp
qed auto

lemma resolve_wf_names:
  assumes "wf_path p" and "n \<in> set (resolve [] p)"
  shows "wf_name n"
proof -
  have "Normal n \<in> set p"
    using resolve_names [of "[]" p] assms(2) by auto
  then show ?thesis
    using assms(1) by (cases p) (auto simp: wf_path_def list_all_iff)
qed

lemma wf_path_append_names:
  assumes "wf_path p" and "\<forall>n \<in> set ns. wf_name n"
  shows "wf_path (p @ map Normal ns)"
proof (cases p)
  case Nil
  then show ?thesis
    using assms(2) by (cases ns) (auto simp: wf_path_def list_all_iff)
next
  case (Cons c cs)
  then show ?thesis
    using assms by (auto simp: wf_path_def list_all_iff)
qed

lemma sd_join_names: "wf_path p \<Longrightarrow> sd_join base p = Ok (base @ map Normal (resolve [] p))"
  by (simp add: sd_join_def cg_join_safely_names)

lemma expand_slice_wf: "expand_slice sl = Ok p \<Longrightarrow> wf_path p"
proof -
  have "wf_path [RootDir]"
    by (simp add: wf_path_def)
  then show "expand_slice sl = Ok p \<Longrightarrow> wf_path p"
    by (auto simp: expand_slice_def Let_def parse_path_wf map_outcome_def outcome_simps split: if_splits)
qed

lemma construct_cgroups_path_shape:
  assumes "construct_cgroups_path control_root c sub s = (Ok (p, boundary), s')"
  shows "\<exists>slices. control_root s = (Ok boundary, s') \<and> (\<forall>n \<in> set slices. wf_name n) \<and>
    p = boundary @ map Normal (slices @ resolve [] (parse_path (get_unit_name c)) @ resolve [] (parse_path sub))"
proof -
  obtain parent where parent: "expand_slice (cp_parent c) = Ok parent" and root: "control_root s = (Ok boundary, s')"
    and p: "p = boundary @ map Normal (resolve [] parent @ resolve [] (parse_path (get_unit_name c)) @ resolve [] (parse_path sub))"
    using assms expand_slice_wf
    by (auto simp: construct_cgroups_path_def outcome_simps sd_join_names parse_path_wf)
  with resolve_wf_names [OF expand_slice_wf [OF parent]] show ?thesis
    by blast
qed

lemma connect_loop_attempt:
  assumes "connect_loop env sh us c sub n e w = (Ok r, w')"
  shows "\<exists>v v'. connect_attempt env us c sub v = (Ok r, v')"
  using assms by (induction n arbitrary: e w) (auto simp: Let_def split: prod.splits outcome.splits if_splits)

lemma control_root_wf: "client_control_cgroup_root root s = (Ok p, s') \<Longrightarrow> wf_path p"
  by (auto simp: client_control_cgroup_root_def outcome_simps parse_path_wf)

lemma last_split_suffix:
  assumes "c \<notin> set e"
  shows "suffix e (last (split_on c (a @ e)))"
proof (induction a)
  case Nil
  then show ?case
    using assms by (simp add: split_on_no_sep)
next
  case (Cons x a)
  obtain p ps where "split_on c (a @ e) = p # ps"
    by (cases "split_on c (a @ e)") auto
  with Cons show ?case
    by (auto simp: suffix_Cons split: if_splits)
qed

lemma parse_rest_last:
  assumes "parts \<noteq> []" and "wf_name (last parts)"
  shows "\<exists>q. parse_rest parts = q @ [Normal (last parts)]"
proof -
  have "parts = butlast parts @ [last parts]"
    using assms(1) by simp
  then have "parse_rest parts = parse_rest (butlast parts) @ parse_rest [last parts]"
    unfolding parse_rest_def by (metis filter_append map_append)
  then show ?thesis
    using assms(2) by (auto simp: parse_rest_def parse_component_def wf_name_def)
qed

lemma parse_path_last:
  assumes "s \<noteq> []" and "wf_name (last (split_on (CHR ''/'') s))"
  shows "\<exists>q. parse_path s = q @ [Normal (last (split_on (CHR ''/'') s))]"
proof (cases "prefix ''/'' s")
  case True
  then obtain cs where s: "s = CHR ''/'' # cs"
    by (auto simp: prefix_def)
  then have "last (split_on (CHR ''/'') s) = last (split_on (CHR ''/'') cs)"
    by simp
  then show ?thesis
    using assms(2) parse_rest_last [of "split_on (CHR ''/'') cs"] s by (auto simp: parse_path_def)
next
  case False
  then obtain c cs where s: "s = c # cs" "c \<noteq> CHR ''/''"
    using assms(1) by (cases s) auto
  obtain p ps where ps: "split_on (CHR ''/'') s = p # ps"
    by (cases "split_on (CHR ''/'') s") auto
  show ?thesis
  proof (cases "ps = []")
    case True
    then show ?thesis
      using assms(2) s ps by (auto simp: parse_path_def parse_rest_def parse_component_def wf_name_def)
  next
    case False
    then show ?thesis
      using assms(2) s ps parse_rest_last [of ps] by (auto simp: parse_path_def)
  qed
qed

lemma resolve_snoc_normal: "resolve st (p @ [Normal n]) = resolve st p @ [n]"
  using resolve_append_normal [of st p "[n]"] by simp

lemma unit_name_resolved:
  assumes "CHR ''/'' \<notin> set (cp_name c)"
  shows "resolve [] (parse_path (get_unit_name c)) \<noteq> []"
proof -
  obtain a e where u: "get_unit_name c = a @ e" and e: "CHR ''/'' \<notin> set e" "3 \<le> length e"
  proof (cases "suffix ''.slice'' (cp_name c)")
    case True
    then show thesis
      using that [of "[]" "cp_name c"] assms by (auto simp: get_unit_name_def suffix_def)
  next
    case False
    then show thesis
      using that [of "cp_prefix c @ ''-'' @ cp_name c" "''.scope''"] by (simp add: get_unit_name_def)
  qed
  let ?l = "last (split_on (CHR ''/'') (get_unit_name c))"
  have "suffix e ?l"
    using last_split_suffix [OF e(1), of a] u by simp
  then have "3 \<le> length ?l"
    using e(2) suffix_length_le le_trans by blast
  moreover have "CHR ''/'' \<notin> set ?l"
    by (rule split_on_parts_no_sep [of _ _ "get_unit_name c"]) simp
  ultimately have "wf_name ?l"
    by (auto simp: wf_name_def)
  moreover have "get_unit_name c \<noteq> []"
    using u e(2) by auto
  ultimately show ?thesis
    using parse_path_last [of "get_unit_name c"] by (auto simp: resolve_snoc_normal)
qed

lemma connect_attempt_shape:
  assumes "connect_attempt env us c sub w = (Ok (conn, p, boundary), w')" and "CHR ''/'' \<notin> set (cp_name c)"
  shows "\<exists>names. names \<noteq> [] \<and> (\<forall>n \<in> set names. wf_name n) \<and> wf_path boundary \<and> p = boundary @ map Normal names"
proof -
  obtain conn0 v where "(case construct_cgroups_path (client_control_cgroup_root (cgroup_root_of env)) c sub (conn0, v) of
      (r, conn, w) \<Rightarrow> (map_outcome (\<lambda>ps. (conn, ps)) r, w)) = (Ok (conn, p, boundary), w')"
    using assms(1) by (auto simp: connect_attempt_def outcome_simps)
  then obtain s s' where c: "construct_cgroups_path (client_control_cgroup_root (cgroup_root_of env)) c sub s = (Ok (p, boundary), s')"
    by (cases "construct_cgroups_path (client_control_cgroup_root (cgroup_root_of env)) c sub (conn0, v)") (auto simp: map_outcome_def outcome_simps)
  from construct_cgroups_path_shape [OF this] obtain slices where
    s: "client_control_cgroup_root (cgroup_root_of env) s = (Ok boundary, s')" "\<forall>n \<in> set slices. wf_name n"
      "p = boundary @ map Normal (slices @ resolve [] (parse_path (get_unit_name c)) @ resolve [] (parse_path sub))"
    by blast
  then show ?thesis
    using unit_name_resolved [OF assms(2)] control_root_wf [OF s(1)] resolve_wf_names [OF parse_path_wf]
    by (intro exI [of _ "slices @ resolve [] (parse_path (get_unit_name c)) @ resolve [] (parse_path sub)"]) auto
qed

lemma v2_manager_new_names:
  assumes "wf_path p"
  shows "\<exists>m. v2_manager_new root p = Ok m \<and> full_path m = root @ map Normal (resolve [] p)"
proof -
  have r: "resolve [] (path_normalize p) = resolve [] p"
    using resolve_append_normal [of "[]" "[RootDir]" "resolve [] p"] resolve_append_normal [of "[]" "[]" "resolve [] p"]
    by (simp add: normalize_wf [OF assms])
  show ?thesis
    using cg_join_safely_names [OF normalize_wf_path [OF assms], of root]
    by (simp add: v2_manager_new_def clean_cgroup_path_normalize Let_def r)
qed

lemma sd_manager_new_shape:
  assumes "sd_manager_new env sh root cgroups name us timeout w = (Ok (conn, m), w')"
  shows "\<exists>names. names \<noteq> [] \<and> (\<forall>n \<in> set names. wf_name n) \<and> wf_path (sd_delegation_boundary m) \<and> sd_root_path m = root \<and>
    sd_cgroups_path m = sd_delegation_boundary m @ map Normal names \<and>
    sd_full_path m = root @ map Normal (resolve [] (sd_delegation_boundary m) @ names) \<and>
    full_path (sd_fs_manager m) = sd_full_path m"
proof -
  define split where "split = (\<lambda>x. split_sub_cgroup (cp_name (ensure_parent_unit us x)))"
  obtain x p boundary full fsm where
    loop: "connect_loop env sh us ((ensure_parent_unit us x)\<lparr>cp_name := fst (split x)\<rparr>) (snd (split x)) CONNECT_MAX_RETRIES None w =
        (Ok (conn, p, boundary), w')"
    and m: "sd_join root p = Ok full" "v2_manager_new root p = Ok fsm"
      "sd_root_path m = root" "sd_cgroups_path m = p" "sd_full_path m = full" "sd_delegation_boundary m = boundary" "sd_fs_manager m = fsm"
    using assms by (auto simp: sd_manager_new_def outcome_simps Let_def split_def case_prod_unfold)
  have n: "CHR ''/'' \<notin> set (cp_name ((ensure_parent_unit us x)\<lparr>cp_name := fst (split x)\<rparr>))"
    by (auto simp: split_def split_sub_cgroup_def dest: set_takeWhileD)
  obtain v v' where a: "connect_attempt env us ((ensure_parent_unit us x)\<lparr>cp_name := fst (split x)\<rparr>) (snd (split x)) v =
      (Ok (conn, p, boundary), v')"
    using connect_loop_attempt [OF loop] by blast
  obtain names where names: "names \<noteq> []" "\<forall>n \<in> set names. wf_name n" "wf_path boundary" "p = boundary @ map Normal names"
    using connect_attempt_shape [OF a n] by blast
  then have "wf_path p"
    by (simp add: wf_path_append_names)
  then have "full = root @ map Normal (resolve [] boundary @ names)" "full_path fsm = full"
    using m(1,2) v2_manager_new_names [of p root] names(4) by (auto simp: sd_join_names resolve_append_normal)
  with names m show ?thesis
    by auto
qed

text \<open>
  C21. The cgroup that a systemd manager works on lies below systemd's own cgroup and below the cgroup root,
  whatever the cgroups path of the configuration is: a slice, a prefix or a sub-cgroup with any
  number of \<open>..\<close> cannot leave the delegation boundary, and it never is the boundary itself. The
  manager for the files of the cgroup works on the same directory.
\<close>

theorem sd_manager_below_boundary:
  assumes "sd_manager_new env show_error root cgroups_path name use_system timeout w = (Ok (conn, m), w')"
  shows "\<exists>names. names \<noteq> [] \<and> sd_cgroups_path m = sd_delegation_boundary m @ map Normal names \<and>
    sd_full_path m = root @ map Normal (resolve [] (sd_delegation_boundary m) @ names) \<and>
    full_path (sd_fs_manager m) = sd_full_path m"
  using sd_manager_new_shape [OF assms] by blast

section \<open>Enabling controllers above the unit\<close>

text \<open>All data written since \<open>L\<close> went to \<open>cgroup.subtree_control\<close> of directories strictly above \<open>leaf\<close>.\<close>

definition enabled_above :: "path \<Rightarrow> (path \<times> string) list \<Rightarrow> (path \<times> string) list \<Rightarrow> bool" where
  "enabled_above leaf L l \<longleftrightarrow>
     (\<exists>ls. l = L @ ls \<and> (\<forall>(q, d) \<in> set ls. \<exists>dir. strict_prefix dir leaf \<and> q = dir @ [Normal ''cgroup.subtree_control'']))"

lemma enabled_above_snoc:
  "enabled_above leaf L l \<Longrightarrow> strict_prefix dir leaf \<Longrightarrow> enabled_above leaf L (l @ [(dir @ [Normal ''cgroup.subtree_control''], d)])"
  unfolding enabled_above_def by fastforce

lemma write_controllers_above:
  assumes "write_log env log" and "strict_prefix dir leaf"
  shows "st_keeps (\<lambda>w. enabled_above leaf L (log w)) (write_controllers env dir controllers)"
proof -
  have "st_keeps (\<lambda>w. enabled_above leaf L (log w)) (write_cgroup_file env (dir @ [Normal ''cgroup.subtree_control'']) d)" for d
    unfolding st_keeps_def
  proof (intro allI impI)
    fix w
    assume e: "enabled_above leaf L (log w)"
    obtain r w' where r: "write_cgroup_file env (dir @ [Normal ''cgroup.subtree_control'']) d w = (r, w')"
      by fastforce
    show "enabled_above leaf L (log (snd (write_cgroup_file env (dir @ [Normal ''cgroup.subtree_control'']) d w)))"
      using write_cgroup_file_log [OF assms(1) r] r e enabled_above_snoc [OF e assms(2)] by auto
  qed
  then show ?thesis
    unfolding write_controllers_def in_dir_append by (intro st_keeps_for st_keeps_map_err)
qed

lemma attach_loop_above:
  assumes "write_log env log" and "\<forall>c \<in> set cs. is_normal c" and "leaf = current @ cs"
  shows "st_keeps (\<lambda>w. enabled_above leaf L (log w)) (attach_loop env controllers current cs)"
  using assms(2,3)
proof (induction cs arbitrary: current)
  case Nil
  then show ?case
    by (simp add: st_keeps_def)
next
  case (Cons c cs)
  have j: "path_join current [c] = current @ [c]"
    using Cons.prems(1) by (simp add: path_join_normal)
  have "st_keeps (\<lambda>w. enabled_above leaf L (log w)) (attach_loop env controllers (current @ [c]) cs)"
    using Cons by simp
  moreover have "st_keeps (\<lambda>w. enabled_above leaf L (log w))
      (if cs \<noteq> [] then write_controllers env (current @ [c]) controllers else st_return ())"
    using Cons.prems(2) by (auto intro!: st_keeps_return write_controllers_above assms(1) simp: strict_prefix_def)
  ultimately have "st_keeps (\<lambda>w. enabled_above leaf L (log w))
      (\<lambda>w. if \<not> fs_env.path_exists env (current @ [c]) w then (Ok (), w)
        else st_bind (if cs \<noteq> [] then write_controllers env (current @ [c]) controllers else st_return ())
             (\<lambda>_. attach_loop env controllers (current @ [c]) cs) w)"
    by (intro st_keeps_cond st_keeps_bind) (simp_all add: st_keeps_def)
  then show ?case
    by (simp add: st_keeps_def j Let_def)
qed

lemma st_bind_lift_Ok: "st_bind (st_lift (Ok x)) f = f x"
  by (simp add: st_bind_def st_lift_def fun_eq_iff)

text \<open>For a path that starts with the boundary, what is left of the operation.\<close>

lemma ensure_controllers_eq:
  assumes "wf_path (sd_delegation_boundary m)" and "sd_cgroups_path m = sd_delegation_boundary m @ map Normal names"
    and "b = sd_root_path m @ map Normal (resolve [] (sd_delegation_boundary m))"
  shows "ensure_controllers_attached env m =
    st_bind (\<lambda>w. (sd_get_available_controllers env m b w, w)) (\<lambda>available.
    st_bind (write_controllers env b (map (\<lambda>c. ''+'' @ show_sd_controller c) available)) (\<lambda>_.
    attach_loop env (map (\<lambda>c. ''+'' @ show_sd_controller c) available) b (map Normal names)))"
proof -
  have "filter (\<lambda>c. c \<noteq> RootDir) (map Normal names) = map Normal names"
    by (simp add: filter_id_conv)
  then show ?thesis
    by (simp add: ensure_controllers_attached_def sd_join_names assms st_bind_lift_Ok Let_def)
qed

lemma ensure_controllers_above:
  assumes "write_log env log" and "wf_path (sd_delegation_boundary m)" and "names \<noteq> []"
    and "sd_cgroups_path m = sd_delegation_boundary m @ map Normal names"
    and "leaf = sd_root_path m @ map Normal (resolve [] (sd_delegation_boundary m) @ names)"
  shows "st_keeps (\<lambda>w. enabled_above leaf L (log w)) (ensure_controllers_attached env m)"
proof -
  let ?b = "sd_root_path m @ map Normal (resolve [] (sd_delegation_boundary m))"
  have leaf: "strict_prefix ?b leaf" "leaf = ?b @ map Normal names"
    using assms(3,5) by (auto simp: strict_prefix_def)
  show ?thesis
    unfolding ensure_controllers_eq [OF assms(2,4) refl]
    by (intro st_keeps_bind st_keeps_peek write_controllers_above assms(1) leaf(1) attach_loop_above [OF assms(1) _ leaf(2)]) auto
qed

lemma write_controllers_error:
  assumes "write_controllers env p cs w = (Err e, w')"
  shows "\<exists>i. e = SdIo i"
  using assms unfolding write_controllers_def
  by (induction cs arbitrary: w) (auto simp: st_return_def st_bind_eq_Err st_map_err_eq_Err outcome_simps)

lemma attach_loop_error: "attach_loop env cs current rest w = (Err e, w') \<Longrightarrow> \<exists>i. e = SdIo i"
proof (induction rest arbitrary: current w)
  case (Cons c rest)
  then show ?case
    by (auto simp: Let_def st_bind_eq_Err st_return_def dest: write_controllers_error split: if_splits)
qed simp


section \<open>Waiting for the process\<close>

lemma wait_for_pid_found:
  assumes "wait_for_pid n depth env m start pid w = (Ok (), w')"
  shows "\<exists>pids. v2_get_all_pids depth env (sd_fs_manager m) w' = Ok pids \<and> pid \<in> set pids"
  using assms
  by (induction n arbitrary: w) (auto split: if_splits outcome.splits)

text \<open>
  C0. Adding a task to a unit that does not exist yet starts the unit for that process and succeeds only once
  the process is listed in the cgroup of the container. A unit that exists is asked to take the
  process into the sub-cgroup of the container instead.
\<close>

theorem add_task_confirmed:
  assumes "sd_add_task fuel depth env m pid w = (Ok (), w')" and "sint pid \<noteq> - 1"
  shows "\<exists>present w1. sc_transient_unit_exists (sd_client env) (sd_unit_name m) w = (Ok present, w1) \<and>
    (if present then sc_add_process_to_unit (sd_client env) (sd_unit_name m) (sd_sub_cgroup m) pid w1 = (Ok (), w')
     else (\<exists>w2. sc_start_transient_unit (sd_client env) (sd_container_name m) pid (cp_parent (sd_destructured_path m)) (sd_unit_name m) w1 = (Ok (), w2)) \<and>
       (\<exists>pids. v2_get_all_pids depth env (sd_fs_manager m) w' = Ok pids \<and> pid \<in> set pids))"
proof -
  let ?start = "sc_start_transient_unit (sd_client env) (sd_container_name m) pid (cp_parent (sd_destructured_path m)) (sd_unit_name m)"
  let ?add = "sc_add_process_to_unit (sd_client env) (sd_unit_name m) (sd_sub_cgroup m) pid"
  have "\<exists>present w1. sc_transient_unit_exists (sd_client env) (sd_unit_name m) w = (Ok present, w1) \<and>
      (if present then st_map_err SystemdClient ?add
       else st_bind (st_map_err SystemdClient ?start) (\<lambda>_. wait_for_process_in_cgroup fuel depth env m pid)) w1 = (Ok (), w')"
    using assms unfolding sd_add_task_def by (simp only: if_False st_bind_eq_Ok st_map_err_eq_Ok)
  then obtain present w1 where p: "sc_transient_unit_exists (sd_client env) (sd_unit_name m) w = (Ok present, w1)"
    and q: "(if present then st_map_err SystemdClient ?add
       else st_bind (st_map_err SystemdClient ?start) (\<lambda>_. wait_for_process_in_cgroup fuel depth env m pid)) w1 = (Ok (), w')"
    by blast
  show ?thesis
  proof (cases present)
    case True
    then show ?thesis
      using p q by (auto simp: st_map_err_eq_Ok)
  next
    case False
    then obtain w2 where w2: "?start w1 = (Ok (), w2)" "wait_for_pid fuel depth env m (clock_ms env w2) pid w2 = (Ok (), w')"
      using q by (auto simp: st_map_err_eq_Ok st_bind_eq_Ok wait_for_process_in_cgroup_def)
    show ?thesis
      using False p w2(1) wait_for_pid_found [OF w2(2)] by (intro exI [of _ present] exI [of _ w1]) auto
  qed
qed

text \<open>
  C24. Waiting for the process ends: if sleeping takes at least the time asked for and listing the processes
  returns, then the loop stops after at most one iteration per 20 milliseconds of the timeout, with
  success, with an error of the listing or with the timeout error.
\<close>

theorem wait_for_process_ends:
  assumes "\<forall>w. clock_ms env w + 20 \<le> clock_ms env (sleep_ms env 20 w)"
    and "\<forall>w. v2_get_all_pids depth env (sd_fs_manager m) w \<noteq> Diverge"
  shows "fst (wait_for_process_in_cgroup (sd_wait_timeout m div 20 + 2) depth env m pid w) \<noteq> Diverge"
proof -
  have "fst (wait_for_pid (Suc n) depth env m start pid w) \<noteq> Diverge"
    if "start + sd_wait_timeout m \<le> clock_ms env w + 20 * n" for n start w
    using that
  proof (induction n arbitrary: w)
    case (Suc n)
    let ?w = "sleep_ms env 20 w"
    have "clock_ms env w + 20 \<le> clock_ms env ?w"
      using assms(1) by blast
    then have "fst (wait_for_pid (Suc n) depth env m start pid ?w) \<noteq> Diverge"
      using Suc.prems by (intro Suc.IH) simp
    then show ?case
      using assms(2) wait_for_pid.simps(2) [of "Suc n" depth env m start pid w]
      by (auto simp del: wait_for_pid.simps split: outcome.splits)
  qed (auto split: outcome.splits)
  from this [of "clock_ms env w" w "sd_wait_timeout m div 20 + 1"] show ?thesis
    unfolding wait_for_process_in_cgroup_def by simp
qed

section \<open>Connecting\<close>

lemma backoff_le: "2 * backoff nanos r \<le> 225 * 2 ^ r"
proof -
  have "n mod (1 + 100 * 2 ^ r div 8) \<le> 100 * 2 ^ r div 8" for n :: nat
    using mod_less_divisor [of "1 + 100 * 2 ^ r div 8" n] by linarith
  moreover have "8 * (100 * 2 ^ r div 8) \<le> (100 * 2 ^ r :: nat)"
    by simp
  ultimately have "8 * (n mod (1 + 100 * 2 ^ r div 8)) \<le> 100 * 2 ^ r" for n :: nat
    by (meson le_trans mult_le_mono2)
  then show ?thesis
    by (auto simp: backoff_def CONNECT_BASE_DELAY_MS_def CONNECT_JITTER_DIVISOR_def Let_def split: option.splits)
qed

lemma connect_loop_slept:
  assumes "\<forall>n w. slept (connect_sleep env n w) = slept w + n"
    and "\<forall>w. slept (snd (connect_attempt env us c sub w)) = slept w"
    and "1 \<le> n" "n \<le> 7"
  shows "2 * slept (snd (connect_loop env sh us c sub n e w)) + 225 * 2 ^ (7 - n) \<le> 2 * slept w + 225 * 64"
  using assms(3,4)
proof (induction n arbitrary: e w)
  case (Suc left)
  obtain r w1 where a: "connect_attempt env us c sub w = (r, w1)"
    by (cases "connect_attempt env us c sub w")
  have w1: "slept w1 = slept w"
    using assms(2) a by (metis snd_conv)
  have pow: "(2 :: nat) ^ (7 - Suc left) \<le> 2 ^ 6"
    by (rule power_increasing) auto
  show ?case
  proof (cases "left = 0 \<or> (\<forall>x. r \<noteq> Err x) \<or> (\<exists>x. r = Err x \<and> \<not> is_eagain x)")
    case True
    then have "slept (snd (connect_loop env sh us c sub (Suc left) e w)) = slept w"
      using a w1 by (auto simp: Let_def split: outcome.splits)
    then show ?thesis
      using pow by simp
  next
    case False
    then obtain x where x: "r = Err x" "is_eagain x" and l: "1 \<le> left"
      by auto
    let ?r = "7 - Suc left"
    let ?w = "connect_sleep env (backoff (subsec_nanos env w1) ?r) w1"
    have "7 - left = Suc ?r"
      using Suc.prems by simp
    then have "2 * slept (snd (connect_loop env sh us c sub left (Some x) ?w)) + 225 * (2 * 2 ^ ?r) \<le> 2 * slept ?w + 225 * 64"
      using Suc.IH [of "Some x" ?w] l Suc.prems by simp
    moreover have s: "2 * slept ?w \<le> 2 * slept w + 225 * 2 ^ ?r"
      using backoff_le [of "subsec_nanos env w1" ?r] assms(1) w1 by simp
    moreover have eq: "connect_loop env sh us c sub (Suc left) e w = connect_loop env sh us c sub left (Some x) ?w"
      using a x l by (simp add: CONNECT_MAX_RETRIES_def Let_def)
    ultimately show ?thesis
      unfolding eq by linarith
  qed
qed simp

text \<open>
  C0. Connecting to systemd sleeps at most 7.087 seconds in total, however often the connection fails with
  EAGAIN, and each of the seven attempts comes before the next delay.
\<close>

theorem connect_backoff_bounded:
  assumes "\<forall>n w. slept (connect_sleep env n w) = slept w + n"
    and "\<forall>w. slept (snd (connect_attempt env use_system c sub_cgroup w)) = slept w"
  shows "slept (snd (connect_loop env show_error use_system c sub_cgroup CONNECT_MAX_RETRIES None w)) \<le> slept w + 7087"
  using connect_loop_slept [OF assms, of 7 show_error None w] by (simp add: CONNECT_MAX_RETRIES_def)

text \<open>
  C0. The retries do not cover the system bus: when the standard system bus times out with EAGAIN and there is
  no private socket to fall back to, \<open>new_system\<close> has replaced the error by one that is not EAGAIN, and
  the first attempt is the only one.
\<close>

theorem system_bus_eagain_not_retried:
  assumes "io_bind (io_lift (get_system_bus_address env)) (\<lambda>addr. connection_new env addr 0 True) w = Some (Err (Nix EAGAIN), w1)"
    and "\<not> (uid_is_root env \<and> dbus_env.path_exists env SYSTEMD_PRIVATE_SOCKET)"
  shows "connect_loop (dbus_connect_env env sleep nanos) show_error True c sub_cgroup CONNECT_MAX_RETRIES None w =
    (Err (SystemdClient (DBus (BusAddressError ''could not connect to system bus or systemd private socket''))), w1)"
proof -
  have "new_system env w = Some (Err (BusAddressError ''could not connect to system bus or systemd private socket''), w1)"
    using assms by (auto simp: new_system_def)
  then have "try_connect (dbus_connect_env env sleep nanos) True w =
      (Err (SystemdClient (DBus (BusAddressError ''could not connect to system bus or systemd private socket''))), w1)"
    by (simp add: try_connect_def dbus_connect_env_def st_map_err_def st_total_def)
  then have "connect_attempt (dbus_connect_env env sleep nanos) True c sub_cgroup w =
      (Err (SystemdClient (DBus (BusAddressError ''could not connect to system bus or systemd private socket''))), w1)"
    by (simp add: connect_attempt_def st_bind_def)
  moreover have "CONNECT_MAX_RETRIES = Suc 6"
    by (simp add: CONNECT_MAX_RETRIES_def)
  ultimately show ?thesis
    using connect_loop.simps(2) [of "dbus_connect_env env sleep nanos" show_error True c sub_cgroup 6 None w] by (simp add: is_eagain_def)
qed

section \<open>Applying the resources\<close>

lemma devices_set_policy:
  "sd_devices_apply ex pd dflt to_rule ds ver properties = Ok properties' \<Longrightarrow> ''DevicePolicy'' \<in> dom properties'"
  by (auto simp: sd_devices_apply_def device_policy_def Let_def outcome_simps split: if_splits)

lemma io_limits_keep: "apply_limits rl ds name properties = Ok properties' \<Longrightarrow> dom properties \<subseteq> dom properties'"
  by (auto simp: apply_limits_def outcome_simps split: option.splits if_splits)

lemma io_keeps: "sd_io_apply rl io properties = Ok properties' \<Longrightarrow> dom properties \<subseteq> dom properties'"
  unfolding sd_io_apply_def bind_outcome_eq_Ok by (elim exE conjE, (drule io_limits_keep)+, blast)

lemma memory_property_keeps: "memory_property h name v properties = Ok properties' \<Longrightarrow> dom properties \<subseteq> dom properties'"
  by (auto simp: memory_property_def split: option.splits if_splits)

lemma swap_keeps: "apply_swap s l properties = Ok properties' \<Longrightarrow> dom properties \<subseteq> dom properties'"
  by (auto simp: apply_swap_def Let_def split: option.splits if_splits)

lemma memory_keeps: "sd_memory_apply mem properties = Ok properties' \<Longrightarrow> dom properties \<subseteq> dom properties'"
  unfolding sd_memory_apply_def bind_outcome_eq_Ok by (elim exE conjE, (drule memory_property_keeps)+, drule swap_keeps, blast)

lemma unified_entry_keeps: "sd_unified_entry ops fit ver e properties = Ok properties' \<Longrightarrow> dom properties \<subseteq> dom properties'"
  by (cases e)
    (auto simp: sd_unified_entry_def unified_cpu_max_def outcome_simps split: if_splits option.splits list.splits)

lemma unified_keeps: "sd_unified_apply ops fit ver es properties = Ok properties' \<Longrightarrow> dom properties \<subseteq> dom properties'"
proof (induction es arbitrary: properties)
  case (Cons e es)
  then obtain x where x: "sd_unified_entry ops fit ver e properties = Ok x" "sd_unified_apply ops fit ver es x = Ok properties'"
    by (auto simp: bind_outcome_eq_Ok)
  show ?case
    using unified_entry_keeps [OF x(1)] Cons.IH [OF x(2)] by (rule subset_trans)
qed simp

lemma opt_apply_keeps:
  assumes "\<And>x properties properties'. f x properties = Ok properties' \<Longrightarrow> dom properties \<subseteq> dom properties'"
  shows "opt_apply f v properties = Ok properties' \<Longrightarrow> dom properties \<subseteq> dom properties'"
  using assms by (auto simp: opt_apply_def split: option.splits)

lemma sd_controller_keeps:
  assumes "sd_controller_apply env res ver w c properties = Ok properties'"
  shows "''DevicePolicy'' \<in> dom properties \<Longrightarrow> ''DevicePolicy'' \<in> dom properties'"
proof -
  have cpu: "sd_cpu_apply fit cpu p = Ok p' \<Longrightarrow> dom p \<subseteq> dom p'" for fit cpu p p'
    by (auto simp: sd_cpu_apply_def Let_def outcome_simps split: if_splits option.splits)
  have cpuset: "sd_cpuset_apply ops cpu ver p = Ok p' \<Longrightarrow> dom p \<subseteq> dom p'" for ops :: "'b bitset_ops" and cpu p p'
    by (auto simp: sd_cpuset_apply_def set_bitmask_def outcome_simps split: if_splits option.splits)
  have pids: "Ok (sd_pids_apply limit p) = (Ok p' :: (systemd_manager_error, properties) outcome) \<Longrightarrow> dom p \<subseteq> dom p'" for limit p p'
    by (auto simp: sd_pids_apply_def)
  assume d: "''DevicePolicy'' \<in> dom properties"
  show "''DevicePolicy'' \<in> dom properties'"
  proof (cases c)
    case SdDevices
    then show ?thesis
      using assms by (auto simp: map_err_eq simp del: domIff dest: devices_set_policy)
  next
    case SdCpu
    then have "opt_apply (sd_cpu_apply (shares_fit env)) (res_cpu res) properties = Ok properties'"
      using assms by (simp add: map_err_eq)
    then have "dom properties \<subseteq> dom properties'"
      by (rule opt_apply_keeps [rotated]) (erule cpu)
    with d show ?thesis
      by blast
  next
    case SdCpuSet
    then have "opt_apply (\<lambda>cpu. sd_cpuset_apply (sd_bitset env) cpu ver) (res_cpu res) properties = Ok properties'"
      using assms by (simp add: map_err_eq)
    then have "dom properties \<subseteq> dom properties'"
      by (rule opt_apply_keeps [rotated]) (erule cpuset)
    with d show ?thesis
      by blast
  next
    case SdIoCtl
    then have "opt_apply (sd_io_apply (sd_read_link env w)) (res_block_io res) properties = Ok properties'"
      using assms by (simp add: map_err_eq)
    then have "dom properties \<subseteq> dom properties'"
      by (rule opt_apply_keeps [rotated]) (erule io_keeps)
    with d show ?thesis
      by blast
  next
    case SdMemoryCtl
    then have "opt_apply sd_memory_apply (res_memory res) properties = Ok properties'"
      using assms by (simp add: map_err_eq)
    then have "dom properties \<subseteq> dom properties'"
      by (rule opt_apply_keeps [rotated]) (erule memory_keeps)
    with d show ?thesis
      by blast
  next
    case SdPids
    then have "opt_apply (\<lambda>limit properties. Ok (sd_pids_apply limit properties)) (res_pids res) properties =
        (Ok properties' :: (systemd_manager_error, properties) outcome)"
      using assms by simp
    then have "dom properties \<subseteq> dom properties'"
      by (rule opt_apply_keeps [rotated]) (erule pids)
    with d show ?thesis
      by blast
  qed
qed

lemma sd_controllers_keep:
  assumes "sd_controllers env res ver w cs properties = Ok properties'"
    and "SdDevices \<in> set cs \<or> ''DevicePolicy'' \<in> dom properties"
  shows "''DevicePolicy'' \<in> dom properties'"
  using assms
proof (induction cs arbitrary: properties)
  case (Cons c cs)
  then obtain x where x: "sd_controller_apply env res ver w c properties = Ok x" "sd_controllers env res ver w cs x = Ok properties'"
    by (auto simp: bind_outcome_eq_Ok)
  have "SdDevices \<in> set cs \<or> ''DevicePolicy'' \<in> dom x"
  proof (cases "c = SdDevices")
    case True
    then show ?thesis
      using x(1) by (auto simp: map_err_eq simp del: domIff dest: devices_set_policy)
  next
    case False
    then show ?thesis
      using Cons.prems(2) sd_controller_keeps [OF x(1)] by (auto simp del: domIff)
  qed
  then show ?case
    by (rule Cons.IH [OF x(2)])
qed simp

lemma sd_properties_policy:
  assumes "sd_properties env res ver w = Ok properties"
  shows "''DevicePolicy'' \<in> dom properties"
proof -
  obtain x where x: "sd_controllers env res ver w SD_CONTROLLER_TYPES Map.empty = Ok x"
    and u: "opt_apply (sd_unified_apply (sd_bitset env) (shares_fit env) ver) (res_unified res) x = Ok properties"
    using assms by (auto simp: sd_properties_def bind_outcome_eq_Ok map_err_eq)
  have "dom x \<subseteq> dom properties"
    using u by (rule opt_apply_keeps [rotated]) (erule unified_keeps)
  then show ?thesis
    using sd_controllers_keep [OF x] by (auto simp: SD_CONTROLLER_TYPES_def simp del: domIff)
qed


section \<open>A concrete manager for the examples\<close>

theorem expand_slice_hierarchy_witness:
  "expand_slice ''a-b.slice'' = Ok [RootDir, Normal ''a.slice'', Normal ''a-b.slice'']"
  using expand_slice_hierarchy [of "[''a'', ''b'']"] by (simp add: suffix_def append_eq_Cons_conv)

definition demo_connect :: "(nat, unit) connect_env" where
  "demo_connect =
     \<lparr>connect_bus = (\<lambda>us w. (Ok (), w)), cgroup_root_of = (\<lambda>(c, w). (Ok ''/init.scope'', c, w)), connect_sleep = (\<lambda>n w. w + n),
      subsec_nanos = (\<lambda>w. Some 999)\<rparr>"

definition demo_sd_manager :: sd_manager where
  "demo_sd_manager =
     \<lparr>sd_root_path = [RootDir], sd_cgroups_path = [RootDir, Normal ''init.scope'', Normal ''a.slice'', Normal ''p-c.scope'', Normal ''x''],
      sd_full_path = [RootDir, Normal ''init.scope'', Normal ''a.slice'', Normal ''p-c.scope'', Normal ''x''],
      sd_destructured_path = \<lparr>cp_parent = ''a.slice'', cp_prefix = ''p'', cp_name = ''c''\<rparr>, sd_container_name = ''n'',
      sd_sub_cgroup = ''/../x'', sd_unit_name = ''p-c.scope'',
      sd_fs_manager = \<lparr>root_path = [RootDir], cgroup_path = [RootDir, Normal ''init.scope'', Normal ''a.slice'', Normal ''p-c.scope'', Normal ''x''],
        full_path = [RootDir, Normal ''init.scope'', Normal ''a.slice'', Normal ''p-c.scope'', Normal ''x''], rootless = False\<rparr>,
      sd_delegation_boundary = [RootDir, Normal ''init.scope''], sd_wait_timeout = 5000, sd_rootless = False\<rparr>"

lemma demo_sd_manager_new:
  "sd_manager_new demo_connect (\<lambda>_. '''') [RootDir] ''a.slice:p:c/../x'' ''n'' False 5000 0 = (Ok ((), demo_sd_manager), 0)"
proof -
  have c: "parse_cgroups_path ''a.slice:p:c/../x'' = Ok \<lparr>cp_parent = ''a.slice'', cp_prefix = ''p'', cp_name = ''c/../x''\<rparr>"
    by (simp add: parse_cgroups_path_def wf_str_def as_bytes_def)
  have sl: "expand_slice ''a.slice'' = Ok [RootDir, Normal ''a.slice'']"
    using trim_end_matches_once [of "''.slice''" "''a''"]
    by (simp add: expand_slice_def suffix_def append_eq_Cons_conv parse_path_def parse_rest_def parse_component_def)
  have p: "parse_path ''/init.scope'' = [RootDir, Normal ''init.scope'']" "parse_path ''p-c.scope'' = [Normal ''p-c.scope'']"
    "parse_path ''/../x'' = [RootDir, ParentDir, Normal ''x'']"
    by (simp_all add: parse_path_def parse_rest_def parse_component_def)
  have u: "get_unit_name \<lparr>cp_parent = ''a.slice'', cp_prefix = ''p'', cp_name = ''c''\<rparr> = ''p-c.scope''"
    by (simp add: get_unit_name_def suffix_def append_eq_Cons_conv)
  have a: "connect_attempt demo_connect False \<lparr>cp_parent = ''a.slice'', cp_prefix = ''p'', cp_name = ''c''\<rparr> ''/../x'' 0 =
      (Ok ((), [RootDir, Normal ''init.scope'', Normal ''a.slice'', Normal ''p-c.scope'', Normal ''x''], [RootDir, Normal ''init.scope'']), 0)"
    by (simp add: connect_attempt_def try_connect_def demo_connect_def st_bind_def st_map_err_def construct_cgroups_path_def sl st_lift_def
        client_control_cgroup_root_def st_return_def p u sd_join_names wf_path_def wf_name_def)
  have l: "connect_loop demo_connect (\<lambda>_. '''') False \<lparr>cp_parent = ''a.slice'', cp_prefix = ''p'', cp_name = ''c''\<rparr> ''/../x'' (Suc 6) None 0 =
      (Ok ((), [RootDir, Normal ''init.scope'', Normal ''a.slice'', Normal ''p-c.scope'', Normal ''x''], [RootDir, Normal ''init.scope'']), 0)"
    unfolding connect_loop.simps a by simp
  have v: "v2_manager_new [RootDir] [RootDir, Normal ''init.scope'', Normal ''a.slice'', Normal ''p-c.scope'', Normal ''x''] = Ok (sd_fs_manager demo_sd_manager)"
    by (simp add: v2_manager_new_def clean_cgroup_path_def normalize_step_def path_join_def cg_join_safely_def Let_def demo_sd_manager_def)
  show ?thesis
    using l by (simp add: sd_manager_new_def st_bind_def st_lift_def c ensure_parent_unit_def split_sub_cgroup_def CONNECT_MAX_RETRIES_def
        v sd_join_names wf_path_def wf_name_def u Let_def del: connect_loop.simps) (simp add: demo_sd_manager_def)
qed

theorem sd_manager_below_boundary_witness:
  "\<exists>m names. sd_manager_new demo_connect (\<lambda>_. '''') [RootDir] ''a.slice:p:c/../x'' ''n'' False 5000 0 = (Ok ((), m), 0) \<and>
     names \<noteq> [] \<and> sd_cgroups_path m = [RootDir, Normal ''init.scope''] @ map Normal names \<and> full_path (sd_fs_manager m) = sd_full_path m"
  using sd_manager_below_boundary [OF demo_sd_manager_new] demo_sd_manager_new by (auto simp: demo_sd_manager_def)

theorem connect_backoff_bounded_witness:
  "snd (connect_loop demo_connect (\<lambda>_. '''') False \<lparr>cp_parent = ''a.slice'', cp_prefix = ''p'', cp_name = ''c''\<rparr> '''' CONNECT_MAX_RETRIES None 5) \<le> 7092"
proof -
  have "snd (connect_attempt demo_connect False c sub w) = w" for c sub w
  proof -
    obtain r w' where "construct_cgroups_path (client_control_cgroup_root (cgroup_root_of demo_connect)) c sub ((), w) = (r, (), w')"
      by (cases "construct_cgroups_path (client_control_cgroup_root (cgroup_root_of demo_connect)) c sub ((), w)") auto
    moreover from this have "w' = w"
      by (auto simp: construct_cgroups_path_def st_bind_def st_lift_def st_map_err_def client_control_cgroup_root_def demo_connect_def st_return_def
          split: outcome.splits)
    ultimately show ?thesis
      by (simp add: connect_attempt_def try_connect_def st_bind_def st_map_err_def) (simp add: demo_connect_def)
  qed
  then show ?thesis
    using connect_backoff_bounded [of "\<lambda>w. w" demo_connect False "\<lparr>cp_parent = ''a.slice'', cp_prefix = ''p'', cp_name = ''c''\<rparr>" "''''" "\<lambda>_. ''''" 5]
    by (simp add: demo_connect_def)
qed

definition timeout_env :: "unit dbus_env" where
  "timeout_env =
     \<lparr>sys_socket = (\<lambda>w. (SysErr EAGAIN, w)), unix_addr_new = (\<lambda>a w. (SysOk a, w)), sys_connect = (\<lambda>fd a w. (SysOk (), w)),
      sys_set_receive_timeout = (\<lambda>fd t w. (SysOk (), w)), sys_send = (\<lambda>fd bs w. (SysOk (length bs), w)),
      sys_sendmsg = (\<lambda>fd bs w. (SysOk (length bs), w)), sys_recv = (\<lambda>fd n w. (SysErr EAGAIN, w)),
      env_var = (\<lambda>_. None), path_exists = (\<lambda>_. False), uid_is_root = True, busctl_status = Inr [], debug_messages = (\<lambda>_. [])\<rparr>"

theorem system_bus_eagain_not_retried_witness:
  "connect_loop (dbus_connect_env timeout_env (\<lambda>n w. w) (\<lambda>w. None)) (\<lambda>_. '''') True \<lparr>cp_parent = ''a.slice'', cp_prefix = ''p'', cp_name = ''c''\<rparr>
     '''' CONNECT_MAX_RETRIES None () =
     (Err (SystemdClient (DBus (BusAddressError ''could not connect to system bus or systemd private socket''))), ())"
  by (rule system_bus_eagain_not_retried)
    (simp_all add: timeout_env_def get_system_bus_address_def connection_new_def connect_def io_bind_def io_lift_def io_sys_def)

definition demo_client :: "demo_fs systemd_client" where
  "demo_client =
     \<lparr>sc_transient_unit_exists = (\<lambda>u w. (Ok False, w)), sc_start_transient_unit = (\<lambda>n pid par u w. (Ok (), w)),
      sc_stop_transient_unit = (\<lambda>u w. (Ok (), w)), sc_set_unit_properties = (\<lambda>u ps w. (Ok (), w)), sc_systemd_version = (\<lambda>w. (Ok 250, w)),
      sc_control_cgroup_root = (\<lambda>w. (Ok [RootDir], w)), sc_add_process_to_unit = (\<lambda>u sub pid w. (Ok (), w))\<rparr>"

definition demo_sd_env :: "(demo_fs, bool list) sd_env" where
  "demo_sd_env = manager_env.extend demo_manager_env
     \<lparr>sd_client = demo_client, clock_ms = df_slept, sd_bitset = demo_bitset, sd_read_link = (\<lambda>w p. None),
      sd_proc_devices = (\<lambda>w. Ok ''''),
      sd_iter = (\<lambda>p. if p = Map.empty then [] else [(''DevicePolicy'', the (p ''DevicePolicy''))])\<rparr>"

lemmas demo_sd_defs = demo_sd_env_def manager_env.defs demo_manager_defs

lemma demo_sd_env_simps [simp]:
  "fs_env.path_exists demo_sd_env = fs_env.path_exists demo_fs_env" "open_write demo_sd_env = open_write demo_fs_env"
  "write_all demo_sd_env = write_all demo_fs_env" "read_to_string demo_sd_env = read_to_string demo_fs_env"
  "sleep_ms demo_sd_env = sleep_ms demo_fs_env" "open_lines demo_sd_env = open_lines demo_fs_env"
  "read_dir demo_sd_env = read_dir demo_fs_env" "path_is_dir demo_sd_env = path_is_dir demo_fs_env"
  "bpf_of demo_sd_env = no_bpf" "devcg_of demo_sd_env = linux_devcg" "default_device_type demo_sd_env = DevA"
  "device_to_rule demo_sd_env = demo_rule" "sd_client demo_sd_env = demo_client" "clock_ms demo_sd_env = df_slept"
  "sd_iter demo_sd_env = (\<lambda>p. if p = Map.empty then [] else [(''DevicePolicy'', the (p ''DevicePolicy''))])"
  by (simp_all add: demo_sd_defs)

lemma demo_sd_write_log: "write_log demo_sd_env df_log"
  using demo_manager_laws(1) by (simp add: write_log_def)


definition demo_unit_tree :: demo_fs where
  "demo_unit_tree = empty_fs
     \<lparr>df_dirs := [full_path (sd_fs_manager demo_sd_manager)],
      df_file := [full_path (sd_fs_manager demo_sd_manager) @ [Normal ''cgroup.procs''] \<mapsto> ''7'']\<rparr>"

lemma demo_pids: "v2_get_all_pids 2 demo_sd_env (sd_fs_manager demo_sd_manager) demo_unit_tree = Ok [7]"
  by (simp add: v2_get_all_pids_def numeral_2_eq_2 dir_pids_def path_join_normal CGROUP_PROCS_def demo_unit_tree_def)
    (simp add: demo_fs_env_def demo_sd_manager_def empty_fs_def str_lines_def split_terminator_def strip_cr_def parse_sint_def digit_val_def)

theorem add_task_confirmed_witness:
  "\<exists>pids. v2_get_all_pids 2 demo_sd_env (sd_fs_manager demo_sd_manager) demo_unit_tree = Ok pids \<and> 7 \<in> set pids"
proof -
  have "wait_for_pid (Suc 0) 2 demo_sd_env demo_sd_manager 0 7 demo_unit_tree = (Ok (), demo_unit_tree)"
    using demo_pids by (simp add: demo_unit_tree_def empty_fs_def) (simp add: demo_sd_manager_def)
  then have "sd_add_task (Suc 0) 2 demo_sd_env demo_sd_manager 7 demo_unit_tree = (Ok (), demo_unit_tree)"
    by (simp add: sd_add_task_def wait_for_process_in_cgroup_def st_bind_def st_map_err_def demo_client_def demo_unit_tree_def
        empty_fs_def del: wait_for_pid.simps)
  from add_task_confirmed [OF this] show ?thesis
    by (auto simp: demo_client_def)
qed

theorem wait_for_process_ends_witness:
  "fst (wait_for_process_in_cgroup 252 1 (demo_sd_env\<lparr>fs_env.path_exists := \<lambda>p w. False, read_dir := \<lambda>p w. Ok []\<rparr>) demo_sd_manager 9 empty_fs) \<noteq> Diverge"
proof -
  let ?env = "demo_sd_env\<lparr>fs_env.path_exists := \<lambda>p w. False, read_dir := \<lambda>p w. Ok []\<rparr>"
  have "\<forall>w. v2_get_all_pids 1 ?env (sd_fs_manager demo_sd_manager) w \<noteq> Diverge"
    by (simp add: v2_get_all_pids_def dir_pids_def)
  moreover have "\<forall>w. clock_ms ?env w + 20 \<le> clock_ms ?env (sleep_ms ?env 20 w)"
    by (simp add: demo_fs_env_def)
  moreover have "sd_wait_timeout demo_sd_manager div 20 + 2 = 252"
    by (simp add: demo_sd_manager_def)
  ultimately show ?thesis
    using wait_for_process_ends [of ?env 1 demo_sd_manager 9 empty_fs] by simp
qed

definition demo_apply_manager :: sd_manager where
  "demo_apply_manager = demo_sd_manager\<lparr>sd_delegation_boundary := [RootDir]\<rparr>"

definition demo_apply_opt :: controller_opt where
  "demo_apply_opt =
     \<lparr>resources = \<lparr>res_devices = Some demo_rules, res_memory = None, res_cpu = None, res_pids = None, res_block_io = None,
        res_hugepage_limits = None, res_unified = None\<rparr>,
      disable_oom_killer = False, oom_score_adj = None, freezer_state_opt = None\<rparr>"

lemma demo_apply_properties:
  "sd_properties demo_sd_env (resources demo_apply_opt) 250 w = Ok (device_policy ''strict'' [] Map.empty)"
  by (simp add: sd_properties_def SD_CONTROLLER_TYPES_def opt_apply_def demo_apply_opt_def sd_devices_apply_def demo_rules_def
      add_rules_def add_rule_def with_default_allow_def typ_or_def)

lemma demo_apply_filter: "apply_devices no_bpf linux_devcg DevA demo_rule p (Some demo_rules) w = (Ok (), w)"
proof -
  have em: "device_emulator DevA demo_rule (Some demo_rules) = demo_em"
    by (simp add: device_emulator_rules demo_em_def)
  obtain prog where "from_rules linux_devcg DevA (rules demo_em) (default_allow demo_em) = Ok prog"
    using demo_prog by blast
  moreover have "bump_memlock_rlimit no_bpf w = (Ok (), w)" "bpf_load no_bpf LICENSE prog w = (Ok 3, w)"
    "open_cgroup_dir no_bpf p w = (Ok 1, w)" "bpf_attach no_bpf 3 1 w = (Ok (), w)" for prog
    by (simp_all add: bump_memlock_rlimit_def bpf_load_def open_cgroup_dir_def bpf_attach_def no_bpf_def)
  moreover have "query_loop no_bpf 1 (Suc 9) (replicate 64 0) w = (Ok [], w)"
    by (simp only: query_loop.simps) (simp add: no_bpf_def resize_def)
  then have "bpf_query no_bpf 1 w = (Ok [], w)"
    by (simp add: bpf_query_def st_bind_def)
  ultimately show ?thesis
    by (simp add: apply_devices_def em st_bind_def st_lift_def st_return_def)
qed


end
