(* ===== verification/Oci_Spec.thy ===== *)
theory Oci_Spec
  imports Cgroup_Fs
begin

text \<open>
  The parts of the OCI runtime specification that the code reads, as the crate \<open>oci_spec\<close> presents them
  to it. A \<open>HashMap\<close> is the list of its entries in the order in which the code iterates it, and a path
  inside the specification is its text. Where the code only asks whether a part is present, the field is
  a truth value. \<open>spec_root\<close> is the flag \<open>readonly\<close> of the root.
\<close>

datatype namespace_type = NsMount | NsCgroup | NsUts | NsIpc | NsUser | NsPid | NsNetwork | NsTime

record linux_namespace =
  ns_typ :: namespace_type
  ns_path :: "string option"

record linux_id_mapping =
  map_container_id :: u32
  map_host_id :: u32
  map_size :: u32

record spec_mount =
  mnt_destination :: string
  mnt_typ :: "string option"
  mnt_source :: "string option"
  mnt_options :: "string list option"
  mnt_uid_mappings :: "linux_id_mapping list option"
  mnt_gid_mappings :: "linux_id_mapping list option"

datatype scheduler_policy = SchedOther | SchedFifo | SchedRr | SchedBatch | SchedIso | SchedIdle | SchedDeadline

datatype scheduler_flag =
    SchedResetOnFork | SchedFlagReclaim | SchedFlagDLOverrun | SchedFlagKeepPolicy | SchedFlagKeepParams | SchedFlagUtilClampMin
  | SchedFlagUtilClampMax

record spec_scheduler =
  sch_policy :: scheduler_policy
  sch_nice :: "int option"
  sch_priority :: "int option"
  sch_runtime :: "nat option"
  sch_deadline :: "nat option"
  sch_period :: "nat option"
  sch_flags :: "scheduler_flag list option"

datatype io_priority_class = IoprioClassRt | IoprioClassBe | IoprioClassIdle

record spec_process =
  proc_scheduler :: "spec_scheduler option"
  proc_io_priority :: "(io_priority_class \<times> int) option"
  proc_additional_gids :: "u32 list option"
  proc_uid :: u32
  proc_gid :: u32
  proc_umask :: "u32 option"
  proc_terminal :: "bool option"
  proc_no_new_privileges :: "bool option"
  proc_rlimits :: "string list option"
  proc_capabilities :: bool
  proc_apparmor_profile :: "string option"
  proc_cwd :: string
  proc_args :: "string list option"
  proc_cpu_affinity :: "(string option \<times> string option) option"

datatype seccomp_action =
    ScmpActKill | ScmpActKillThread | ScmpActKillProcess | ScmpActTrap | ScmpActErrno | ScmpActNotify | ScmpActTrace | ScmpActAllow | ScmpActLog

text \<open>Of each seccomp rule only the action is looked at here.\<close>

record spec_seccomp =
  sec_actions :: "seccomp_action list option"
  sec_listener_path :: "string option"

datatype personality_domain = PerLinux | PerLinux32

record spec_personality =
  pers_domain :: personality_domain
  pers_flags :: "string list option"

record spec_linux =
  lin_namespaces :: "linux_namespace list option"
  lin_uid_mappings :: "linux_id_mapping list option"
  lin_gid_mappings :: "linux_id_mapping list option"
  lin_sysctl :: "(string \<times> string) list option"
  lin_masked_paths :: "string list option"
  lin_readonly_paths :: "string list option"
  lin_net_devices :: "(string \<times> string option) list option"
  lin_clos_id :: "string option"
  lin_time_offsets :: "(string \<times> int option \<times> nat option) list option"
  lin_resources :: bool
  lin_seccomp :: "spec_seccomp option"
  lin_personality :: "spec_personality option"
  lin_mount_label :: "string option"

record oci_spec =
  spec_hostname :: "string option"
  spec_domainname :: "string option"
  spec_process :: "spec_process option"
  spec_linux :: "spec_linux option"
  spec_mounts :: "spec_mount list option"
  spec_root :: "bool option option"
  spec_hooks :: bool

text \<open>The namespaces of the specification, none if they are absent.\<close>

definition namespaces_of :: "oci_spec \<Rightarrow> linux_namespace list" where
  "namespaces_of spec =
     (case spec_linux spec of
        Some l \<Rightarrow> (case lin_namespaces l of Some ns \<Rightarrow> ns | None \<Rightarrow> [])
      | None \<Rightarrow> [])"

definition has_namespace :: "namespace_type \<Rightarrow> oci_spec \<Rightarrow> bool" where
  "has_namespace t spec \<longleftrightarrow> list_ex (\<lambda>ns. ns_typ ns = t) (namespaces_of spec)"

lemma has_namespace_iff: "has_namespace t spec \<longleftrightarrow> (\<exists>ns \<in> set (namespaces_of spec). ns_typ ns = t)"
  by (simp add: has_namespace_def list_ex_iff)

end
