(* ===== verification/Container_Utils.thy ===== *)
theory Container_Utils
  imports Oci_Spec
begin

text \<open>
  The helpers of \<open>libcontainer/src/utils.rs\<close>: joining and canonicalizing paths, the default cgroup path,
  creating directories, detecting user namespaces, retrying. The function \<open>normalize\<close> is
  \<open>path_normalize\<close> of \<open>Rust_Paths\<close>. What the container code asks of the system is the record \<open>lc_env\<close>.
\<close>

section \<open>The system\<close>

record dir_meta =
  meta_is_dir :: bool
  meta_uid :: nat
  meta_mode :: u32

record 'w lc_env = "'w fs_env" +
  euid_is_root :: "'w \<Rightarrow> bool"
  current_dir_of :: "'w \<Rightarrow> (os_error, path) outcome"
  canonicalize_path :: "path \<Rightarrow> 'w \<Rightarrow> (os_error, path) outcome"
  build_dir :: "path \<Rightarrow> u32 \<Rightarrow> ('w, os_error, unit) st"
  meta_of :: "path \<Rightarrow> 'w \<Rightarrow> (os_error, dir_meta) outcome"
  unified_cgroup_of :: "'w \<Rightarrow> (string, path option) outcome"
  stat_ids :: "string \<Rightarrow> 'w \<Rightarrow> (nat, nat \<times> nat) outcome"

section \<open>Paths\<close>

datatype path_ext_error = RelativePath | StripPrefix path | Canonicalize path os_error | CurrentDirErr os_error

definition as_relative :: "path \<Rightarrow> (path_ext_error, path) outcome" where
  "as_relative p = (if is_relative p then Err RelativePath else ok_or (StripPrefix p) (strip_prefix [RootDir] p))"

definition lc_join_safely :: "path \<Rightarrow> path \<Rightarrow> (path_ext_error, path) outcome" where
  "lc_join_safely base p =
     (if is_relative p then Ok (path_join base p)
      else bind_outcome (ok_or (StripPrefix base) (strip_prefix [RootDir] p)) (\<lambda>stripped. Ok (path_join base stripped)))"

definition canonicalize_safely :: "('w, 'z) lc_env_scheme \<Rightarrow> path \<Rightarrow> 'w \<Rightarrow> (path_ext_error, path) outcome" where
  "canonicalize_safely env p w =
     (if path_exists env p w then map_err (Canonicalize p) (canonicalize_path env p w)
      else if is_relative p then
        bind_outcome (map_err CurrentDirErr (current_dir_of env w)) (\<lambda>cwd. Ok (path_normalize (path_join cwd p)))
      else Ok (path_normalize p))"

section \<open>The cgroup path of a container\<close>

definition resolve_cgroup_path :: "path option \<Rightarrow> string \<Rightarrow> bool \<Rightarrow> path option \<Rightarrow> path" where
  "resolve_cgroup_path cgroups_path container_id systemd_cgroup current_cgroup =
     (case cgroups_path of
        Some cpath \<Rightarrow> if systemd_cgroup then cpath else path_normalize cpath
      | None \<Rightarrow>
          if systemd_cgroup then parse_path ('':youki:'' @ container_id)
          else
            (case current_cgroup of
               Some current \<Rightarrow>
                 path_join (case path_parent (path_normalize current) of Some p \<Rightarrow> p | None \<Rightarrow> [RootDir]) (parse_path container_id)
             | None \<Rightarrow> parse_path container_id))"

definition get_cgroup_path :: "path option \<Rightarrow> string \<Rightarrow> path" where
  "get_cgroup_path cgroups_path container_id = resolve_cgroup_path cgroups_path container_id True None"

text \<open>\<open>unified_cgroup_of\<close> is the entry with hierarchy 0 of \<open>/proc/self/cgroup\<close>, as the crate \<open>procfs\<close> parses it.\<close>

definition get_cgroup_path_for_manager :: "('w, 'z) lc_env_scheme \<Rightarrow> path option \<Rightarrow> string \<Rightarrow> bool \<Rightarrow> 'w \<Rightarrow> (string, path) outcome" where
  "get_cgroup_path_for_manager env cgroups_path container_id systemd_cgroup w =
     (if cgroups_path \<noteq> None \<or> systemd_cgroup then Ok (resolve_cgroup_path cgroups_path container_id systemd_cgroup None)
      else
        bind_outcome (unified_cgroup_of env w) (\<lambda>current.
        Ok (resolve_cgroup_path cgroups_path container_id systemd_cgroup current)))"

section \<open>Directories\<close>

datatype mkdir_error = MkdirIo os_error | MetadataMismatch

definition create_dir_all_with_mode :: "('w, 'z) lc_env_scheme \<Rightarrow> path \<Rightarrow> nat \<Rightarrow> u32 \<Rightarrow> ('w, mkdir_error, unit) st" where
  "create_dir_all_with_mode env p owner mode =
     st_bind (\<lambda>w. if \<not> path_exists env p w then st_map_err MkdirIo (build_dir env p mode) w else (Ok (), w)) (\<lambda>_ w.
     case meta_of env p w of
       Ok md \<Rightarrow> (if meta_is_dir md \<and> meta_uid md = owner \<and> and (meta_mode md) mode = mode then Ok () else Err MetadataMismatch, w)
     | Err e \<Rightarrow> (Err (MkdirIo e), w)
     | Panic \<Rightarrow> (Panic, w)
     | Diverge \<Rightarrow> (Diverge, w))"

section \<open>User namespaces\<close>

definition is_in_new_userns :: "('w, 'z) fs_env_scheme \<Rightarrow> 'w \<Rightarrow> (os_error, bool) outcome" where
  "is_in_new_userns env w =
     bind_outcome (read_to_string env (parse_path ''/proc/self/uid_map'') w) (\<lambda>content.
     Ok (\<not> sublist ''4294967295'' content))"

definition rootless_required :: "('w, 'z) lc_env_scheme \<Rightarrow> 'w \<Rightarrow> (os_error, bool) outcome" where
  "rootless_required env w = (if \<not> euid_is_root env w then Ok True else is_in_new_userns env w)"

section \<open>Retrying\<close>

text \<open>The loop for the attempts that are left.\<close>

fun retry_loop :: "('w, 'e, 'a) st \<Rightarrow> (nat \<Rightarrow> 'w \<Rightarrow> 'w) \<Rightarrow> nat \<Rightarrow> ('e \<Rightarrow> bool) \<Rightarrow> nat \<Rightarrow> ('w, 'e, 'a) st" where
  "retry_loop op sleep delay policy 0 w = (Panic, w)"
| "retry_loop op sleep delay policy (Suc left) w =
     (case op w of
        (Err e, w) \<Rightarrow> if 0 < left \<and> policy e then retry_loop op sleep delay policy left (sleep delay w) else (Err e, w)
      | r \<Rightarrow> r)"

definition retry :: "('w, 'e, 'a) st \<Rightarrow> (nat \<Rightarrow> 'w \<Rightarrow> 'w) \<Rightarrow> nat \<Rightarrow> nat \<Rightarrow> ('e \<Rightarrow> bool) \<Rightarrow> ('w, 'e, 'a) st" where
  "retry op sleep attempts delay policy w =
     (if attempts = 0 then (Panic, w) else retry_loop op sleep delay policy attempts w)"

section \<open>Facts\<close>

lemma lc_join_safely_eq:
  "lc_join_safely base p = Ok (path_join base (if is_absolute p then tl p else p))"
  by (cases p) (auto simp: lc_join_safely_def is_absolute_def split: component.splits)

text \<open>The number of times the operation has failed in a way that is retried bounds the attempts.\<close>

lemma retry_loop_no_panic:
  assumes "\<forall>w. fst (op w) \<noteq> Panic"
  shows "fst (retry_loop op sleep delay policy (Suc n) w) \<noteq> Panic"
proof (induction n arbitrary: w)
  case 0
  then show ?case
    using assms by (auto split: prod.splits outcome.splits) (metis fst_conv)
next
  case (Suc n)
  show ?case
    using assms Suc by (subst retry_loop.simps) (auto split: prod.splits outcome.splits, metis fst_conv)
qed

end
