(* ===== verification/User_Namespace.thy ===== *)
theory User_Namespace
  imports Container_Utils
begin

text \<open>
  Namespaces and user mappings: \<open>libcontainer/src/namespaces.rs\<close>, which enters the namespaces of the
  specification in a fixed order, and \<open>libcontainer/src/user_ns.rs\<close>, which validates the specification for
  a new user namespace and writes the uid and gid mappings.
\<close>

section \<open>Namespaces\<close>

text \<open>
  The clone flags, in the order of the table \<open>ORDERED_NAMESPACES\<close>. \<open>get_clone_flag\<close> never fails, as every
  namespace type has a flag.
\<close>

datatype clone_flag = CLONE_NEWUSER | CLONE_NEWPID | CLONE_NEWUTS | CLONE_NEWIPC | CLONE_NEWNET | CLONE_NEWCGROUP | CLONE_NEWNS | CLONE_NEWTIME

primrec get_clone_flag :: "namespace_type \<Rightarrow> clone_flag" where
  "get_clone_flag NsUser = CLONE_NEWUSER"
| "get_clone_flag NsPid = CLONE_NEWPID"
| "get_clone_flag NsUts = CLONE_NEWUTS"
| "get_clone_flag NsIpc = CLONE_NEWIPC"
| "get_clone_flag NsNetwork = CLONE_NEWNET"
| "get_clone_flag NsCgroup = CLONE_NEWCGROUP"
| "get_clone_flag NsMount = CLONE_NEWNS"
| "get_clone_flag NsTime = CLONE_NEWTIME"

definition ORDERED_NAMESPACES :: "clone_flag list" where
  "ORDERED_NAMESPACES = [CLONE_NEWUSER, CLONE_NEWPID, CLONE_NEWUTS, CLONE_NEWIPC, CLONE_NEWNET, CLONE_NEWCGROUP, CLONE_NEWNS, CLONE_NEWTIME]"

datatype namespace_error = NsNix nat | NsSyscall nat

record 'w ns_env = "'w lc_env" +
  open_ns :: "string \<Rightarrow> ('w, nat, int) st"
  set_ns :: "int \<Rightarrow> clone_flag \<Rightarrow> ('w, nat, unit) st"
  unshare :: "clone_flag \<Rightarrow> ('w, nat, unit) st"
  path_var :: "string option"
  run_command :: "path \<Rightarrow> string list \<Rightarrow> ('w, os_error, int) st"

text \<open>Collecting into a \<open>HashMap\<close>: a later namespace with the same flag replaces an earlier one.\<close>

definition namespaces_try_from :: "linux_namespace list option \<Rightarrow> clone_flag \<rightharpoonup> linux_namespace" where
  "namespaces_try_from nss =
     foldl (\<lambda>m ns. m(get_clone_flag (ns_typ ns) \<mapsto> ns)) Map.empty (case nss of Some l \<Rightarrow> l | None \<Rightarrow> [])"

definition unshare_or_setns :: "('w, 'z) ns_env_scheme \<Rightarrow> linux_namespace \<Rightarrow> ('w, namespace_error, unit) st" where
  "unshare_or_setns env ns =
     (case ns_path ns of
        Some p \<Rightarrow>
          st_bind (st_map_err NsNix (open_ns env p)) (\<lambda>fd.
          st_map_err NsSyscall (set_ns env fd (get_clone_flag (ns_typ ns))))
      | None \<Rightarrow> st_map_err NsSyscall (unshare env (get_clone_flag (ns_typ ns))))"

definition to_enter :: "(clone_flag \<rightharpoonup> linux_namespace) \<Rightarrow> (clone_flag \<Rightarrow> bool) \<Rightarrow> linux_namespace list" where
  "to_enter m flt = List.map_filter m (filter flt ORDERED_NAMESPACES)"

definition apply_namespaces :: "('w, 'z) ns_env_scheme \<Rightarrow> (clone_flag \<rightharpoonup> linux_namespace) \<Rightarrow> (clone_flag \<Rightarrow> bool) \<Rightarrow>
    ('w, namespace_error, unit) st" where
  "apply_namespaces env m flt = st_for (unshare_or_setns env) (to_enter m flt)"

definition namespace_get :: "(clone_flag \<rightharpoonup> linux_namespace) \<Rightarrow> namespace_type \<Rightarrow> linux_namespace option" where
  "namespace_get m k = m (get_clone_flag k)"

section \<open>Mappings\<close>

datatype validate_spec_error =
    MissingLinux
  | NoUIDMappings
  | NoGIDMapping
  | NoMountSpec
  | UnprivilegedUser
  | GidNotMapped u32
  | ParseID int_error
  | MountGidMapping u32
  | MountUidMapping u32
  | ValidateIO os_error

datatype mapping_error = BinaryNotFound | NoPathEnv | ExecuteErr os_error | NoIDMapping | WriteIDMapping os_error

datatype user_ns_error =
    UnsMissingLinux
  | InvalidSpec validate_spec_error
  | ReadUnprivilegedUsernsClone os_error
  | ParseUnprivilegedUsernsClone int_error
  | UnknownUnprivilegedUsernsClone nat
  | IDMapping mapping_error
  | OtherIO os_error

record user_ns_config =
  newuidmap :: "path option"
  newgidmap :: "path option"
  uid_mappings :: "linux_id_mapping list option"
  gid_mappings :: "linux_id_mapping list option"
  user_namespace :: "linux_namespace option"
  privileged :: bool
  id_mapper_base :: path

definition id_map_path :: "path \<Rightarrow> i32 \<Rightarrow> string \<Rightarrow> path" where
  "id_map_path base pid name = path_join (path_join base (parse_path (int_to_string (sint pid)))) [Normal name]"

text \<open>The sum of the first container id and the size is taken in \<open>u32\<close>, which wraps around in the release profile.\<close>

definition is_id_mapped :: "u32 \<Rightarrow> linux_id_mapping list \<Rightarrow> bool" where
  "is_id_mapped i ms \<longleftrightarrow> list_ex (\<lambda>m. map_container_id m \<le> i \<and> i \<le> map_container_id m + map_size m) ms"

definition parse_mount_id :: "string \<Rightarrow> (validate_spec_error, u32) outcome" where
  "parse_mount_id opt = map_outcome of_nat (map_err ParseID (parse_u32 (drop 4 opt)))"

definition check_mount_opt :: "linux_id_mapping list \<Rightarrow> linux_id_mapping list \<Rightarrow> string \<Rightarrow> (validate_spec_error, unit) outcome" where
  "check_mount_opt uids gids opt =
     bind_outcome
       (if prefix ''uid='' opt then
          bind_outcome (parse_mount_id opt) (\<lambda>i. if \<not> is_id_mapped i uids then Err (MountUidMapping i) else Ok ())
        else Ok ()) (\<lambda>_.
     if prefix ''gid='' opt then
       bind_outcome (parse_mount_id opt) (\<lambda>i. if \<not> is_id_mapped i gids then Err (MountGidMapping i) else Ok ())
     else Ok ())"

fun check_all :: "('a \<Rightarrow> ('e, unit) outcome) \<Rightarrow> 'a list \<Rightarrow> ('e, unit) outcome" where
  "check_all f [] = Ok ()"
| "check_all f (x # xs) = bind_outcome (f x) (\<lambda>_. check_all f xs)"

definition validate_mounts_for_new_user_ns :: "spec_mount list \<Rightarrow> linux_id_mapping list \<Rightarrow> linux_id_mapping list \<Rightarrow>
    (validate_spec_error, unit) outcome" where
  "validate_mounts_for_new_user_ns mounts uids gids =
     check_all (\<lambda>m. case mnt_options m of Some opts \<Rightarrow> check_all (check_mount_opt uids gids) opts | None \<Rightarrow> Ok ()) mounts"

definition uns_validate_spec :: "('w, 'z) lc_env_scheme \<Rightarrow> oci_spec \<Rightarrow> 'w \<Rightarrow> (validate_spec_error, unit) outcome" where
  "uns_validate_spec env spec w =
     bind_outcome (ok_or MissingLinux (spec_linux spec)) (\<lambda>linux.
     bind_outcome (ok_or NoGIDMapping (lin_gid_mappings linux)) (\<lambda>gids.
     bind_outcome (ok_or NoUIDMappings (lin_uid_mappings linux)) (\<lambda>uids.
     if uids = [] then Err NoUIDMappings
     else if gids = [] then Err NoGIDMapping
     else
       bind_outcome (ok_or NoMountSpec (spec_mounts spec)) (\<lambda>mounts.
       bind_outcome (validate_mounts_for_new_user_ns mounts uids gids) (\<lambda>_.
       case Option.bind (spec_process spec) proc_additional_gids of
         None \<Rightarrow> Ok ()
       | Some additional_gids \<Rightarrow>
           bind_outcome (map_err ValidateIO (rootless_required env w)) (\<lambda>rootless.
           if additional_gids = [] then Ok ()
           else if rootless then Err UnprivilegedUser
           else check_all (\<lambda>gid. if \<not> is_id_mapped gid gids then Err (GidNotMapped gid) else Ok ()) additional_gids))))))"

definition lookup_map_binary :: "('w, 'z) ns_env_scheme \<Rightarrow> string \<Rightarrow> 'w \<Rightarrow> (mapping_error, path option) outcome" where
  "lookup_map_binary env binary w =
     bind_outcome (ok_or NoPathEnv (path_var env)) (\<lambda>paths.
     Ok (find (\<lambda>p. path_exists env p w) (map (\<lambda>p. path_join (parse_path p) [Normal binary]) (split_terminator (CHR '':'') paths))))"

definition mappings_len :: "linux_id_mapping list option \<Rightarrow> nat" where
  "mappings_len ms = (case ms of Some l \<Rightarrow> length l | None \<Rightarrow> 0)"

definition lookup_map_binaries :: "('w, 'z) ns_env_scheme \<Rightarrow> spec_linux \<Rightarrow> 'w \<Rightarrow> (mapping_error, (path \<times> path) option) outcome" where
  "lookup_map_binaries env linux w =
     (if mappings_len (lin_uid_mappings linux) \<le> 1 \<and> mappings_len (lin_gid_mappings linux) \<le> 1 then Ok None
      else
        bind_outcome (lookup_map_binary env ''newuidmap'' w) (\<lambda>uidmap.
        bind_outcome (lookup_map_binary env ''newgidmap'' w) (\<lambda>gidmap.
        case (uidmap, gidmap) of
          (Some u, Some g) \<Rightarrow> Ok (Some (u, g))
        | _ \<Rightarrow> Err BinaryNotFound)))"

definition user_ns_try_from :: "('w, 'z) lc_env_scheme \<Rightarrow> spec_linux \<Rightarrow> 'w \<Rightarrow> (user_ns_error, user_ns_config) outcome" where
  "user_ns_try_from env linux w =
     (let m = namespaces_try_from (lin_namespaces linux) in
      bind_outcome (map_err OtherIO (rootless_required env w)) (\<lambda>rootless.
      Ok \<lparr>newuidmap = None, newgidmap = None, uid_mappings = lin_uid_mappings linux, gid_mappings = lin_gid_mappings linux,
          user_namespace = namespace_get m NsUser, privileged = (\<not> rootless), id_mapper_base = [RootDir, Normal ''proc'']\<rparr>))"

definition user_ns_config_new :: "('w, 'z) ns_env_scheme \<Rightarrow> oci_spec \<Rightarrow> 'w \<Rightarrow> (user_ns_error, user_ns_config option) outcome" where
  "user_ns_config_new env spec w =
     bind_outcome (ok_or UnsMissingLinux (spec_linux spec)) (\<lambda>linux.
     case namespace_get (namespaces_try_from (lin_namespaces linux)) NsUser of
       Some ns \<Rightarrow>
         if ns_path ns = None then
           bind_outcome (map_err InvalidSpec (uns_validate_spec env spec w)) (\<lambda>_.
           bind_outcome (user_ns_try_from env linux w) (\<lambda>config.
           bind_outcome (map_err IDMapping (lookup_map_binaries env linux w)) (\<lambda>binaries.
           Ok (Some (case binaries of
                       Some (u, g) \<Rightarrow> config\<lparr>newuidmap := Some u, newgidmap := Some g\<rparr>
                     | None \<Rightarrow> config)))))
         else Ok None
     | None \<Rightarrow> Ok None)"

definition show_u32 :: "u32 \<Rightarrow> string" where
  "show_u32 n = nat_to_string (unat n)"

text \<open>
  \<open>write_id_mapping\<close>: one mapping is written directly, several are handed to the helper. The exit status of
  the helper, which \<open>Command::output\<close> returns, is not looked at.
\<close>

definition write_id_mapping :: "('w, 'z) ns_env_scheme \<Rightarrow> i32 \<Rightarrow> path \<Rightarrow> linux_id_mapping list \<Rightarrow> path option \<Rightarrow>
    ('w, mapping_error, unit) st" where
  "write_id_mapping env pid map_file mappings map_binary =
     (case mappings of
        [] \<Rightarrow> st_fail NoIDMapping
      | [m] \<Rightarrow>
          st_map_err WriteIDMapping
            (fs_write env map_file (show_u32 (map_container_id m) @ '' '' @ show_u32 (map_host_id m) @ '' '' @ show_u32 (map_size m)))
      | _ \<Rightarrow>
          (case map_binary of
             None \<Rightarrow> st_lift Panic
           | Some b \<Rightarrow>
               st_bind (st_map_err ExecuteErr (run_command env b (int_to_string (sint pid) #
                 concat (map (\<lambda>m. [show_u32 (map_container_id m), show_u32 (map_host_id m), show_u32 (map_size m)]) mappings)))) (\<lambda>_.
               st_return ())))"

definition write_uid_mapping :: "('w, 'z) ns_env_scheme \<Rightarrow> user_ns_config \<Rightarrow> i32 \<Rightarrow> ('w, user_ns_error, unit) st" where
  "write_uid_mapping env c pid =
     (case uid_mappings c of
        Some ms \<Rightarrow> st_map_err IDMapping (write_id_mapping env pid (id_map_path (id_mapper_base c) pid ''uid_map'') ms (newuidmap c))
      | None \<Rightarrow> st_return ())"

definition write_gid_mapping :: "('w, 'z) ns_env_scheme \<Rightarrow> user_ns_config \<Rightarrow> i32 \<Rightarrow> ('w, user_ns_error, unit) st" where
  "write_gid_mapping env c pid =
     (case gid_mappings c of
        Some ms \<Rightarrow> st_map_err IDMapping (write_id_mapping env pid (id_map_path (id_mapper_base c) pid ''gid_map'') ms (newgidmap c))
      | None \<Rightarrow> st_return ())"

definition unprivileged_user_ns_enabled :: "('w, 'z) fs_env_scheme \<Rightarrow> 'w \<Rightarrow> (user_ns_error, bool) outcome" where
  "unprivileged_user_ns_enabled env w =
     (let p = parse_path ''/proc/sys/kernel/unprivileged_userns_clone'' in
      if \<not> path_exists env p w then Ok True
      else
        bind_outcome (map_err ReadUnprivilegedUsernsClone (read_to_string env p w)) (\<lambda>content.
        bind_outcome (map_err ParseUnprivilegedUsernsClone (parse_u8 (trim content))) (\<lambda>v.
        if v = 0 then Ok False else if v = 1 then Ok True else Err (UnknownUnprivilegedUsernsClone v))))"

section \<open>Entering the namespaces\<close>

lemma foldl_namespaces:
  "foldl (\<lambda>m ns. m(get_clone_flag (ns_typ ns) \<mapsto> ns)) m l c =
     (case find (\<lambda>ns. get_clone_flag (ns_typ ns) = c) (rev l) of Some ns \<Rightarrow> Some ns | None \<Rightarrow> m c)"
  by (induction l rule: rev_induct) auto

lemma namespaces_try_from_find:
  "namespaces_try_from nss c = find (\<lambda>ns. get_clone_flag (ns_typ ns) = c) (rev (case nss of Some l \<Rightarrow> l | None \<Rightarrow> []))"
  by (simp add: namespaces_try_from_def foldl_namespaces split: option.splits)

lemma find_SomeD: "find P xs = Some x \<Longrightarrow> P x \<and> x \<in> set xs"
  by (induction xs) (auto split: if_splits)

lemma namespaces_try_from_flag:
  "namespaces_try_from nss c = Some ns \<Longrightarrow> get_clone_flag (ns_typ ns) = c \<and> ns \<in> set (case nss of Some l \<Rightarrow> l | None \<Rightarrow> [])"
  unfolding namespaces_try_from_find by (drule find_SomeD) simp

lemma namespaces_try_from_dom:
  "namespaces_try_from nss c = None \<longleftrightarrow> (\<forall>ns \<in> set (case nss of Some l \<Rightarrow> l | None \<Rightarrow> []). get_clone_flag (ns_typ ns) \<noteq> c)"
  unfolding namespaces_try_from_find by (auto simp: find_None_iff)

text \<open>
  \<open>entered\<close> is the sequence of namespaces that the process has entered. Opening a namespace file leaves it
  alone, \<open>setns\<close> and \<open>unshare\<close> add the one they are called for.
\<close>

definition ns_law :: "('w, 'z) ns_env_scheme \<Rightarrow> ('w \<Rightarrow> clone_flag list) \<Rightarrow> bool" where
  "ns_law env entered \<longleftrightarrow>
     (\<forall>p w. entered (snd (open_ns env p w)) = entered w) \<and>
     (\<forall>fd c w w'. set_ns env fd c w = (Ok (), w') \<longrightarrow> entered w' = entered w @ [c]) \<and>
     (\<forall>c w w'. unshare env c w = (Ok (), w') \<longrightarrow> entered w' = entered w @ [c])"

lemma unshare_or_setns_entered:
  assumes "ns_law env entered" and "unshare_or_setns env ns w = (Ok (), w')"
  shows "entered w' = entered w @ [get_clone_flag (ns_typ ns)]"
proof (cases "ns_path ns")
  case None
  then show ?thesis
    using assms by (auto simp: unshare_or_setns_def ns_law_def outcome_simps)
next
  case (Some p)
  then obtain fd w1 where o: "open_ns env p w = (Ok fd, w1)" and s: "set_ns env fd (get_clone_flag (ns_typ ns)) w1 = (Ok (), w')"
    using assms(2) by (auto simp: unshare_or_setns_def outcome_simps)
  have "entered w1 = entered w"
    using assms(1) o unfolding ns_law_def by (metis snd_conv)
  moreover have "entered w' = entered w1 @ [get_clone_flag (ns_typ ns)]"
    using assms(1) s unfolding ns_law_def by blast
  ultimately show ?thesis
    by simp
qed

lemma enter_all:
  assumes "ns_law env entered" and "st_for (unshare_or_setns env) nss w = (Ok (), w')"
  shows "entered w' = entered w @ map (\<lambda>ns. get_clone_flag (ns_typ ns)) nss"
  using assms(2)
proof (induction nss arbitrary: w)
  case Nil
  then show ?case
    by (simp add: st_return_def)
next
  case (Cons ns nss)
  then obtain w1 where "unshare_or_setns env ns w = (Ok (), w1)" and "st_for (unshare_or_setns env) nss w1 = (Ok (), w')"
    by (auto simp: outcome_simps)
  then show ?case
    using Cons.IH unshare_or_setns_entered [OF assms(1)] by fastforce
qed

lemma to_enter_flags:
  "map (\<lambda>ns. get_clone_flag (ns_typ ns)) (to_enter (namespaces_try_from nss) flt) =
     filter (\<lambda>c. flt c \<and> namespaces_try_from nss c \<noteq> None) ORDERED_NAMESPACES"
proof -
  have "map (\<lambda>ns. get_clone_flag (ns_typ ns)) (List.map_filter (namespaces_try_from nss) cs) = filter (\<lambda>c. namespaces_try_from nss c \<noteq> None) cs" for cs
    by (induction cs) (auto simp: map_filter_simps dest: namespaces_try_from_flag split: option.splits)
  then show ?thesis
    by (simp add: to_enter_def conj_commute)
qed


section \<open>Writing the mappings\<close>

lemma fst_st_map_err: "fst (st_map_err h m w) = map_err h (fst (m w))"
  by (simp add: st_map_err_def split: prod.splits)

lemma write_id_mapping_no_panic:
  assumes "1 < length ms \<longrightarrow> b \<noteq> None"
    and "\<forall>p d w. fst (fs_write env p d w) \<noteq> Panic" and "\<forall>p a w. fst (run_command env p a w) \<noteq> Panic"
  shows "fst (write_id_mapping env pid f ms b w) \<noteq> Panic"
proof (cases ms rule: remdups_adj.cases)
  case (3 m1 m2 ms')
  then obtain bin where "b = Some bin"
    using assms(1) by (cases b) simp_all
  define args where "args = int_to_string (sint pid) #
    concat (map (\<lambda>m. [show_u32 (map_container_id m), show_u32 (map_host_id m), show_u32 (map_size m)]) ms)"
  obtain r w' where r: "run_command env bin args w = (r, w')"
    by (cases "run_command env bin args w")
  then have "r \<noteq> Panic"
    using assms(3) [rule_format, of bin args w] by simp
  then show ?thesis
    using r \<open>b = Some bin\<close> unfolding 3 write_id_mapping_def args_def
    by (cases r) (simp_all add: st_bind_def st_map_err_def st_return_def)
qed (simp_all add: write_id_mapping_def st_fail_def fst_st_map_err map_err_eq assms(2))

lemma lookup_map_binaries_Some:
  assumes "lookup_map_binaries env linux w = Ok bins" and "1 < mappings_len (lin_uid_mappings linux) \<or> 1 < mappings_len (lin_gid_mappings linux)"
  shows "\<exists>u g. bins = Some (u, g)"
  using assms
  by (cases "lookup_map_binary env ''newuidmap'' w"; cases "lookup_map_binary env ''newgidmap'' w")
    (auto simp: lookup_map_binaries_def split: option.splits if_splits)

lemma user_ns_config_new_Some:
  assumes "user_ns_config_new env spec w = Ok (Some c)"
  shows "\<exists>linux config bins. spec_linux spec = Some linux \<and> uns_validate_spec env spec w = Ok () \<and>
    user_ns_try_from env linux w = Ok config \<and> lookup_map_binaries env linux w = Ok bins \<and>
    c = (case bins of Some (u, g) \<Rightarrow> config\<lparr>newuidmap := Some u, newgidmap := Some g\<rparr> | None \<Rightarrow> config)"
proof (cases "spec_linux spec")
  case (Some linux)
  then show ?thesis
    using assms
    by (cases "uns_validate_spec env spec w"; cases "user_ns_try_from env linux w"; cases "lookup_map_binaries env linux w")
      (auto simp: user_ns_config_new_def split: option.splits if_splits)
qed (use assms in \<open>simp add: user_ns_config_new_def\<close>)

lemma uns_validate_spec_mappings:
  assumes "uns_validate_spec env spec w = Ok ()" and "spec_linux spec = Some linux"
  shows "\<exists>us gs. lin_uid_mappings linux = Some us \<and> lin_gid_mappings linux = Some gs \<and> us \<noteq> [] \<and> gs \<noteq> []"
  using assms by (cases "lin_uid_mappings linux"; cases "lin_gid_mappings linux") (auto simp: uns_validate_spec_def split: if_splits)

text \<open>
  C17. Writing the mappings of a configuration for a new user namespace never panics and never fails for want
  of a mapping: the helper binaries are present whenever either list has more than one entry, and
  both lists have at least one.
\<close>

theorem mappings_written_without_panic:
  assumes "user_ns_config_new env spec w = Ok (Some c)"
    and "\<forall>p d v. fst (fs_write env p d v) \<noteq> Panic" and "\<forall>p a v. fst (run_command env p a v) \<noteq> Panic"
  shows "fst (write_uid_mapping env c pid v) \<notin> {Panic, Err (IDMapping NoIDMapping)} \<and>
    fst (write_gid_mapping env c pid v) \<notin> {Panic, Err (IDMapping NoIDMapping)}"
proof -
  obtain linux config bins where l: "spec_linux spec = Some linux" and v: "uns_validate_spec env spec w = Ok ()"
    and t: "user_ns_try_from env linux w = Ok config" and b: "lookup_map_binaries env linux w = Ok bins"
    and c: "c = (case bins of Some (u, g) \<Rightarrow> config\<lparr>newuidmap := Some u, newgidmap := Some g\<rparr> | None \<Rightarrow> config)"
    using user_ns_config_new_Some [OF assms(1)] by blast
  obtain us gs where m: "lin_uid_mappings linux = Some us" "lin_gid_mappings linux = Some gs" "us \<noteq> []" "gs \<noteq> []"
    using uns_validate_spec_mappings [OF v l] by blast
  have maps: "uid_mappings c = Some us" "gid_mappings c = Some gs"
    using t m c by (auto simp: user_ns_try_from_def outcome_simps Let_def split: option.splits)
  have u: "1 < length us \<longrightarrow> newuidmap c \<noteq> None" and g: "1 < length gs \<longrightarrow> newgidmap c \<noteq> None"
    using lookup_map_binaries_Some [OF b] m c by (auto simp: mappings_len_def)
  have ne: "fst (write_id_mapping env pid f ms bin v) \<noteq> Err NoIDMapping" if "ms \<noteq> []" for f ms bin
    using that by (cases ms; cases "tl ms")
      (auto simp: write_id_mapping_def st_map_err_def st_bind_def st_return_def st_lift_def map_err_eq split: list.splits option.splits prod.splits outcome.splits)
  show ?thesis
    using write_id_mapping_no_panic [OF u assms(2,3), of pid "id_map_path (id_mapper_base c) pid ''uid_map''" v]
      write_id_mapping_no_panic [OF g assms(2,3), of pid "id_map_path (id_mapper_base c) pid ''gid_map''" v]
      ne [OF m(3), of "id_map_path (id_mapper_base c) pid ''uid_map''" "newuidmap c"]
      ne [OF m(4), of "id_map_path (id_mapper_base c) pid ''gid_map''" "newgidmap c"] maps
    by (auto simp: write_uid_mapping_def write_gid_mapping_def st_map_err_def map_err_eq split: prod.splits)
qed

text \<open>
  C0. The helper that writes several mappings may fail without anybody noticing: its exit status is ignored, so
  a container can go on without its mappings.
\<close>

theorem helper_status_ignored:
  assumes "1 < length ms" and "run_command env b args w = (Ok status, w')"
    and "args = int_to_string (sint pid) # concat (map (\<lambda>m. [show_u32 (map_container_id m), show_u32 (map_host_id m), show_u32 (map_size m)]) ms)"
  shows "write_id_mapping env pid f ms (Some b) w = (Ok (), w')"
  using assms by (cases ms; cases "tl ms") (auto simp: write_id_mapping_def st_bind_def st_map_err_def st_return_def)

section \<open>Which ids are mapped\<close>

text \<open>The ids of a mapping as the kernel sees it.\<close>

definition mapped :: "u32 \<Rightarrow> linux_id_mapping list \<Rightarrow> bool" where
  "mapped i ms \<longleftrightarrow> (\<exists>m \<in> set ms. unat (map_container_id m) \<le> unat i \<and> unat i < unat (map_container_id m) + unat (map_size m))"


section \<open>Concrete runs\<close>

text \<open>A system whose world is the sequence of namespaces entered, with the helpers in \<open>/bin\<close>; the helpers fail.\<close>

definition demo_ns_env :: "(clone_flag list) ns_env" where
  "demo_ns_env =
     \<lparr>path_exists = (\<lambda>p w. p = parse_path ''/bin/newuidmap'' \<or> p = parse_path ''/bin/newgidmap''), open_write = (\<lambda>p. st_return ()),
      write_all = (\<lambda>p d. st_return ()), fs_write = (\<lambda>p d. st_return ()), read_to_string = (\<lambda>p w. Ok ''0 0 4294967295''),
      open_lines = (\<lambda>p w. Ok []), create_dir = (\<lambda>p. st_return ()), remove_dir = (\<lambda>p. st_return ()), read_dir = (\<lambda>p w. Ok []),
      path_is_dir = (\<lambda>p w. False), statfs_type = (\<lambda>p w. Err (Os 2)), sleep_ms = (\<lambda>n w. w), send_sigkill = (\<lambda>p w. w),
      euid_is_root = (\<lambda>w. False), current_dir_of = (\<lambda>w. Ok [RootDir]), canonicalize_path = (\<lambda>p w. Ok p),
      build_dir = (\<lambda>p m. st_return ()), meta_of = (\<lambda>p w. Err (Os 2)), unified_cgroup_of = (\<lambda>w. Ok None), stat_ids = (\<lambda>p w. Ok (1, 2)),
      open_ns = (\<lambda>p. st_return 3), set_ns = (\<lambda>fd c w. (Ok (), w @ [c])), unshare = (\<lambda>c w. (Ok (), w @ [c])),
      path_var = Some ''/bin'', run_command = (\<lambda>p args. st_return 1)\<rparr>"

definition demo_mapping :: linux_id_mapping where
  "demo_mapping = \<lparr>map_container_id = 0, map_host_id = 100, map_size = 10\<rparr>"

definition demo_uns_linux :: spec_linux where
  "demo_uns_linux =
     \<lparr>lin_namespaces = Some [\<lparr>ns_typ = NsMount, ns_path = None\<rparr>, \<lparr>ns_typ = NsUser, ns_path = None\<rparr>],
      lin_uid_mappings = Some [demo_mapping, demo_mapping\<lparr>map_container_id := 20, map_host_id := 200\<rparr>],
      lin_gid_mappings = Some [demo_mapping], lin_sysctl = None, lin_masked_paths = None, lin_readonly_paths = None,
      lin_net_devices = None, lin_clos_id = None, lin_time_offsets = None, lin_resources = False, lin_seccomp = None,
      lin_personality = None, lin_mount_label = None\<rparr>"

definition demo_uns_spec :: oci_spec where
  "demo_uns_spec =
     \<lparr>spec_hostname = None, spec_domainname = None, spec_process = None, spec_linux = Some demo_uns_linux, spec_mounts = Some [],
      spec_root = Some None, spec_hooks = False\<rparr>"

lemma demo_ns_law: "ns_law demo_ns_env (\<lambda>w. w)"
  by (simp add: ns_law_def demo_ns_env_def st_return_def)


lemma demo_uns_config:
  "user_ns_config_new demo_ns_env demo_uns_spec [] = Ok (Some
     \<lparr>newuidmap = Some (parse_path ''/bin/newuidmap''), newgidmap = Some (parse_path ''/bin/newgidmap''),
      uid_mappings = lin_uid_mappings demo_uns_linux, gid_mappings = lin_gid_mappings demo_uns_linux,
      user_namespace = Some \<lparr>ns_typ = NsUser, ns_path = None\<rparr>, privileged = False, id_mapper_base = [RootDir, Normal ''proc'']\<rparr>)"
  by code_simp

theorem mappings_written_without_panic_witness:
  "\<exists>c. user_ns_config_new demo_ns_env demo_uns_spec [] = Ok (Some c) \<and>
     fst (write_uid_mapping demo_ns_env c 7 []) \<notin> {Panic, Err (IDMapping NoIDMapping)} \<and>
     fst (write_gid_mapping demo_ns_env c 7 []) \<notin> {Panic, Err (IDMapping NoIDMapping)}"
proof -
  have "fst (fs_write demo_ns_env p d v) \<noteq> Panic" "fst (run_command demo_ns_env p a v) \<noteq> Panic" for p d a v
    by (simp_all add: demo_ns_env_def st_return_def)
  then show ?thesis
    using mappings_written_without_panic [OF demo_uns_config, of 7 "[]"] demo_uns_config by blast
qed

theorem helper_status_ignored_witness:
  "run_command demo_ns_env [] [] [] = (Ok 1, []) \<and>
   write_id_mapping demo_ns_env 7 [] [demo_mapping, demo_mapping] (Some []) [] = (Ok (), [])"
proof -
  have "run_command demo_ns_env p a w = (Ok 1, w)" for p a w
    by (simp add: demo_ns_env_def st_return_def)
  then show ?thesis
    using helper_status_ignored [of "[demo_mapping, demo_mapping]" demo_ns_env "[]" _ "[]" 1 "[]" 7 "[]"] by simp
qed


end
