(* ===== verification/Spec_Validator.thy ===== *)
theory Spec_Validator
  imports User_Namespace
begin

text \<open>
  The validation of a specification, \<open>libcontainer/src/validator.rs\<close> with \<open>container/mount_validation.rs\<close>,
  and the function \<open>sysctl\<close> of \<open>process/init/process.rs\<close>, which writes the kernel parameters that the validation
  has let through.
\<close>

section \<open>Errors\<close>

text \<open>\<open>InvalidNetNsPath\<close> carries the error number, where the code carries its text.\<close>

datatype invalid_spec =
    UnsupportedVersion
  | DuplicateNamespace namespace_type
  | AppArmorNotEnabled
  | IoPriority
  | SchedulerErr string
  | ConsoleSocketRequired
  | InvalidConsoleSocket
  | MountIdmapNonBind
  | MountIdmapMissingMappings
  | MountIdmapUnsupported
  | MountIdmapRootless
  | InvalidNetNsPath nat
  | HostnameWithoutUTS
  | DomainnameWithoutUTS
  | UserMappingsWithoutNamespace
  | SysEntriesWithoutMntNamespace
  | SysctlNotAllowedInHostIpc string
  | SysctlNotAllowedInHostNet string
  | SysctlConflictsWithOci string string
  | SysctlNotAllowedInHostUser string
  | SysctlNotInSeparateNamespace string
  | InvalidIntelRdtClosId
  | TimeNamespace
  | TimeOffsetsWithPath
  | NetDevicesNoNetNamespace
  | NetDevicesRootlessNotSupported
  | NetDevicesInvalidDeviceName string
  | NoUserNamespace
  | SpecIO os_error

section \<open>Namespaces\<close>

fun check_distinct :: "namespace_type set \<Rightarrow> linux_namespace list \<Rightarrow> (invalid_spec, unit) outcome" where
  "check_distinct seen [] = Ok ()"
| "check_distinct seen (ns # nss) =
     (if ns_typ ns \<in> seen then Err (DuplicateNamespace (ns_typ ns)) else check_distinct (insert (ns_typ ns) seen) nss)"

definition validate_namespace_types :: "oci_spec \<Rightarrow> (invalid_spec, unit) outcome" where
  "validate_namespace_types spec = check_distinct {} (namespaces_of spec)"

definition validate_spec_for_uts_namespace :: "oci_spec \<Rightarrow> (invalid_spec, unit) outcome" where
  "validate_spec_for_uts_namespace spec =
     (if \<not> has_namespace NsUts spec then
        if spec_hostname spec \<noteq> None then Err HostnameWithoutUTS
        else if spec_domainname spec \<noteq> None then Err DomainnameWithoutUTS
        else Ok ()
      else Ok ())"

text \<open>\<open>linux().is_some_and(|l| f(l).is_some_and(|m| !m.is_empty()))\<close>.\<close>

definition non_empty_of :: "(spec_linux \<Rightarrow> 'a list option) \<Rightarrow> oci_spec \<Rightarrow> bool" where
  "non_empty_of f spec \<longleftrightarrow> (case Option.bind (spec_linux spec) f of Some l \<Rightarrow> l \<noteq> [] | None \<Rightarrow> False)"

definition validate_spec_for_mnt_namespace :: "oci_spec \<Rightarrow> (invalid_spec, unit) outcome" where
  "validate_spec_for_mnt_namespace spec =
     (if \<not> has_namespace NsMount spec \<and> (non_empty_of lin_masked_paths spec \<or> non_empty_of lin_readonly_paths spec)
      then Err SysEntriesWithoutMntNamespace
      else Ok ())"

definition validate_spec_for_new_user_ns :: "('w, 'z) lc_env_scheme \<Rightarrow> oci_spec \<Rightarrow> bool \<Rightarrow> 'w \<Rightarrow> (invalid_spec, unit) outcome" where
  "validate_spec_for_new_user_ns env spec is_rootless w =
     (if \<not> has_namespace NsUser spec \<and> (non_empty_of lin_uid_mappings spec \<or> non_empty_of lin_gid_mappings spec)
      then Err UserMappingsWithoutNamespace
      else
        bind_outcome (map_err SpecIO (is_in_new_userns env w)) (\<lambda>in_user_ns.
        if is_rootless \<and> \<not> in_user_ns \<and> \<not> has_namespace NsUser spec then Err NoUserNamespace else Ok ()))"

definition validate_spec_for_time_namespace :: "oci_spec \<Rightarrow> (invalid_spec, unit) outcome" where
  "validate_spec_for_time_namespace spec =
     (case spec_linux spec of
        Some linux \<Rightarrow>
          if lin_time_offsets linux \<noteq> None then
            bind_outcome (ok_or TimeNamespace (Option.bind (lin_namespaces linux) (find (\<lambda>ns. ns_typ ns = NsTime)))) (\<lambda>time_ns.
            if ns_path time_ns \<noteq> None then Err TimeOffsetsWithPath else Ok ())
          else Ok ()
      | None \<Rightarrow> Ok ())"

section \<open>Kernel parameters\<close>

definition valid_ipc_sysctls :: "string list" where
  "valid_ipc_sysctls =
     [''kernel.msgmax'', ''kernel.msgmnb'', ''kernel.msgmni'', ''kernel.sem'', ''kernel.shmall'', ''kernel.shmmax'',
      ''kernel.shmmni'', ''kernel.shm_rmid_forced'']"

definition is_host_net_ns :: "('w, 'z) lc_env_scheme \<Rightarrow> string \<Rightarrow> 'w \<Rightarrow> (nat, bool) outcome" where
  "is_host_net_ns env p w =
     bind_outcome (stat_ids env ''/proc/self/ns/net'' w) (\<lambda>host.
     bind_outcome (stat_ids env p w) (\<lambda>target.
     Ok (host = target)))"

definition compute_host_net :: "('w, 'z) lc_env_scheme \<Rightarrow> linux_namespace list option \<Rightarrow> 'w \<Rightarrow> (invalid_spec, bool) outcome" where
  "compute_host_net env namespaces w =
     (case Option.bind namespaces (find (\<lambda>ns. ns_typ ns = NsNetwork)) of
        None \<Rightarrow> Ok True
      | Some ns \<Rightarrow>
          (case ns_path ns of
             None \<Rightarrow> Ok False
           | Some p \<Rightarrow> if p = [] then Ok False else map_err InvalidNetNsPath (is_host_net_ns env p w)))"

text \<open>The loop over the keys, with the cached answer for the network namespace.\<close>

fun check_sysctls :: "('w, 'z) lc_env_scheme \<Rightarrow> spec_linux \<Rightarrow> 'w \<Rightarrow> bool option \<Rightarrow> string list \<Rightarrow> (invalid_spec, unit) outcome" where
  "check_sysctls env linux w cache [] = Ok ()"
| "check_sysctls env linux w cache (key # keys) =
     (let has = (\<lambda>t. case lin_namespaces linux of Some ns \<Rightarrow> list_ex (\<lambda>n. ns_typ n = t) ns | None \<Rightarrow> False);
          s = replace_char (CHR ''/'') (CHR ''.'') key
      in
      if s \<in> set valid_ipc_sysctls \<or> prefix ''fs.mqueue.'' s then
        if \<not> has NsIpc then Err (SysctlNotAllowedInHostIpc s) else check_sysctls env linux w cache keys
      else if prefix ''net.'' s then
        bind_outcome (case cache of Some b \<Rightarrow> Ok b | None \<Rightarrow> compute_host_net env (lin_namespaces linux) w) (\<lambda>is_host_net.
        if is_host_net then Err (SysctlNotAllowedInHostNet s) else check_sysctls env linux w (Some is_host_net) keys)
      else if has NsUts \<and> s = ''kernel.domainname'' then check_sysctls env linux w cache keys
      else if has NsUts \<and> s = ''kernel.hostname'' then Err (SysctlConflictsWithOci s ''hostname'')
      else if prefix ''user.'' s then
        if \<not> has NsUser then Err (SysctlNotAllowedInHostUser s) else check_sysctls env linux w cache keys
      else Err (SysctlNotInSeparateNamespace s))"

definition validate_spec_for_sysctl :: "('w, 'z) lc_env_scheme \<Rightarrow> oci_spec \<Rightarrow> 'w \<Rightarrow> (invalid_spec, unit) outcome" where
  "validate_spec_for_sysctl env spec w =
     (case spec_linux spec of
        Some linux \<Rightarrow> (case lin_sysctl linux of Some sysctls \<Rightarrow> check_sysctls env linux w None (map fst sysctls) | None \<Rightarrow> Ok ())
      | None \<Rightarrow> Ok ())"

section \<open>Scheduling and resource control\<close>

definition validate_spec_for_scheduler :: "oci_spec \<Rightarrow> (invalid_spec, unit) outcome" where
  "validate_spec_for_scheduler spec =
     (case Option.bind (spec_process spec) proc_scheduler of
        None \<Rightarrow> Ok ()
      | Some sch \<Rightarrow>
          bind_outcome
            (case sch_nice sch of
               Some nice \<Rightarrow>
                 if sch_policy sch \<in> {SchedOther, SchedBatch} \<and> \<not> (- 20 \<le> nice \<and> nice \<le> 19)
                 then Err (SchedulerErr (''invalid scheduler.nice: '' @ [CHR 0x27] @ int_to_string nice @ [CHR 0x27] @ '', must be within -20 to 19''))
                 else Ok ()
             | None \<Rightarrow> Ok ()) (\<lambda>_.
          bind_outcome
            (case sch_priority sch of
               Some priority \<Rightarrow>
                 if priority \<noteq> 0 \<and> sch_policy sch \<noteq> SchedFifo \<and> sch_policy sch \<noteq> SchedRr
                 then Err (SchedulerErr ''scheduler.priority can only be specified for SchedFIFO or SchedRR policy'')
                 else Ok ()
             | None \<Rightarrow> Ok ()) (\<lambda>_.
          if sch_policy sch \<noteq> SchedDeadline \<and>
             (sch_runtime sch \<notin> {None, Some 0} \<or> sch_deadline sch \<notin> {None, Some 0} \<or> sch_period sch \<notin> {None, Some 0})
          then Err (SchedulerErr ''scheduler runtime/deadline/period can only be specified for SchedDeadline policy'')
          else Ok ())))"

definition validate_spec_for_io_priority :: "oci_spec \<Rightarrow> (invalid_spec, unit) outcome" where
  "validate_spec_for_io_priority spec =
     (case Option.bind (spec_process spec) proc_io_priority of
        Some (io_class, priority) \<Rightarrow> if \<not> (0 \<le> priority \<and> priority \<le> 7) then Err IoPriority else Ok ()
      | None \<Rightarrow> Ok ())"

definition validate_spec_for_intel_rdt :: "oci_spec \<Rightarrow> (invalid_spec, unit) outcome" where
  "validate_spec_for_intel_rdt spec =
     (case Option.bind (spec_linux spec) lin_clos_id of
        Some clos_id \<Rightarrow>
          if clos_id = ''.'' \<or> clos_id = ''..'' \<or> (1 < length clos_id \<and> CHR ''/'' \<in> set clos_id) then Err InvalidIntelRdtClosId
          else Ok ()
      | None \<Rightarrow> Ok ())"

section \<open>Mounts and network devices\<close>

text \<open>\<open>validate_spec_for_mount_options\<close> only warns about relative destinations.\<close>

definition validate_spec_for_mount_options :: "spec_mount list \<Rightarrow> (invalid_spec, unit) outcome" where
  "validate_spec_for_mount_options mounts = Ok ()"

definition container_userns_has_mappings :: "spec_linux option \<Rightarrow> bool" where
  "container_userns_has_mappings linux =
     (case linux of
        None \<Rightarrow> False
      | Some l \<Rightarrow>
          (case lin_namespaces l of
             None \<Rightarrow> False
           | Some nss \<Rightarrow>
               (case find (\<lambda>ns. ns_typ ns = NsUser) nss of
                  None \<Rightarrow> False
                | Some ns \<Rightarrow>
                    if ns_path ns \<noteq> None then True
                    else lin_uid_mappings l \<notin> {None, Some []} \<and> lin_gid_mappings l \<notin> {None, Some []})))"

definition validate_mount_mappings :: "spec_mount \<Rightarrow> (invalid_spec, bool) outcome" where
  "validate_mount_mappings m =
     (case (mnt_uid_mappings m, mnt_gid_mappings m) of
        (Some (_ # _), Some (_ # _)) \<Rightarrow> Ok True
      | (None, None) \<Rightarrow> Ok False
      | _ \<Rightarrow> Err MountIdmapMissingMappings)"

fun validate_idmapped_mounts :: "spec_mount list \<Rightarrow> spec_linux option \<Rightarrow> bool \<Rightarrow> (invalid_spec, unit) outcome" where
  "validate_idmapped_mounts [] linux is_rootless = Ok ()"
| "validate_idmapped_mounts (m # ms) linux is_rootless =
     (let has_any_mount_mappings = mnt_uid_mappings m \<noteq> None \<or> mnt_gid_mappings m \<noteq> None;
          options = (case mnt_options m of Some os \<Rightarrow> os | None \<Rightarrow> []);
          has_idmap_option = list_ex (\<lambda>s. s = ''idmap'' \<or> s = ''ridmap'') options;
          is_bind = mnt_typ m = Some ''bind'' \<or> list_ex (\<lambda>s. s = ''bind'' \<or> s = ''rbind'') options
      in
      if \<not> has_idmap_option \<and> \<not> has_any_mount_mappings then validate_idmapped_mounts ms linux is_rootless
      else if \<not> is_bind then Err MountIdmapNonBind
      else if is_rootless then Err MountIdmapRootless
      else
        bind_outcome (validate_mount_mappings m) (\<lambda>has_mount_mappings.
        if \<not> has_mount_mappings \<and> \<not> container_userns_has_mappings linux then Err MountIdmapMissingMappings
        else Err MountIdmapUnsupported))"

definition IFNAMSIZ :: nat where
  "IFNAMSIZ = 16"

definition dev_valid_name :: "string \<Rightarrow> bool" where
  "dev_valid_name name \<longleftrightarrow>
     \<not> (name = [] \<or> IFNAMSIZ \<le> length name) \<and>
     \<not> (name = ''.'' \<or> name = ''..'') \<and>
     list_all (\<lambda>c. \<not> (c = ''/'' \<or> c = '':'' \<or> c \<in> set ws_chars)) (str_chars name)"

definition validate_spec_for_net_devices :: "oci_spec \<Rightarrow> bool \<Rightarrow> (invalid_spec, unit) outcome" where
  "validate_spec_for_net_devices spec is_rootless =
     (case Option.bind (spec_linux spec) lin_net_devices of
        None \<Rightarrow> Ok ()
      | Some devices \<Rightarrow>
          if devices = [] then Ok ()
          else if \<not> has_namespace NsNetwork spec then Err NetDevicesNoNetNamespace
          else if is_rootless then Err NetDevicesRootlessNotSupported
          else
            check_all (\<lambda>(name, dev).
              if \<not> dev_valid_name name then Err (NetDevicesInvalidDeviceName name)
              else
                (case dev of
                   Some dev_name \<Rightarrow> if \<not> dev_valid_name dev_name then Err (NetDevicesInvalidDeviceName dev_name) else Ok ()
                 | None \<Rightarrow> Ok ())) devices)"

section \<open>The validator\<close>

definition validate_spec :: "('w, 'z) lc_env_scheme \<Rightarrow> oci_spec \<Rightarrow> bool \<Rightarrow> 'w \<Rightarrow> (invalid_spec, unit) outcome" where
  "validate_spec env spec is_rootless w =
     bind_outcome (validate_namespace_types spec) (\<lambda>_.
     bind_outcome (validate_spec_for_uts_namespace spec) (\<lambda>_.
     bind_outcome (validate_spec_for_mnt_namespace spec) (\<lambda>_.
     bind_outcome (validate_spec_for_sysctl env spec w) (\<lambda>_.
     bind_outcome (validate_spec_for_scheduler spec) (\<lambda>_.
     bind_outcome (validate_spec_for_io_priority spec) (\<lambda>_.
     bind_outcome (validate_spec_for_intel_rdt spec) (\<lambda>_.
     bind_outcome (validate_spec_for_time_namespace spec) (\<lambda>_.
     bind_outcome
       (case spec_mounts spec of
          Some mounts \<Rightarrow>
            bind_outcome (validate_spec_for_mount_options mounts) (\<lambda>_.
            validate_idmapped_mounts mounts (spec_linux spec) is_rootless)
        | None \<Rightarrow> Ok ()) (\<lambda>_.
     bind_outcome (validate_spec_for_net_devices spec is_rootless) (\<lambda>_.
     validate_spec_for_new_user_ns env spec is_rootless w))))))))))"

section \<open>Writing the kernel parameters\<close>

text \<open>The handle of the crate \<open>pathrs\<close> on procfs: opening a path below its root for writing, and writing to what was opened.\<close>

record ('w, 'h) procfs_env =
  procfs_build :: "('w, string, unit) st"
  procfs_open :: "path \<Rightarrow> ('w, string, 'h) st"
  handle_write :: "'h \<Rightarrow> string \<Rightarrow> ('w, os_error, unit) st"

datatype sysctl_error = Pathrs string | SysctlWrite os_error

definition sysctl_path :: "string \<Rightarrow> path" where
  "sysctl_path kernel_param = path_join (parse_path ''sys'') (parse_path (replace_char (CHR ''.'') (CHR ''/'') kernel_param))"

definition sysctl :: "('w, 'h) procfs_env \<Rightarrow> (string \<times> string) list \<Rightarrow> ('w, sysctl_error, unit) st" where
  "sysctl env kernel_params =
     st_bind (st_map_err Pathrs (procfs_build env)) (\<lambda>_.
     st_for (\<lambda>(kernel_param, v).
       st_bind (st_map_err Pathrs (procfs_open env (sysctl_path kernel_param))) (\<lambda>f.
       st_map_err SysctlWrite (handle_write env f v))) kernel_params)"

section \<open>Accepted kernel parameters\<close>

definition below :: "path \<Rightarrow> path \<Rightarrow> bool" where
  "below q p \<longleftrightarrow> (\<exists>names. p = q @ map Normal names)"

text \<open>The network namespace of the container is not the one the runtime runs in.\<close>

definition private_net :: "('w, 'z) lc_env_scheme \<Rightarrow> oci_spec \<Rightarrow> 'w \<Rightarrow> bool" where
  "private_net env spec w \<longleftrightarrow>
     (\<exists>ns \<in> set (namespaces_of spec). ns_typ ns = NsNetwork \<and>
        (case ns_path ns of
           None \<Rightarrow> True
         | Some p \<Rightarrow> p = [] \<or> stat_ids env p w \<noteq> stat_ids env ''/proc/self/ns/net'' w))"

definition ipc_names :: "string list" where
  "ipc_names = [''msgmax'', ''msgmnb'', ''msgmni'', ''sem'', ''shmall'', ''shmmax'', ''shmmni'', ''shm_rmid_forced'']"

definition sysctl_allowed :: "('w, 'z) lc_env_scheme \<Rightarrow> oci_spec \<Rightarrow> 'w \<Rightarrow> path \<Rightarrow> bool" where
  "sysctl_allowed env spec w p \<longleftrightarrow>
     (has_namespace NsIpc spec \<and>
        (p \<in> (\<lambda>n. [Normal ''sys'', Normal ''kernel'', Normal n]) ` set ipc_names \<or>
         below [Normal ''sys'', Normal ''fs'', Normal ''mqueue''] p)) \<or>
     (private_net env spec w \<and> below [Normal ''sys'', Normal ''net''] p) \<or>
     (has_namespace NsUts spec \<and> p = [Normal ''sys'', Normal ''kernel'', Normal ''domainname'']) \<or>
     (has_namespace NsUser spec \<and> below [Normal ''sys'', Normal ''user''] p)"

lemma replace_replace: "replace_char a b (replace_char b a s) = replace_char a b s"
  by (simp add: replace_char_def)

lemma dot_replaced: "CHR ''.'' \<notin> set (replace_char (CHR ''.'') (CHR ''/'') s)"
  by (auto simp: replace_char_def split: if_splits)

lemma replace_char_append: "replace_char a b (s @ t) = replace_char a b s @ replace_char a b t"
  by (simp add: replace_char_def)

lemma split_on_parts_subset: "p \<in> set (split_on c s) \<Longrightarrow> set p \<subseteq> set s"
proof (induction s arbitrary: p)
  case (Cons x xs)
  obtain q qs where "split_on c xs = q # qs"
    by (cases "split_on c xs") auto
  then show ?case
    using Cons.prems Cons.IH [of q] Cons.IH [of p] by (auto split: if_splits)
qed simp

lemma parse_rest_no_dot:
  assumes "\<forall>p \<in> set ps. CHR ''.'' \<notin> set p"
  shows "\<exists>names. parse_rest ps = map Normal names"
  using assms by (intro exI [of _ "filter (\<lambda>s. s \<noteq> [] \<and> s \<noteq> ''.'') ps"]) (auto simp: parse_rest_def parse_component_def)

text \<open>A key that starts with \<open>name.\<close> is written below the directory \<open>sys/name\<close>: no part of it can lead out.\<close>

lemma sysctl_path_below:
  assumes "replace_char (CHR ''/'') (CHR ''.'') key = name @ ''.'' @ rest" and "name \<noteq> []" and "CHR ''.'' \<notin> set name" and "CHR ''/'' \<notin> set name"
  shows "\<exists>names. sysctl_path key = Normal ''sys'' # Normal name #
    parse_rest (split_on (CHR ''/'') (replace_char (CHR ''.'') (CHR ''/'') rest)) \<and>
    parse_rest (split_on (CHR ''/'') (replace_char (CHR ''.'') (CHR ''/'') rest)) = map Normal names"
proof -
  let ?r = "replace_char (CHR ''.'') (CHR ''/'') rest"
  have n: "replace_char (CHR ''.'') (CHR ''/'') name = name"
    using assms(3) by (auto simp: replace_char_def intro: map_idI)
  have "replace_char (CHR ''.'') (CHR ''/'') key = name @ CHR ''/'' # ?r"
    using arg_cong [OF assms(1), of "replace_char (CHR ''.'') (CHR ''/'')"]
    by (simp add: replace_replace replace_char_append n) (simp add: replace_char_def)
  moreover obtain c cs where c: "name = c # cs" "c \<noteq> CHR ''/''" "name \<noteq> ''.''" "name \<noteq> ''..''"
    using assms by (cases name) auto
  moreover have "split_on (CHR ''/'') (name @ CHR ''/'' # ?r) = name # split_on (CHR ''/'') ?r"
    using assms(4) by (rule split_on_append)
  ultimately have p: "parse_path (replace_char (CHR ''.'') (CHR ''/'') key) = Normal name # parse_rest (split_on (CHR ''/'') ?r)"
    by (simp add: parse_path_def parse_rest_def parse_component_def)
  have "parse_path ''sys'' = [Normal ''sys'']"
    by (simp add: parse_path_def parse_rest_def parse_component_def)
  then have "sysctl_path key = Normal ''sys'' # Normal name # parse_rest (split_on (CHR ''/'') ?r)"
    by (simp add: sysctl_path_def p path_join_def is_absolute_def)
  moreover have "\<exists>names. parse_rest (split_on (CHR ''/'') ?r) = map Normal names"
    using dot_replaced split_on_parts_subset by (intro parse_rest_no_dot) blast
  ultimately show ?thesis
    by blast
qed

lemma valid_ipc_sysctls_names: "valid_ipc_sysctls = map (\<lambda>n. ''kernel'' @ ''.'' @ n) ipc_names"
  by (simp add: valid_ipc_sysctls_def ipc_names_def)

lemma ipc_names_plain: "n \<in> set ipc_names \<Longrightarrow> n \<noteq> [] \<and> CHR ''.'' \<notin> set n \<and> CHR ''/'' \<notin> set n"
proof -
  have "list_all (\<lambda>n. n \<noteq> [] \<and> CHR ''.'' \<notin> set n \<and> CHR ''/'' \<notin> set n) ipc_names"
    by (simp add: ipc_names_def)
  then show "n \<in> set ipc_names \<Longrightarrow> n \<noteq> [] \<and> CHR ''.'' \<notin> set n \<and> CHR ''/'' \<notin> set n"
    by (simp add: list_all_iff)
qed

lemma sysctl_path_two:
  assumes "replace_char (CHR ''/'') (CHR ''.'') key = name @ ''.'' @ n" and "name \<noteq> []" and "CHR ''.'' \<notin> set name" and "CHR ''/'' \<notin> set name"
    and n: "n \<noteq> []" "CHR ''.'' \<notin> set n" "CHR ''/'' \<notin> set n"
  shows "sysctl_path key = [Normal ''sys'', Normal name, Normal n]"
proof -
  have "replace_char (CHR ''.'') (CHR ''/'') n = n"
    using n(2) by (auto simp: replace_char_def intro: map_idI)
  moreover have "n \<noteq> ''.''" "n \<noteq> ''..''"
    using n(2) by auto
  ultimately have "parse_rest (split_on (CHR ''/'') (replace_char (CHR ''.'') (CHR ''/'') n)) = [Normal n]"
    using n by (simp add: split_on_no_sep parse_rest_def parse_component_def)
  then show ?thesis
    using sysctl_path_below [OF assms(1-4)] by simp
qed

lemma sysctl_path_ipc:
  assumes "replace_char (CHR ''/'') (CHR ''.'') key \<in> set valid_ipc_sysctls"
  shows "sysctl_path key \<in> (\<lambda>n. [Normal ''sys'', Normal ''kernel'', Normal n]) ` set ipc_names"
proof -
  obtain n where n: "replace_char (CHR ''/'') (CHR ''.'') key = ''kernel'' @ ''.'' @ n" "n \<in> set ipc_names"
    using assms unfolding valid_ipc_sysctls_names set_map by blast
  have "sysctl_path key = [Normal ''sys'', Normal ''kernel'', Normal n]"
    using ipc_names_plain [OF n(2)] by (intro sysctl_path_two [OF n(1)]) simp_all
  then show ?thesis
    using n(2) by blast
qed

lemma sysctl_path_domainname:
  assumes "replace_char (CHR ''/'') (CHR ''.'') key = ''kernel.domainname''"
  shows "sysctl_path key = [Normal ''sys'', Normal ''kernel'', Normal ''domainname'']"
  using assms by (intro sysctl_path_two) simp_all

lemma sysctl_path_prefix:
  assumes "prefix (name @ ''.'') (replace_char (CHR ''/'') (CHR ''.'') key)" and "name \<noteq> []" and "CHR ''.'' \<notin> set name" and "CHR ''/'' \<notin> set name"
  shows "below [Normal ''sys'', Normal name] (sysctl_path key)"
proof -
  obtain rest where "replace_char (CHR ''/'') (CHR ''.'') key = name @ ''.'' @ rest"
    using assms(1) by (auto simp: prefix_def)
  from sysctl_path_below [OF this assms(2-4)] show ?thesis
    unfolding below_def by auto
qed

lemma sysctl_path_mqueue:
  assumes "prefix ''fs.mqueue.'' (replace_char (CHR ''/'') (CHR ''.'') key)"
  shows "below [Normal ''sys'', Normal ''fs'', Normal ''mqueue''] (sysctl_path key)"
proof -
  obtain rest where r: "replace_char (CHR ''/'') (CHR ''.'') key = ''fs'' @ ''.'' @ ''mqueue.'' @ rest"
    using assms by (auto simp: prefix_def)
  let ?r = "replace_char (CHR ''.'') (CHR ''/'') (''mqueue.'' @ rest)"
  have "?r = ''mqueue'' @ CHR ''/'' # replace_char (CHR ''.'') (CHR ''/'') rest"
    by (simp add: replace_char_def)
  then have "split_on (CHR ''/'') ?r = ''mqueue'' # split_on (CHR ''/'') (replace_char (CHR ''.'') (CHR ''/'') rest)"
    using split_on_append [of "CHR ''/''" "''mqueue''"] by simp
  then have "parse_rest (split_on (CHR ''/'') ?r) =
      Normal ''mqueue'' # parse_rest (split_on (CHR ''/'') (replace_char (CHR ''.'') (CHR ''/'') rest))"
    by (simp add: parse_rest_def parse_component_def)
  then show ?thesis
    using sysctl_path_below [OF r] unfolding below_def by (auto simp: Cons_eq_map_conv)
qed

lemma compute_host_net_private:
  assumes "compute_host_net env (lin_namespaces linux) w = Ok False" and "spec_linux spec = Some linux"
  shows "private_net env spec w"
proof -
  obtain nss ns where ns: "lin_namespaces linux = Some nss" "find (\<lambda>ns. ns_typ ns = NsNetwork) nss = Some ns"
    using assms(1) by (cases "lin_namespaces linux"; cases "Option.bind (lin_namespaces linux) (find (\<lambda>ns. ns_typ ns = NsNetwork))") (simp_all add: compute_host_net_def)
  have "ns \<in> set (namespaces_of spec)" "ns_typ ns = NsNetwork"
    using find_SomeD [OF ns(2)] ns(1) assms(2) by (auto simp: namespaces_of_def)
  moreover have "case ns_path ns of None \<Rightarrow> True | Some p \<Rightarrow> p = [] \<or> stat_ids env p w \<noteq> stat_ids env ''/proc/self/ns/net'' w"
    using assms(1) ns by (auto simp: compute_host_net_def is_host_net_ns_def outcome_simps split: option.splits if_splits)
  ultimately show ?thesis
    unfolding private_net_def by blast
qed

lemma has_linux:
  assumes "spec_linux spec = Some linux"
  shows "(case lin_namespaces linux of Some ns \<Rightarrow> list_ex (\<lambda>n. ns_typ n = t) ns | None \<Rightarrow> False) \<longleftrightarrow> has_namespace t spec"
  using assms by (auto simp: has_namespace_def namespaces_of_def split: option.splits)

lemma check_sysctls_step:
  assumes "check_sysctls env linux w cache (key # keys) = Ok ()" and l: "spec_linux spec = Some linux"
    and c: "cache = Some False \<longrightarrow> private_net env spec w"
  shows "sysctl_allowed env spec w (sysctl_path key) \<and>
    (\<exists>cache'. (cache' = Some False \<longrightarrow> private_net env spec w) \<and> check_sysctls env linux w cache' keys = Ok ())"
proof -
  let ?s = "replace_char (CHR ''/'') (CHR ''.'') key"
  note step = assms(1) [unfolded check_sysctls.simps Let_def has_linux [OF l]]
  consider (ipc) "?s \<in> set valid_ipc_sysctls \<or> prefix ''fs.mqueue.'' ?s"
    | (net) "\<not> (?s \<in> set valid_ipc_sysctls \<or> prefix ''fs.mqueue.'' ?s)" "prefix ''net.'' ?s"
    | (other) "\<not> (?s \<in> set valid_ipc_sysctls \<or> prefix ''fs.mqueue.'' ?s)" "\<not> prefix ''net.'' ?s"
    by blast
  then show ?thesis
  proof cases
    case ipc
    then have "has_namespace NsIpc spec" "check_sysctls env linux w cache keys = Ok ()"
      using step by (simp_all split: if_splits)
    then show ?thesis
      using ipc c sysctl_path_ipc sysctl_path_mqueue unfolding sysctl_allowed_def by blast
  next
    case net
    obtain b where b: "(case cache of Some b \<Rightarrow> Ok b | None \<Rightarrow> compute_host_net env (lin_namespaces linux) w) = Ok b"
        "\<not> b" "check_sysctls env linux w (Some b) keys = Ok ()"
      using step net by (cases "case cache of Some b \<Rightarrow> Ok b | None \<Rightarrow> compute_host_net env (lin_namespaces linux) w") (simp_all split: if_splits)
    then have "private_net env spec w"
      using c compute_host_net_private [OF _ l] by (cases cache) auto
    moreover have "below [Normal ''sys'', Normal ''net''] (sysctl_path key)"
      using net sysctl_path_prefix [of "''net''" key] by simp
    ultimately show ?thesis
      using b(3) unfolding sysctl_allowed_def by blast
  next
    case other
    show ?thesis
    proof (cases "has_namespace NsUts spec \<and> ?s = ''kernel.domainname''")
      case True
      then show ?thesis
        using step other c sysctl_path_domainname [of key] unfolding sysctl_allowed_def by auto
    next
      case False
      then have "prefix ''user.'' ?s" "has_namespace NsUser spec" "check_sysctls env linux w cache keys = Ok ()"
        using step other by (simp_all split: if_splits)
      then show ?thesis
        using c sysctl_path_prefix [of "''user''" key] unfolding sysctl_allowed_def by auto
    qed
  qed
qed

lemma check_sysctls_allowed:
  assumes "check_sysctls env linux w cache keys = Ok ()" and "spec_linux spec = Some linux"
    and "cache = Some False \<longrightarrow> private_net env spec w" and "key \<in> set keys"
  shows "sysctl_allowed env spec w (sysctl_path key)"
  using assms(1,3,4)
proof (induction keys arbitrary: cache)
  case (Cons k keys)
  then show ?case
    using check_sysctls_step [OF Cons.prems(1) assms(2) Cons.prems(2)] by auto
qed simp

lemma validate_spec_parts:
  assumes "validate_spec env spec rootless w = Ok ()"
  shows "validate_namespace_types spec = Ok ()" and "validate_spec_for_sysctl env spec w = Ok ()"
    and "\<forall>mounts. spec_mounts spec = Some mounts \<longrightarrow> validate_idmapped_mounts mounts (spec_linux spec) rootless = Ok ()"
    and "validate_spec_for_new_user_ns env spec rootless w = Ok ()"
  using assms by (auto simp: validate_spec_def validate_spec_for_mount_options_def outcome_simps)

text \<open>
  \<open>touched\<close> is the set of procfs files written so far and \<open>handle_path\<close> the file that a handle stands for:
  opening writes nothing, and writing through a handle writes only its file.
\<close>

definition procfs_law :: "('w, 'h) procfs_env \<Rightarrow> ('w \<Rightarrow> path set) \<Rightarrow> ('h \<Rightarrow> path) \<Rightarrow> bool" where
  "procfs_law env touched handle_path \<longleftrightarrow>
     (\<forall>w. touched (snd (procfs_build env w)) = touched w) \<and>
     (\<forall>p w. touched (snd (procfs_open env p w)) = touched w) \<and>
     (\<forall>p w h w'. procfs_open env p w = (Ok h, w') \<longrightarrow> handle_path h = p) \<and>
     (\<forall>h v w. touched (snd (handle_write env h v w)) \<subseteq> insert (handle_path h) (touched w))"

lemma sysctl_one:
  assumes "procfs_law env touched handle_path"
  shows "touched (snd (st_bind (st_map_err Pathrs (procfs_open env p)) (\<lambda>f. st_map_err SysctlWrite (handle_write env f v)) w)) \<subseteq> insert p (touched w)"
proof -
  obtain r w1 where o: "procfs_open env p w = (r, w1)"
    by (cases "procfs_open env p w")
  then have t: "touched w1 = touched w"
    using assms unfolding procfs_law_def by (metis snd_conv)
  show ?thesis
  proof (cases r)
    case (Ok h)
    then have "handle_path h = p"
      using assms o unfolding procfs_law_def by blast
    moreover have "touched (snd (handle_write env h v w1)) \<subseteq> insert (handle_path h) (touched w1)"
      using assms unfolding procfs_law_def by blast
    ultimately show ?thesis
      using o Ok t by (auto simp: st_bind_def st_map_err_def split: prod.splits)
  qed (use o t in \<open>auto simp: st_bind_def st_map_err_def\<close>)
qed

lemma sysctl_loop:
  assumes "procfs_law env touched handle_path"
  shows "touched (snd (st_for (\<lambda>(k, v). st_bind (st_map_err Pathrs (procfs_open env (sysctl_path k)))
      (\<lambda>f. st_map_err SysctlWrite (handle_write env f v))) ps w)) \<subseteq> touched w \<union> sysctl_path ` fst ` set ps"
    (is "touched (snd (st_for ?f ps w)) \<subseteq> _")
proof (induction ps arbitrary: w)
  case Nil
  then show ?case
    by (simp add: st_return_def)
next
  case (Cons kv ps)
  obtain r w1 where r: "?f kv w = (r, w1)"
    by (cases "?f kv w")
  have t: "touched w1 \<subseteq> insert (sysctl_path (fst kv)) (touched w)"
    using sysctl_one [OF assms, of "sysctl_path (fst kv)" "snd kv" w] r by (simp add: case_prod_beta)
  have "snd (st_for ?f (kv # ps) w) = w1 \<or> snd (st_for ?f (kv # ps) w) = snd (st_for ?f ps w1)"
    using r by (cases r) (simp_all add: st_bind_def)
  then show ?case
    using t Cons [of w1] by fastforce
qed

text \<open>
  C15. Once a specification has been accepted, writing its kernel parameters touches only files of the container's
  own namespaces, whatever the keys: with an IPC namespace the eight System V parameters and
  \<open>sys/fs/mqueue\<close>, with a network namespace that is not the runtime's own \<open>sys/net\<close>, with a UTS namespace the
  domain name, with a user namespace \<open>sys/user\<close>. No key reaches anything else by mixing dots, slashes
  and \<open>..\<close>, and this also holds when the loop stops with an error.
\<close>

theorem accepted_sysctls_confined:
  assumes "validate_spec env spec rootless w = Ok ()" and "spec_linux spec = Some linux" and "lin_sysctl linux = Some params"
    and "procfs_law penv touched handle_path" and "p \<in> touched (snd (sysctl penv params v))"
  shows "p \<in> touched v \<or> sysctl_allowed env spec w p"
proof -
  have ok: "check_sysctls env linux w None (map fst params) = Ok ()"
    using validate_spec_parts(2) [OF assms(1)] assms(2,3) by (simp add: validate_spec_for_sysctl_def)
  obtain r v1 where b: "procfs_build penv v = (r, v1)"
    by (cases "procfs_build penv v")
  then have t: "touched v1 = touched v"
    using assms(4) unfolding procfs_law_def by (metis snd_conv)
  have "p \<in> touched v \<union> sysctl_path ` fst ` set params"
    using assms(5) b t sysctl_loop [OF assms(4), of params v1]
    by (cases r) (auto simp: sysctl_def st_bind_def st_map_err_def)
  then show ?thesis
    using check_sysctls_allowed [OF ok assms(2)] by auto
qed

section \<open>Accepted namespaces\<close>

lemma check_distinct_iff: "check_distinct seen nss = Ok () \<longleftrightarrow> distinct (map ns_typ nss) \<and> ns_typ ` set nss \<inter> seen = {}"
  by (induction nss arbitrary: seen) auto

lemma get_clone_flag_inj: "get_clone_flag s = get_clone_flag t \<longleftrightarrow> s = t"
  by (cases s; cases t) simp_all

lemma ORDERED_NAMESPACES_all: "c \<in> set ORDERED_NAMESPACES"
  by (cases c) (simp_all add: ORDERED_NAMESPACES_def)

lemma namespaces_try_from_distinct:
  assumes "distinct (map ns_typ nss)" and "ns \<in> set nss"
  shows "namespaces_try_from (Some nss) (get_clone_flag (ns_typ ns)) = Some ns"
proof (cases "namespaces_try_from (Some nss) (get_clone_flag (ns_typ ns))")
  case None
  then show ?thesis
    using assms(2) unfolding namespaces_try_from_dom by auto
next
  case (Some ns')
  then have "ns_typ ns' = ns_typ ns" "ns' \<in> set nss"
    using namespaces_try_from_flag [OF Some] by (simp_all add: get_clone_flag_inj)
  then show ?thesis
    using assms Some by (metis distinct_map inj_on_def)
qed

text \<open>
  C0. In an accepted specification no namespace is listed twice, and all of them are entered: the entries of
  the specification are exactly the entries to enter, each once.
\<close>

theorem accepted_namespaces_all_entered:
  assumes "validate_spec env spec rootless w = Ok ()"
  shows "distinct (to_enter (namespaces_try_from (Some (namespaces_of spec))) (\<lambda>c. True)) \<and>
    set (to_enter (namespaces_try_from (Some (namespaces_of spec))) (\<lambda>c. True)) = set (namespaces_of spec)"
proof -
  let ?m = "namespaces_try_from (Some (namespaces_of spec))"
  have d: "distinct (map ns_typ (namespaces_of spec))"
    using validate_spec_parts(1) [OF assms] by (simp add: validate_namespace_types_def check_distinct_iff)
  have flags: "map (\<lambda>ns. get_clone_flag (ns_typ ns)) (to_enter ?m (\<lambda>c. True)) = filter (\<lambda>c. ?m c \<noteq> None) ORDERED_NAMESPACES"
    by (simp add: to_enter_flags)
  have "distinct ORDERED_NAMESPACES"
    by (simp add: ORDERED_NAMESPACES_def)
  then have "distinct (map (\<lambda>ns. get_clone_flag (ns_typ ns)) (to_enter ?m (\<lambda>c. True)))"
    unfolding flags by simp
  moreover have "set (to_enter ?m (\<lambda>c. True)) = {ns. \<exists>c. ?m c = Some ns}"
    using ORDERED_NAMESPACES_all by (auto simp: to_enter_def map_filter_def image_iff) (metis option.sel)
  moreover have "{ns. \<exists>c. ?m c = Some ns} = set (namespaces_of spec)"
    using namespaces_try_from_distinct [OF d] namespaces_try_from_flag [of "Some (namespaces_of spec)"] by fastforce
  ultimately show ?thesis
    using distinct_map by blast
qed

text \<open>
  C0. An accepted specification asks for no idmapped mount: no mount has mappings of its own or one of the options
  \<open>idmap\<close> and \<open>ridmap\<close>.
\<close>

theorem accepted_spec_no_idmapped_mount:
  assumes "validate_spec env spec rootless w = Ok ()" and "spec_mounts spec = Some mounts" and "m \<in> set mounts"
  shows "mnt_uid_mappings m = None \<and> mnt_gid_mappings m = None \<and>
    (\<forall>os. mnt_options m = Some os \<longrightarrow> ''idmap'' \<notin> set os \<and> ''ridmap'' \<notin> set os)"
proof -
  have "validate_idmapped_mounts mounts l rootless = Ok () \<Longrightarrow> m \<in> set mounts \<Longrightarrow> ?thesis" for l
  proof (induction mounts)
    case (Cons a ms)
    have no_ok: "bind_outcome r (\<lambda>b. if c b then Err x else Err y) \<noteq> Ok ()" for r :: "(invalid_spec, bool) outcome" and c x y
      by (cases r) simp_all
    have "\<not> list_ex (\<lambda>s. s = ''idmap'' \<or> s = ''ridmap'') (case mnt_options a of Some os \<Rightarrow> os | None \<Rightarrow> [])"
      "mnt_uid_mappings a = None" "mnt_gid_mappings a = None" "validate_idmapped_mounts ms l rootless = Ok ()"
      using Cons.prems(1) no_ok by (auto simp: Let_def split: if_splits)
    then show ?case
      using Cons by (auto simp: list_ex_iff)
  qed simp
  then show ?thesis
    using validate_spec_parts(3) [OF assms(1)] assms(2,3) by blast
qed

section \<open>Concrete runs\<close>

text \<open>A specification with all its namespaces fresh, that sets a parameter of the network with mixed separators.\<close>

definition demo_linux :: spec_linux where
  "demo_linux = demo_uns_linux\<lparr>lin_namespaces := Some (map (\<lambda>t. \<lparr>ns_typ = t, ns_path = None\<rparr>) [NsUser, NsNetwork, NsMount]),
     lin_sysctl := Some [(''net.ipv4/ip_forward'', ''1'')]\<rparr>"

definition demo_spec :: oci_spec where
  "demo_spec = demo_uns_spec\<lparr>spec_linux := Some demo_linux, spec_mounts := Some
     [\<lparr>mnt_destination = ''/tmp'', mnt_typ = Some ''tmpfs'', mnt_source = None, mnt_options = Some [''nosuid''],
       mnt_uid_mappings = None, mnt_gid_mappings = None\<rparr>]\<rparr>"

definition demo_procfs :: "(path set, path) procfs_env" where
  "demo_procfs = \<lparr>procfs_build = st_return (), procfs_open = (\<lambda>p. st_return p), handle_write = (\<lambda>h v w. (Ok (), insert h w))\<rparr>"

lemma demo_procfs_law: "procfs_law demo_procfs (\<lambda>w. w) (\<lambda>h. h)"
  by (simp add: procfs_law_def demo_procfs_def st_return_def)

lemma demo_spec_valid: "validate_spec demo_ns_env demo_spec True [] = Ok ()"
  by code_simp

lemma demo_sysctl_run:
  "sysctl demo_procfs [(''net.ipv4/ip_forward'', ''1'')] {} = (Ok (), {[Normal ''sys'', Normal ''net'', Normal ''ipv4'', Normal ''ip_forward'']})"
proof -
  have "sysctl_path ''net.ipv4/ip_forward'' = [Normal ''sys'', Normal ''net'', Normal ''ipv4'', Normal ''ip_forward'']"
    by code_simp
  then show ?thesis
    by (simp add: sysctl_def demo_procfs_def st_bind_def st_return_def st_map_err_def)
qed

theorem accepted_sysctls_confined_witness:
  "sysctl_allowed demo_ns_env demo_spec [] [Normal ''sys'', Normal ''net'', Normal ''ipv4'', Normal ''ip_forward'']"
  using accepted_sysctls_confined [OF demo_spec_valid _ _ demo_procfs_law, of demo_linux "[(''net.ipv4/ip_forward'', ''1'')]"
      "[Normal ''sys'', Normal ''net'', Normal ''ipv4'', Normal ''ip_forward'']" "{}"] demo_sysctl_run
  by (simp add: demo_spec_def demo_linux_def)

theorem accepted_namespaces_all_entered_witness:
  "set (to_enter (namespaces_try_from (Some (namespaces_of demo_spec))) (\<lambda>c. True)) =
     {\<lparr>ns_typ = NsUser, ns_path = None\<rparr>, \<lparr>ns_typ = NsNetwork, ns_path = None\<rparr>, \<lparr>ns_typ = NsMount, ns_path = None\<rparr>}"
  using accepted_namespaces_all_entered [OF demo_spec_valid] by (simp add: namespaces_of_def demo_spec_def demo_linux_def)

theorem accepted_spec_no_idmapped_mount_witness:
  "''idmap'' \<notin> set [''nosuid'']"
  using accepted_spec_no_idmapped_mount [OF demo_spec_valid, of _
      "\<lparr>mnt_destination = ''/tmp'', mnt_typ = Some ''tmpfs'', mnt_source = None, mnt_options = Some [''nosuid''],
       mnt_uid_mappings = None, mnt_gid_mappings = None\<rparr>"]
  by (simp add: demo_spec_def)

end
