(* ===== verification/Process_Network.thy ===== *)
theory Process_Network
  imports Rust_Prelude
begin

text \<open>
  Processes that communicate over channels, as the runtime uses them to create a container. A program is
  a tree of system calls; a network is a set of processes with the queues of the channels between them and
  the descriptors that are still open. Any process that is not blocked may take the next step.

  The theory proves once what all such networks have in common, if each channel has one sender and one
  receiver: the order in which the processes are scheduled does not matter for the outcome.
\<close>

section \<open>Programs\<close>

text \<open>
  \<open>Return\<close> ends a computation with a result, \<open>Exit\<close> ends the process, which closes its descriptors.
  \<open>Send\<close> fails if the process has closed its end of the channel. \<open>Recv\<close> blocks while the channel
  is empty, and gives \<open>None\<close> once it is empty and no process has its sending end open. \<open>Do\<close> is any other
  system call, answered by the environment. \<open>Fork\<close> starts a process, \<open>Wait\<close> blocks until it has ended.
\<close>

datatype ('c, 'm, 'p, 'a, 'b, 'r) proc =
    Return 'r
  | Exit int
  | Send 'c 'm "bool \<Rightarrow> ('c, 'm, 'p, 'a, 'b, 'r) proc"
  | Recv 'c "'m option \<Rightarrow> ('c, 'm, 'p, 'a, 'b, 'r) proc"
  | Do 'a "'b \<Rightarrow> ('c, 'm, 'p, 'a, 'b, 'r) proc"
  | Close 'c "('c, 'm, 'p, 'a, 'b, 'r) proc"
  | Fork 'p "('c, 'm, 'p, 'a, 'b, 'r) proc"
  | Wait 'p "int \<Rightarrow> ('c, 'm, 'p, 'a, 'b, 'r) proc"

primrec pbind :: "('c, 'm, 'p, 'a, 'b, 'r) proc \<Rightarrow> ('r \<Rightarrow> ('c, 'm, 'p, 'a, 'b, 's) proc) \<Rightarrow> ('c, 'm, 'p, 'a, 'b, 's) proc" where
  "pbind (Return r) f = f r"
| "pbind (Exit i) f = Exit i"
| "pbind (Send c m k) f = Send c m (\<lambda>x. pbind (k x) f)"
| "pbind (Recv c k) f = Recv c (\<lambda>x. pbind (k x) f)"
| "pbind (Do a k) f = Do a (\<lambda>x. pbind (k x) f)"
| "pbind (Close c k) f = Close c (pbind k f)"
| "pbind (Fork p k) f = Fork p (pbind k f)"
| "pbind (Wait p k) f = Wait p (\<lambda>x. pbind (k x) f)"

text \<open>The operator \<open>?\<close> and \<open>map_err\<close>.\<close>

definition ptry :: "('c, 'm, 'p, 'a, 'b, ('e, 'x) outcome) proc \<Rightarrow> ('x \<Rightarrow> ('c, 'm, 'p, 'a, 'b, ('e, 'y) outcome) proc) \<Rightarrow>
    ('c, 'm, 'p, 'a, 'b, ('e, 'y) outcome) proc" where
  "ptry p f = pbind p (\<lambda>r. case r of Ok x \<Rightarrow> f x | Err e \<Rightarrow> Return (Err e) | Panic \<Rightarrow> Return Panic | Diverge \<Rightarrow> Return Diverge)"

definition pmap_err :: "('e \<Rightarrow> 'f) \<Rightarrow> ('c, 'm, 'p, 'a, 'b, ('e, 'x) outcome) proc \<Rightarrow> ('c, 'm, 'p, 'a, 'b, ('f, 'x) outcome) proc" where
  "pmap_err h p = pbind p (\<lambda>r. Return (map_err h r))"

lemma ptry_simps [simp]:
  "ptry (Return (Ok x)) f = f x"
  "ptry (Return (Err e)) f = Return (Err e)"
  "ptry (Return Panic) f = Return Panic"
  "ptry (Return Diverge) f = Return Diverge"
  "ptry (Exit i) f = Exit i"
  "ptry (Send c m k) f = Send c m (\<lambda>x. ptry (k x) f)"
  "ptry (Recv c k') f = Recv c (\<lambda>x. ptry (k' x) f)"
  "ptry (Do a k'') f = Do a (\<lambda>x. ptry (k'' x) f)"
  "ptry (Close c q) f = Close c (ptry q f)"
  "ptry (Fork n q) f = Fork n (ptry q f)"
  "ptry (Wait n w) f = Wait n (\<lambda>x. ptry (w x) f)"
  by (simp_all add: ptry_def)

lemma pmap_err_simps [simp]:
  "pmap_err h (Return r) = Return (map_err h r)"
  "pmap_err h (Exit i) = Exit i"
  "pmap_err h (Send c m k) = Send c m (\<lambda>x. pmap_err h (k x))"
  "pmap_err h (Recv c k') = Recv c (\<lambda>x. pmap_err h (k' x))"
  "pmap_err h (Do a k'') = Do a (\<lambda>x. pmap_err h (k'' x))"
  "pmap_err h (Close c q) = Close c (pmap_err h q)"
  "pmap_err h (Fork n q) = Fork n (pmap_err h q)"
  "pmap_err h (Wait n w) = Wait n (\<lambda>x. pmap_err h (w x))"
  by (simp_all add: pmap_err_def)

lemma pbind_assoc: "pbind (pbind p f) g = pbind p (\<lambda>x. pbind (f x) g)"
  by (induction p) simp_all

lemma pbind_ptry: "pbind (ptry p f) g =
    pbind p (\<lambda>r. case r of Ok x \<Rightarrow> pbind (f x) g | Err e \<Rightarrow> g (Err e) | Panic \<Rightarrow> g Panic | Diverge \<Rightarrow> g Diverge)"
  unfolding ptry_def pbind_assoc by (rule arg_cong [of _ _ "pbind p"]) (auto split: outcome.splits)

section \<open>Networks\<close>

datatype ('c, 'm, 'p, 'a, 'b) event = Sent 'c 'm | Received 'c "'m option" | Did 'a 'b | Forked 'p

text \<open>
  \<open>procs\<close> is the rest of the program of each process that exists, \<open>queue\<close> the messages that are under way,
  \<open>holds\<close> the processes that have the sending end of a channel open, \<open>exited\<close> the exit codes and
  \<open>hist\<close> what each process has done.
\<close>

record ('c, 'm, 'p, 'a, 'b, 'r) net =
  procs :: "'p \<Rightarrow> ('c, 'm, 'p, 'a, 'b, 'r) proc option"
  queue :: "'c \<Rightarrow> 'm list"
  holds :: "'c \<Rightarrow> 'p set"
  exited :: "'p \<Rightarrow> int option"
  hist :: "'p \<Rightarrow> ('c, 'm, 'p, 'a, 'b) event list"

text \<open>What one system call does to the queues and to the open descriptors.\<close>

datatype ('c, 'm) queue_op = Keep | Push 'c 'm | Pop 'c

datatype ('c, 'p) hold_op = Same | Drop 'c | Drop_all | Inherit 'p

record ('c, 'm, 'p, 'a, 'b, 'r) effect =
  next_prog :: "('c, 'm, 'p, 'a, 'b, 'r) proc"
  events :: "('c, 'm, 'p, 'a, 'b) event list"
  queue_op :: "('c, 'm) queue_op"
  hold_op :: "('c, 'p) hold_op"
  exit_op :: "int option"

primrec queue_after :: "('c, 'm) queue_op \<Rightarrow> ('c \<Rightarrow> 'm list) \<Rightarrow> 'c \<Rightarrow> 'm list" where
  "queue_after Keep q = q"
| "queue_after (Push c m) q = q(c := q c @ [m])"
| "queue_after (Pop c) q = q(c := tl (q c))"

primrec holds_after :: "'p \<Rightarrow> ('c, 'p) hold_op \<Rightarrow> ('c \<Rightarrow> 'p set) \<Rightarrow> 'c \<Rightarrow> 'p set" where
  "holds_after p Same h = h"
| "holds_after p (Drop c) h = h(c := h c - {p})"
| "holds_after p Drop_all h = (\<lambda>c. h c - {p})"
| "holds_after p (Inherit n) h = (\<lambda>c. if p \<in> h c then insert n (h c) else h c)"

text \<open>
  The effect of the next system call of the process \<open>p\<close>, \<open>None\<close> if it does not exist, has ended or is blocked. The
  environment \<open>resp\<close> answers a system call, knowing what the process has done so far.
\<close>

definition effect_of :: "('p \<Rightarrow> ('c, 'm, 'p, 'a, 'b) event list \<Rightarrow> 'a \<Rightarrow> 'b) \<Rightarrow> 'p \<Rightarrow>
    ('c, 'm, 'p, 'a, 'b, 'r) net \<Rightarrow> ('c, 'm, 'p, 'a, 'b, 'r) effect option" where
  "effect_of resp p s =
     (case procs s p of
        None \<Rightarrow> None
      | Some (Return r) \<Rightarrow> None
      | Some (Exit i) \<Rightarrow>
          if exited s p = None
          then Some \<lparr>next_prog = Exit i, events = [], queue_op = Keep, hold_op = Drop_all, exit_op = Some i\<rparr>
          else None
      | Some (Send c m k) \<Rightarrow>
          if p \<in> holds s c
          then Some \<lparr>next_prog = k True, events = [Sent c m], queue_op = Push c m, hold_op = Same, exit_op = None\<rparr>
          else Some \<lparr>next_prog = k False, events = [], queue_op = Keep, hold_op = Same, exit_op = None\<rparr>
      | Some (Recv c k) \<Rightarrow>
          (case queue s c of
             m # ms \<Rightarrow> Some \<lparr>next_prog = k (Some m), events = [Received c (Some m)], queue_op = Pop c, hold_op = Same, exit_op = None\<rparr>
           | [] \<Rightarrow>
               if holds s c = {}
               then Some \<lparr>next_prog = k None, events = [Received c None], queue_op = Keep, hold_op = Same, exit_op = None\<rparr>
               else None)
      | Some (Do a k) \<Rightarrow>
          (let b = resp p (hist s p) a in
           Some \<lparr>next_prog = k b, events = [Did a b], queue_op = Keep, hold_op = Same, exit_op = None\<rparr>)
      | Some (Close c k) \<Rightarrow> Some \<lparr>next_prog = k, events = [], queue_op = Keep, hold_op = Drop c, exit_op = None\<rparr>
      | Some (Fork n k) \<Rightarrow>
          if procs s n = None
          then Some \<lparr>next_prog = k, events = [Forked n], queue_op = Keep, hold_op = Inherit n, exit_op = None\<rparr>
          else None
      | Some (Wait n k) \<Rightarrow>
          (case exited s n of
             Some i \<Rightarrow> Some \<lparr>next_prog = k i, events = [], queue_op = Keep, hold_op = Same, exit_op = None\<rparr>
           | None \<Rightarrow> None))"

text \<open>A new process starts with the program that \<open>prog\<close> gives it and inherits the open descriptors.\<close>

definition apply_effect :: "('p \<Rightarrow> ('c, 'm, 'p, 'a, 'b, 'r) proc) \<Rightarrow> 'p \<Rightarrow> ('c, 'm, 'p, 'a, 'b, 'r) effect \<Rightarrow>
    ('c, 'm, 'p, 'a, 'b, 'r) net \<Rightarrow> ('c, 'm, 'p, 'a, 'b, 'r) net" where
  "apply_effect prog p e s =
     \<lparr>procs = (case hold_op e of Inherit n \<Rightarrow> (procs s)(p \<mapsto> next_prog e, n \<mapsto> prog n) | _ \<Rightarrow> (procs s)(p \<mapsto> next_prog e)),
      queue = queue_after (queue_op e) (queue s),
      holds = holds_after p (hold_op e) (holds s),
      exited = (case exit_op e of Some i \<Rightarrow> (exited s)(p \<mapsto> i) | None \<Rightarrow> exited s),
      hist = (hist s)(p := hist s p @ events e)\<rparr>"

definition exec :: "('p \<Rightarrow> ('c, 'm, 'p, 'a, 'b) event list \<Rightarrow> 'a \<Rightarrow> 'b) \<Rightarrow> ('p \<Rightarrow> ('c, 'm, 'p, 'a, 'b, 'r) proc) \<Rightarrow> 'p \<Rightarrow>
    ('c, 'm, 'p, 'a, 'b, 'r) net \<Rightarrow> ('c, 'm, 'p, 'a, 'b, 'r) net option" where
  "exec resp prog p s = map_option (\<lambda>e. apply_effect prog p e s) (effect_of resp p s)"

definition net_step :: "('p \<Rightarrow> ('c, 'm, 'p, 'a, 'b) event list \<Rightarrow> 'a \<Rightarrow> 'b) \<Rightarrow> ('p \<Rightarrow> ('c, 'm, 'p, 'a, 'b, 'r) proc) \<Rightarrow>
    ('c, 'm, 'p, 'a, 'b, 'r) net \<Rightarrow> ('c, 'm, 'p, 'a, 'b, 'r) net \<Rightarrow> bool" where
  "net_step resp prog s s' \<longleftrightarrow> (\<exists>p. exec resp prog p s = Some s')"

text \<open>
  Each channel has one process that may send on it and one that may receive from it, and each process one
  that may start it. \<open>wt\<close> says that a program keeps to this.
\<close>

record ('c, 'p) roles =
  sender_of :: "'c \<Rightarrow> 'p"
  receiver_of :: "'c \<Rightarrow> 'p"
  parent_of :: "'p \<Rightarrow> 'p"

primrec wt :: "('c, 'p) roles \<Rightarrow> 'p \<Rightarrow> ('c, 'm, 'p, 'a, 'b, 'r) proc \<Rightarrow> bool" where
  "wt R p (Return r) = True"
| "wt R p (Exit i) = True"
| "wt R p (Send c m k) = (sender_of R c = p \<and> (\<forall>x. wt R p (k x)))"
| "wt R p (Recv c k) = (receiver_of R c = p \<and> (\<forall>x. wt R p (k x)))"
| "wt R p (Do a k) = (\<forall>x. wt R p (k x))"
| "wt R p (Close c k) = wt R p k"
| "wt R p (Fork n k) = (parent_of R n = p \<and> n \<noteq> p \<and> wt R p k)"
| "wt R p (Wait n k) = (\<forall>x. wt R p (k x))"

definition wt_net :: "('c, 'p) roles \<Rightarrow> ('c, 'm, 'p, 'a, 'b, 'r) net \<Rightarrow> bool" where
  "wt_net R s \<longleftrightarrow>
     (\<forall>p q. procs s p = Some q \<longrightarrow> wt R p q) \<and>
     (\<forall>c p. p \<in> holds s c \<longrightarrow> procs s p \<noteq> None \<and> exited s p = None) \<and>
     (\<forall>p i. exited s p = Some i \<longrightarrow> (\<exists>j. procs s p = Some (Exit j)))"



section \<open>Independence of the schedule\<close>

text \<open>
  An effect fits a process if it pushes only to channels that the process sends on, pops only from
  channels that it receives from, and starts only processes that it is the parent of.
\<close>

definition fits :: "('c, 'p) roles \<Rightarrow> 'p \<Rightarrow> ('c, 'm, 'p, 'a, 'b, 'r) net \<Rightarrow> ('c, 'm, 'p, 'a, 'b, 'r) effect \<Rightarrow> bool" where
  "fits R p s e \<longleftrightarrow>
     (case queue_op e of
        Keep \<Rightarrow> True
      | Push c m \<Rightarrow> sender_of R c = p \<and> p \<in> holds s c
      | Pop c \<Rightarrow> receiver_of R c = p \<and> queue s c \<noteq> []) \<and>
     (case hold_op e of Inherit n \<Rightarrow> parent_of R n = p \<and> procs s n = None | _ \<Rightarrow> True) \<and>
     (exit_op e \<noteq> None \<longrightarrow> exited s p = None)"

lemma effect_fits:
  assumes "wt_net R s" and "effect_of resp p s = Some e"
  shows "fits R p s e \<and> procs s p \<noteq> None"
proof (cases "procs s p")
  case None
  then show ?thesis
    using assms by (simp add: effect_of_def)
next
  case (Some P)
  then have "wt R p P"
    using assms(1) by (simp add: wt_net_def)
  then show ?thesis
    using assms(2) Some by (cases P) (auto simp: effect_of_def fits_def Let_def split: if_splits list.splits option.splits)
qed

lemma not_held: "wt_net R s \<Longrightarrow> procs s n = None \<Longrightarrow> n \<notin> holds s c"
  unfolding wt_net_def by blast

text \<open>The step of another process leaves everything alone that the effect of this one depends on.\<close>

lemma apply_effect_other:
  assumes "fits R p s e" and "procs s p \<noteq> None" and "procs s q \<noteq> None" and "p \<noteq> q" and "wt_net R s"
  shows "procs (apply_effect prog p e s) q = procs s q" and "hist (apply_effect prog p e s) q = hist s q"
    and "q \<in> holds (apply_effect prog p e s) c \<longleftrightarrow> q \<in> holds s c"
    and "holds s c = {} \<Longrightarrow> holds (apply_effect prog p e s) c = {}"
    and "exited (apply_effect prog p e s) q = exited s q"
    and "exited s n = Some i \<Longrightarrow> exited (apply_effect prog p e s) n = Some i"
    and "procs s n = None \<Longrightarrow> parent_of R n = q \<Longrightarrow> procs (apply_effect prog p e s) n = None"
  using assms by (auto simp: apply_effect_def fits_def split: hold_op.splits option.splits)

lemma apply_effect_queue:
  assumes "fits R p s e" and "p \<noteq> q" and "receiver_of R c = q"
  shows "queue s c = m # ms \<Longrightarrow> \<exists>ms'. queue (apply_effect prog p e s) c = m # ms'"
    and "queue s c = [] \<Longrightarrow> holds s c = {} \<Longrightarrow> queue (apply_effect prog p e s) c = []"
  using assms by (auto simp: apply_effect_def fits_def split: queue_op.splits)

lemma effect_of_other:
  assumes wt: "wt_net R s" and e: "effect_of resp p s = Some e" and e': "effect_of resp q s = Some e'" and pq: "p \<noteq> q"
  shows "effect_of resp q (apply_effect prog p e s) = Some e'"
proof -
  obtain Q where Q: "procs s q = Some Q"
    using e' by (cases "procs s q") (simp_all add: effect_of_def)
  have w: "wt R q Q"
    using wt Q by (simp add: wt_net_def)
  note fp = effect_fits [OF wt e, THEN conjunct1] effect_fits [OF wt e, THEN conjunct2]
  have "procs s q \<noteq> None"
    using Q by simp
  note other = apply_effect_other [OF fp this pq wt, where prog = prog] and qu = apply_effect_queue [OF fp(1) pq, where prog = prog]
  have same: "procs (apply_effect prog p e s) q = Some Q"
    using other(1) Q by simp
  show ?thesis
  proof (cases Q)
    case (Recv c k)
    show ?thesis
    proof (cases "queue s c")
      case Nil
      then have "holds s c = {}"
        using e' Q Recv by (simp add: effect_of_def split: if_splits)
      then show ?thesis
        using e' Q Recv Nil same qu(2) [of c] other(4) [of c] w by (simp add: effect_of_def)
    next
      case (Cons m ms)
      then obtain ms' where "queue (apply_effect prog p e s) c = m # ms'"
        using qu(1) [of c m ms] w Recv by auto
      then show ?thesis
        using e' Q Recv Cons same by (simp add: effect_of_def)
    qed
  next
    case (Fork n k)
    then show ?thesis
      using e' Q same other(7) [of n] w by (simp add: effect_of_def split: if_splits)
  next
    case (Wait n k)
    then show ?thesis
      using e' Q same other(6) [of n] by (auto simp: effect_of_def split: option.splits)
  qed (use e' Q same other(2,3,5) in \<open>simp_all add: effect_of_def Let_def split: if_splits\<close>)
qed

lemma holds_after_commute:
  assumes "p \<noteq> q" and "\<forall>n. d = Inherit n \<longrightarrow> n \<noteq> q \<and> (\<forall>c. n \<notin> h c)" and "\<forall>n. d' = Inherit n \<longrightarrow> n \<noteq> p \<and> (\<forall>c. n \<notin> h c)"
  shows "holds_after q d' (holds_after p d h) = holds_after p d (holds_after q d' h)"
  using assms by (cases d; cases d') (auto simp: fun_eq_iff)

lemma queue_after_commute:
  assumes "\<forall>c m c' m'. d = Push c m \<and> d' = Push c' m' \<longrightarrow> c \<noteq> c'" and "\<forall>c c'. d = Pop c \<and> d' = Pop c' \<longrightarrow> c \<noteq> c'"
    and "\<forall>c. d = Pop c \<or> d' = Pop c \<longrightarrow> h c \<noteq> []"
  shows "queue_after d' (queue_after d h) = queue_after d (queue_after d' h)"
  using assms by (cases d; cases d') (auto simp: fun_eq_iff)

lemma fits_queue:
  "fits R p s e \<Longrightarrow> queue_op e = Push c m \<Longrightarrow> sender_of R c = p"
  "fits R p s e \<Longrightarrow> queue_op e = Pop c \<Longrightarrow> receiver_of R c = p"
  "fits R p s e \<Longrightarrow> queue_op e = Pop c \<Longrightarrow> queue s c \<noteq> []"
  by (simp_all add: fits_def)

lemma apply_effect_commute:
  assumes "wt_net R s" and f: "fits R p s e" "fits R q s e'" and ne: "procs s p \<noteq> None" "procs s q \<noteq> None" and pq: "p \<noteq> q"
  shows "apply_effect prog q e' (apply_effect prog p e s) = apply_effect prog p e (apply_effect prog q e' s)"
proof -
  have n: "hold_op e = Inherit n \<Longrightarrow> n \<noteq> q \<and> n \<noteq> p \<and> (\<forall>c. n \<notin> holds s c)"
    "hold_op e' = Inherit n \<Longrightarrow> n \<noteq> p \<and> n \<noteq> q \<and> (\<forall>c. n \<notin> holds s c)"
    "hold_op e = Inherit n \<Longrightarrow> hold_op e' = Inherit n' \<Longrightarrow> n \<noteq> n'" for n n'
    using f ne pq not_held [OF assms(1), of n] by (auto simp: fits_def)
  have "holds_after q (hold_op e') (holds_after p (hold_op e) (holds s)) = holds_after p (hold_op e) (holds_after q (hold_op e') (holds s))"
    using n pq by (intro holds_after_commute) auto
  moreover have "queue_after (queue_op e') (queue_after (queue_op e) (queue s)) = queue_after (queue_op e) (queue_after (queue_op e') (queue s))"
    using f pq by (intro queue_after_commute) (metis fits_queue)+
  moreover have "procs (apply_effect prog q e' (apply_effect prog p e s)) = procs (apply_effect prog p e (apply_effect prog q e' s))"
    using n pq by (cases "hold_op e"; cases "hold_op e'") (simp_all add: apply_effect_def fun_eq_iff)
  moreover have "exited (apply_effect prog q e' (apply_effect prog p e s)) = exited (apply_effect prog p e (apply_effect prog q e' s))"
    "hist (apply_effect prog q e' (apply_effect prog p e s)) = hist (apply_effect prog p e (apply_effect prog q e' s))"
    using pq by (cases "exit_op e"; cases "exit_op e'"; simp add: apply_effect_def fun_upd_twist)+
  ultimately show ?thesis
    by (intro net.equality) (simp_all add: apply_effect_def)
qed

lemma exec_commute:
  assumes "wt_net R s" and "exec resp prog p s = Some s1" and "exec resp prog q s = Some s2" and "p \<noteq> q"
  shows "\<exists>s3. exec resp prog q s1 = Some s3 \<and> exec resp prog p s2 = Some s3"
proof -
  obtain e e' where e: "effect_of resp p s = Some e" "s1 = apply_effect prog p e s" and e': "effect_of resp q s = Some e'" "s2 = apply_effect prog q e' s"
    using assms(2,3) by (auto simp: exec_def)
  have "effect_of resp q s1 = Some e'" "effect_of resp p s2 = Some e"
    using effect_of_other [OF assms(1) e(1) e'(1) assms(4)] effect_of_other [OF assms(1) e'(1) e(1)] assms(4) e(2) e'(2) by simp_all
  moreover have "apply_effect prog q e' s1 = apply_effect prog p e s2"
    unfolding e(2) e'(2) using effect_fits [OF assms(1) e(1)] effect_fits [OF assms(1) e'(1)] assms(4) by (blast intro: apply_effect_commute [OF assms(1)])
  ultimately show ?thesis
    by (simp add: exec_def)
qed

lemma not_exited: "wt_net R s \<Longrightarrow> procs s n = None \<Longrightarrow> exited s n = None"
  unfolding wt_net_def by (metis not_None_eq option.distinct(1))

lemma wt_net_exec:
  assumes wt: "wt_net R s" and prog: "\<forall>n. wt R n (prog n)" and "exec resp prog p s = Some s'"
  shows "wt_net R s'"
proof -
  obtain e where e: "effect_of resp p s = Some e" and s': "s' = apply_effect prog p e s"
    using assms(3) by (auto simp: exec_def)
  obtain P where P: "procs s p = Some P" "wt R p P"
    using effect_fits [OF wt e] wt by (auto simp: wt_net_def)
  have live: "exited s p = None"
  proof (rule ccontr)
    assume x: "exited s p \<noteq> None"
    then obtain j where "procs s p = Some (Exit j)"
      using wt unfolding wt_net_def by blast
    then show False
      using e x by (simp add: effect_of_def)
  qed
  have nx: "wt R p (next_prog e)" and exits: "exit_op e = Some i \<Longrightarrow> next_prog e = Exit i \<and> hold_op e = Drop_all" for i
    using P e by (cases P; auto simp: effect_of_def Let_def split: if_splits list.splits option.splits)+
  have fresh: "hold_op e = Inherit n \<Longrightarrow> procs s n = None \<and> exited s n = None" for n
    using effect_fits [OF wt e] not_exited [OF wt, of n] by (simp add: fits_def)
  have "procs s' q = Some Q \<Longrightarrow> wt R q Q" for q Q
    using wt nx prog unfolding s' by (auto simp: apply_effect_def wt_net_def split: hold_op.splits if_splits)
  moreover have "procs s' q \<noteq> None \<and> exited s' q = None" if "q \<in> holds s' c" for q c
    using that wt P live nx exits fresh unfolding s'
    by (auto simp: apply_effect_def wt_net_def split: hold_op.splits if_splits option.splits)
  moreover have "\<exists>j. procs s' q = Some (Exit j)" if "exited s' q = Some i" for q i
    using that wt P live exits fresh unfolding s'
    by (auto simp: apply_effect_def wt_net_def split: hold_op.splits if_splits option.splits)
  ultimately show ?thesis
    unfolding wt_net_def by blast
qed

section \<open>Relations with the diamond property\<close>

text \<open>
  If two different steps from a state can always be joined by one more step each, and one run ends, then every
  run ends, in the same state and after the same number of steps.
\<close>

locale diamond =
  fixes step :: "'s \<Rightarrow> 's \<Rightarrow> bool" and ok :: "'s \<Rightarrow> bool"
  assumes preserved: "ok a \<Longrightarrow> step a b \<Longrightarrow> ok b"
    and joins: "ok a \<Longrightarrow> step a b \<Longrightarrow> step a c \<Longrightarrow> b \<noteq> c \<Longrightarrow> \<exists>d. step b d \<and> step c d"
begin

definition final :: "'s \<Rightarrow> bool" where
  "final z \<longleftrightarrow> (\<forall>y. \<not> step z y)"

lemma one_step:
  assumes "(step ^^ n) a z" and "final z" and "ok a" and "step a b"
  shows "0 < n \<and> (step ^^ (n - 1)) b z"
  using assms(1,3,4)
proof (induction n arbitrary: a b)
  case 0
  then show ?case
    using assms(2) by (auto simp: final_def)
next
  case (Suc n)
  obtain c where c: "step a c" "(step ^^ n) c z"
    using relpowp_Suc_D2 [OF Suc.prems(1)] by blast
  show ?case
  proof (cases "b = c")
    case True
    then show ?thesis
      using c by simp
  next
    case False
    then obtain d where d: "step b d" "step c d"
      using joins [OF Suc.prems(2,3) c(1)] by blast
    have "0 < n \<and> (step ^^ (n - 1)) d z"
      using Suc.IH [OF c(2) preserved [OF Suc.prems(2) c(1)] d(2)] .
    then have "(step ^^ n) b z"
      using d(1) relpowp_Suc_I2 [of step b d "n - 1" z] by simp
    then show ?thesis
      by simp
  qed
qed

lemma every_run:
  assumes "(step ^^ n) a z" and "final z" and "ok a" and "(step ^^ m) a b"
  shows "m \<le> n \<and> (step ^^ (n - m)) b z"
  using assms(4,1,3)
proof (induction m arbitrary: a n)
  case 0
  then show ?case
    by simp
next
  case (Suc m)
  obtain c where c: "step a c" "(step ^^ m) c b"
    using relpowp_Suc_D2 [OF Suc.prems(1)] by blast
  have *: "0 < n \<and> (step ^^ (n - 1)) c z"
    using one_step [OF Suc.prems(2) assms(2) Suc.prems(3) c(1)] .
  then show ?case
    using Suc.IH [OF c(2), of "n - 1"] preserved [OF Suc.prems(3) c(1)] by (auto simp: Suc_le_eq)
qed

lemma outcome_unique:
  assumes "(step ^^ n) a z" and "final z" and "ok a" and "(step ^^ m) a b" and "final b"
  shows "b = z \<and> m = n"
proof -
  have r: "m \<le> n" "(step ^^ (n - m)) b z"
    using every_run [OF assms(1-4)] by auto
  show ?thesis
  proof (cases "n - m")
    case 0
    then show ?thesis
      using r by simp
  next
    case (Suc k)
    then show ?thesis
      using r assms(5) relpowp_Suc_D2 [of k step b z] by (auto simp: final_def)
  qed
qed

end

definition well_typed :: "('c, 'p) roles \<Rightarrow> ('p \<Rightarrow> ('c, 'm, 'p, 'a, 'b, 'r) proc) \<Rightarrow> ('c, 'm, 'p, 'a, 'b, 'r) net \<Rightarrow> bool" where
  "well_typed R prog s \<longleftrightarrow> wt_net R s \<and> (\<forall>n. wt R n (prog n))"

interpretation network: diamond "net_step resp prog" "well_typed R prog"
proof
  show "well_typed R prog b" if "well_typed R prog a" and "net_step resp prog a b" for a b
    using that wt_net_exec by (auto simp: well_typed_def net_step_def)
  show "\<exists>d. net_step resp prog b d \<and> net_step resp prog c d"
    if wt: "well_typed R prog a" and ab: "net_step resp prog a b" and ac: "net_step resp prog a c" and "b \<noteq> c" for a b c
  proof -
    obtain p q where pq: "exec resp prog p a = Some b" "exec resp prog q a = Some c"
      using ab ac by (auto simp: net_step_def)
    then have "p \<noteq> q"
      using \<open>b \<noteq> c\<close> by auto
    then show ?thesis
      using exec_commute [OF _ pq, of R] wt unfolding net_step_def well_typed_def by blast
  qed
qed

section \<open>Runs end\<close>

text \<open>
  A program is a well-founded tree, and every step of a process goes to one of the branches, or ends the process. If
  the processes can be listed with each parent before its children, no run is infinite.
\<close>

primrec children :: "('c, 'm, 'p, 'a, 'b, 'r) proc \<Rightarrow> ('c, 'm, 'p, 'a, 'b, 'r) proc set" where
  "children (Return r) = {}"
| "children (Exit i) = {}"
| "children (Send c m k) = range k"
| "children (Recv c k) = range k"
| "children (Do a k) = range k"
| "children (Close c k) = {k}"
| "children (Fork n k) = {k}"
| "children (Wait n k) = range k"

definition local_less :: "((('c, 'm, 'p, 'a, 'b, 'r) proc option \<times> int option) \<times> (('c, 'm, 'p, 'a, 'b, 'r) proc option \<times> int option)) set" where
  "local_less =
     ({(Some Q, Some P) | Q P. Q \<in> children P} \<union> {(Some Q, None) | Q. True}) <*lex*> {(Some i, None) | i. True}"

lemma wf_children: "wf {(Q, P :: ('c, 'm, 'p, 'a, 'b, 'r) proc). Q \<in> children P}"
proof (rule wfUNIVI)
  fix A and P :: "('c, 'm, 'p, 'a, 'b, 'r) proc"
  assume "\<forall>x. (\<forall>y. (y, x) \<in> {(Q, P :: ('c, 'm, 'p, 'a, 'b, 'r) proc). Q \<in> children P} \<longrightarrow> A y) \<longrightarrow> A x"
  then have step: "(\<And>Q. Q \<in> children P \<Longrightarrow> A Q) \<Longrightarrow> A P" for P
    by blast
  show "A P"
    by (induction P; rule step) auto
qed

lemma wf_option_less:
  assumes "wf r"
  shows "wf ({(Some x, Some y) | x y. (x, y) \<in> r} \<union> {(Some x, None) | x. True})"
proof -
  have "wf (inv_image (less_than <*lex*> r) (\<lambda>x. case x of None \<Rightarrow> (1, undefined) | Some y \<Rightarrow> (0, y)))"
    using assms by (intro wf_inv_image wf_lex_prod wf_less_than)
  then show ?thesis
    by (rule wf_subset) auto
qed

lemma wf_local_less: "wf local_less"
proof -
  have "wf {(Some i, None :: int option) | i. True}"
    by (rule wf_subset [OF wf_measure [of "\<lambda>x. case x of None \<Rightarrow> 1 | Some i \<Rightarrow> 0"]]) auto
  then show ?thesis
    unfolding local_less_def using wf_option_less [OF wf_children] by (intro wf_lex_prod) simp_all
qed

lemma exec_local_less:
  assumes "exec resp prog p s = Some s'" and "wt_net R s"
  shows "((procs s' p, exited s' p), (procs s p, exited s p)) \<in> local_less"
    and "q \<noteq> p \<Longrightarrow> parent_of R q \<noteq> p \<Longrightarrow> (procs s' q, exited s' q) = (procs s q, exited s q)"
proof -
  obtain e where e: "effect_of resp p s = Some e" and s': "s' = apply_effect prog p e s"
    using assms(1) by (auto simp: exec_def)
  note fits = effect_fits [OF assms(2) e]
  obtain P where P: "procs s p = Some P"
    using fits by auto
  have n: "hold_op e = Inherit n \<Longrightarrow> n \<noteq> p" for n
    using fits by (auto simp: fits_def)
  then have "procs s' p = Some (next_prog e)"
    unfolding s' by (auto simp: apply_effect_def split: hold_op.splits)
  moreover have "next_prog e \<in> children P \<and> exit_op e = None \<or> next_prog e = P \<and> exit_op e \<noteq> None \<and> exited s p = None"
    using P e by (cases P) (auto simp: effect_of_def Let_def split: if_splits list.splits option.splits)
  ultimately show "((procs s' p, exited s' p), (procs s p, exited s p)) \<in> local_less"
    using P unfolding s' by (auto simp: local_less_def apply_effect_def)
  show "q \<noteq> p \<Longrightarrow> parent_of R q \<noteq> p \<Longrightarrow> (procs s' q, exited s' q) = (procs s q, exited s q)"
    using fits unfolding s' by (auto simp: fits_def apply_effect_def split: hold_op.splits option.splits)
qed

definition parents_first :: "('c, 'p) roles \<Rightarrow> 'p list \<Rightarrow> bool" where
  "parents_first R ps \<longleftrightarrow> set ps = UNIV \<and> (\<forall>xs p ys. ps = xs @ p # ys \<longrightarrow> (\<forall>q \<in> set xs. q \<noteq> p \<and> parent_of R q \<noteq> p))"

lemma runs_end:
  assumes "parents_first R ps"
  shows "wf {(s', s). net_step resp prog s s' \<and> well_typed R prog s}"
proof -
  let ?f = "\<lambda>s. map (\<lambda>p. (procs s p, exited s p)) ps"
  have "(?f s', ?f s) \<in> lex local_less" if step: "net_step resp prog s s'" and wt: "well_typed R prog s" for s s'
  proof -
    obtain p where p: "exec resp prog p s = Some s'"
      using step by (auto simp: net_step_def)
    obtain xs ys where ps: "ps = xs @ p # ys"
      using assms split_list [of p ps] by (auto simp: parents_first_def)
    have w: "wt_net R s"
      using wt by (simp add: well_typed_def)
    have before: "\<forall>q \<in> set xs. q \<noteq> p \<and> parent_of R q \<noteq> p"
      using assms ps unfolding parents_first_def by blast
    have "map (\<lambda>p. (procs s' p, exited s' p)) xs = map (\<lambda>p. (procs s p, exited s p)) xs"
      using exec_local_less(2) [OF p w] before by simp
    then show ?thesis
      using exec_local_less(1) [OF p w] unfolding lex_conv ps by (auto intro!: exI [of _ "map (\<lambda>p. (procs s p, exited s p)) xs"])
  qed
  then show ?thesis
    by (intro wf_subset [OF wf_inv_image [OF wf_lex [OF wf_local_less], of ?f]]) auto
qed

end
