(* ===== verification/Process_Channel.thy ===== *)
theory Process_Channel
  imports Process_Network User_Namespace
begin

text \<open>
  The messages and channels between the three processes that create a container:
  \<open>libcontainer/src/process/message.rs\<close> and \<open>process/channel.rs\<close>, over the sockets of \<open>libcontainer/src/channel.rs\<close>.
  Each operation of a sender or a receiver is a program of \<open>Process_Network\<close>.
\<close>

section \<open>Processes, channels and messages\<close>

text \<open>
  \<open>InterMain\<close> and \<open>InitMain\<close> are the channels that lead from the intermediate and from the init process to the main
  process, \<open>ToInter\<close> and \<open>ToInit\<close> those in the other direction.
\<close>

datatype pname = MainProc | InterProc | InitProc

datatype chan = InterMain | InitMain | ToInter | ToInit

datatype userns_source = Mappings "linux_id_mapping list" "linux_id_mapping list" | ContainerUserns

record mount_id_map =
  userns_source :: userns_source
  apply_idmap_recursively :: bool

record mount_msg =
  msg_source :: string
  msg_idmap :: "mount_id_map option"
  clone_mount_tree_recursively :: bool

text \<open>The addresses of a network device, which the main process only passes on, are a number.\<close>

datatype proc_message =
    IntermediateReady int
  | InitReady
  | WriteMapping
  | MappingWritten
  | WriteTimeOffsets
  | TimeOffsetsWritten
  | SeccompNotify
  | SeccompNotifyDone
  | SetupNetworkDeviceReady
  | MoveNetworkDevice "(string \<times> int) list"
  | AskMountFd mount_msg
  | MountFdReply
  | ExecFailed string
  | OtherError string
  | MountFdError string
  | HookRequest
  | HookDone

text \<open>A message may carry a file descriptor.\<close>

type_synonym packet = "proc_message \<times> int option"

datatype base_channel_error = ChanNix nat | ChanSerde | BrokenChannel

datatype channel_error =
    UnexpectedMessage string proc_message
  | UnexpectedInitMessage proc_message
  | ReceiveError string base_channel_error
  | BaseChannelError base_channel_error
  | MissingSeccompFds
  | ExecError string
  | OtherErr string
  | MissingMountFds
  | MountFdErr string

section \<open>System calls\<close>

text \<open>
  Everything else that the three processes ask of the system: calls on processes and their credentials, on namespaces and
  cgroups, on the file system, and those that run code or talk to other programs. The answer is a number, or an error
  number.
\<close>

datatype response = Done int | Failed nat

datatype hook_kind = Prestart | CreateRuntime | CreateContainer | StartContainer

text \<open>\<open>libc::sched_attr\<close> with the two utilisation fields, which are always 0.\<close>

record sched_attr =
  sched_policy :: u32
  sched_flags :: u64
  sched_nice :: int
  sched_priority :: u32
  sched_runtime :: nat
  sched_deadline :: nat
  sched_period :: nat

datatype proc_call =
    Socketpair chan
  | SetName string
  | ClonePid pname
  | WaitPid
  | SetDumpable bool
  | SetId u32 u32
  | SetGroups "u32 list"
  | SetRlimit string
  | SetAffinity string
  | Setsid
  | SetIoPriority int int
  | SchedSetattr sched_attr
  | SetupMemoryPolicy
  | SetNoNewPrivileges
  | SetPersonality personality_domain
  | ApplyApparmor string
  | SetUmask u32
  | CloseRange i32
  | InitializeSeccomp
  | ResetEffective
  | DropPrivileges

datatype ns_call =
    WriteSetgroupsDeny
  | ReadSetgroups
  | WriteUidMapping
  | WriteGidMapping
  | WriteTimensOffsets string
  | EnterNs clone_flag
  | SetHostname string
  | SetDomainname string
  | CheckUserns
  | CreateCgroupManager
  | AddTask
  | ApplyResources
  | OpenNetns string
  | MoveDevice string
  | OpenNetlink
  | GetLink string
  | AddAddresses string int int
  | SetLinkUp int
  | WriteSysctls "(string \<times> string) list"

datatype fs_call =
    WritePidFile string int
  | PrepareRootfs bool bool
  | ChdirTo string
  | Getcwd
  | UmountDetach string
  | MountTmpfsOver string
  | MountMove string
  | ChrootTo string
  | PivotRoot string
  | AdjustPropagation
  | OpenContainerDevNull
  | FstatDevNull
  | FstatStdio nat
  | DupDevNull nat
  | StatfsRoot
  | RemountRootReadonly
  | BindPath string
  | RemountPathReadonly string
  | OpenDevNull
  | PathKind string
  | MaskWithTmpfs string string
  | MaskWithDevNull string

datatype run_call =
    RunHooks hook_kind
  | BuildSeccompState
  | SendToListener string int
  | CloseExecNotify
  | WriteExecNotify string
  | DupStdio nat int
  | SetupConsole bool
  | ReadListenFds
  | ValidateWorkload
  | SetupEnvs
  | WaitContainerStart
  | CloseNotify
  | ExecPayload

datatype action = ProcCall proc_call | NsCall ns_call | FsCall fs_call | RunCall run_call

type_synonym 'r prg = "(chan, packet, pname, action, response, 'r) proc"

definition act :: "action \<Rightarrow> (nat \<Rightarrow> 'e) \<Rightarrow> ('e, int) outcome prg" where
  "act a h = Do a (\<lambda>r. Return (case r of Done v \<Rightarrow> Ok v | Failed n \<Rightarrow> Err (h n)))"

fun pfor :: "('x \<Rightarrow> ('e, 'y) outcome prg) \<Rightarrow> 'x list \<Rightarrow> ('e, 'y list) outcome prg" where
  "pfor f [] = Return (Ok [])"
| "pfor f (x # xs) = ptry (f x) (\<lambda>y. ptry (pfor f xs) (\<lambda>ys. Return (Ok (y # ys))))"

section \<open>Sending and receiving\<close>

text \<open>
  \<open>Sender::send\<close> and \<open>send_fds\<close> fail with EBADF once the process has closed its end. \<open>Receiver::recv\<close> and
  \<open>recv_with_fds\<close> report a broken channel when every sending end is closed. Encoding a message and decoding it again
  gives it back, as \<open>serde_json\<close> does for these types.
\<close>

definition chan_send :: "chan \<Rightarrow> proc_message \<Rightarrow> int option \<Rightarrow> (channel_error, unit) outcome prg" where
  "chan_send c m fd = Send c (m, fd) (\<lambda>sent. Return (if sent then Ok () else Err (BaseChannelError (ChanNix 9))))"

definition chan_recv :: "chan \<Rightarrow> string \<Rightarrow> (channel_error, packet) outcome prg" where
  "chan_recv c waiting = Recv c (\<lambda>r. Return (case r of Some p \<Rightarrow> Ok p | None \<Rightarrow> Err (ReceiveError waiting BrokenChannel)))"

section \<open>To the main process\<close>

definition identifier_mapping_request :: "chan \<Rightarrow> (channel_error, unit) outcome prg" where
  "identifier_mapping_request c = chan_send c WriteMapping None"

definition time_offset_request :: "chan \<Rightarrow> (channel_error, unit) outcome prg" where
  "time_offset_request c = chan_send c WriteTimeOffsets None"

definition seccomp_notify_request :: "chan \<Rightarrow> int \<Rightarrow> (channel_error, unit) outcome prg" where
  "seccomp_notify_request c fd = chan_send c SeccompNotify (Some fd)"

definition request_mount_fd :: "chan \<Rightarrow> mount_msg \<Rightarrow> (channel_error, unit) outcome prg" where
  "request_mount_fd c msg = chan_send c (AskMountFd msg) None"

definition network_setup_ready :: "chan \<Rightarrow> (channel_error, unit) outcome prg" where
  "network_setup_ready c = chan_send c SetupNetworkDeviceReady None"

definition intermediate_ready :: "chan \<Rightarrow> int \<Rightarrow> (channel_error, unit) outcome prg" where
  "intermediate_ready c pid = chan_send c (IntermediateReady pid) None"

definition init_ready :: "chan \<Rightarrow> int option \<Rightarrow> (channel_error, unit) outcome prg" where
  "init_ready c foreground_pty_fd = chan_send c InitReady foreground_pty_fd"

definition exec_failed :: "chan \<Rightarrow> string \<Rightarrow> (channel_error, unit) outcome prg" where
  "exec_failed c e = chan_send c (ExecFailed e) None"

definition send_error :: "chan \<Rightarrow> string \<Rightarrow> (channel_error, unit) outcome prg" where
  "send_error c e = chan_send c (OtherError e) None"

definition hook_request :: "chan \<Rightarrow> (channel_error, unit) outcome prg" where
  "hook_request c = chan_send c HookRequest None"

section \<open>At the main process\<close>

definition check_for_process_error :: "proc_message \<Rightarrow> (channel_error, proc_message) outcome" where
  "check_for_process_error m =
     (case m of
        ExecFailed e \<Rightarrow> Err (ExecError e)
      | OtherError e \<Rightarrow> Err (OtherErr e)
      | _ \<Rightarrow> Ok m)"

text \<open>The common part of the waiting operations: receive, look for an error of the sender, match the message.\<close>

definition wait_for :: "chan \<Rightarrow> string \<Rightarrow> (packet \<Rightarrow> (channel_error, 'x) outcome) \<Rightarrow> (channel_error, 'x) outcome prg" where
  "wait_for c waiting f =
     ptry (chan_recv c waiting) (\<lambda>(m, fd). Return (bind_outcome (check_for_process_error m) (\<lambda>m. f (m, fd))))"

definition wait_for_intermediate_ready :: "chan \<Rightarrow> (channel_error, int) outcome prg" where
  "wait_for_intermediate_ready c =
     wait_for c ''waiting for intermediate process''
       (\<lambda>(m, fd). case m of IntermediateReady pid \<Rightarrow> Ok pid | _ \<Rightarrow> Err (UnexpectedMessage ''IntermediateReady'' m))"

definition wait_for_mapping_request :: "chan \<Rightarrow> (channel_error, unit) outcome prg" where
  "wait_for_mapping_request c =
     wait_for c ''waiting for mapping request''
       (\<lambda>(m, fd). case m of WriteMapping \<Rightarrow> Ok () | _ \<Rightarrow> Err (UnexpectedMessage ''WriteMapping'' m))"

definition wait_for_mount_fd_request :: "chan \<Rightarrow> (channel_error, mount_msg) outcome prg" where
  "wait_for_mount_fd_request c =
     wait_for c ''waiting for mount fd request''
       (\<lambda>(m, fd). case m of AskMountFd req \<Rightarrow> Ok req | _ \<Rightarrow> Err (UnexpectedMessage ''AskMountFd'' m))"

definition recv_init_message :: "chan \<Rightarrow> (channel_error, proc_message \<times> int option) outcome prg" where
  "recv_init_message c = wait_for c ''waiting for init message'' Ok"

definition wait_for_time_offset_request :: "chan \<Rightarrow> (channel_error, unit) outcome prg" where
  "wait_for_time_offset_request c =
     wait_for c ''waiting for time offset request''
       (\<lambda>(m, fd). case m of WriteTimeOffsets \<Rightarrow> Ok () | _ \<Rightarrow> Err (UnexpectedMessage ''WriteTimeOffsets'' m))"

definition wait_for_seccomp_request :: "chan \<Rightarrow> (channel_error, int) outcome prg" where
  "wait_for_seccomp_request c =
     wait_for c ''waiting for seccomp request''
       (\<lambda>(m, fd). case m of SeccompNotify \<Rightarrow> ok_or MissingSeccompFds fd | _ \<Rightarrow> Err (UnexpectedMessage ''SeccompNotify'' m))"

definition wait_for_network_setup_ready :: "chan \<Rightarrow> (channel_error, unit) outcome prg" where
  "wait_for_network_setup_ready c =
     wait_for c ''waiting for init ready''
       (\<lambda>(m, fd). case m of SetupNetworkDeviceReady \<Rightarrow> Ok () | _ \<Rightarrow> Err (UnexpectedMessage ''SetupNetworkDeviceReady'' m))"

definition wait_for_init_ready :: "chan \<Rightarrow> (channel_error, int option) outcome prg" where
  "wait_for_init_ready c =
     wait_for c ''waiting for init ready'' (\<lambda>(m, fd). case m of InitReady \<Rightarrow> Ok fd | _ \<Rightarrow> Err (UnexpectedMessage ''InitReady'' m))"

definition wait_for_hook_request :: "chan \<Rightarrow> (channel_error, unit) outcome prg" where
  "wait_for_hook_request c =
     wait_for c ''waiting for hook request'' (\<lambda>(m, fd). case m of HookRequest \<Rightarrow> Ok () | _ \<Rightarrow> Err (UnexpectedMessage ''HookRequest'' m))"

section \<open>The intermediate process\<close>

definition mapping_written :: "chan \<Rightarrow> (channel_error, unit) outcome prg" where
  "mapping_written c = chan_send c MappingWritten None"

definition time_offsets_written :: "chan \<Rightarrow> (channel_error, unit) outcome prg" where
  "time_offsets_written c = chan_send c TimeOffsetsWritten None"

definition wait_for_mapping_ack :: "chan \<Rightarrow> (channel_error, unit) outcome prg" where
  "wait_for_mapping_ack c =
     ptry (chan_recv c ''waiting for mapping ack'')
       (\<lambda>(m, fd). Return (case m of MappingWritten \<Rightarrow> Ok () | _ \<Rightarrow> Err (UnexpectedMessage ''MappingWritten'' m)))"

definition wait_for_time_offsets_ack :: "chan \<Rightarrow> (channel_error, unit) outcome prg" where
  "wait_for_time_offsets_ack c =
     ptry (chan_recv c ''waiting for time offsets ack'')
       (\<lambda>(m, fd). Return (case m of TimeOffsetsWritten \<Rightarrow> Ok () | _ \<Rightarrow> Err (UnexpectedMessage ''TimeOffsetsWritten'' m)))"

section \<open>The init process\<close>

definition seccomp_notify_done :: "chan \<Rightarrow> (channel_error, unit) outcome prg" where
  "seccomp_notify_done c = chan_send c SeccompNotifyDone None"

definition hook_done :: "chan \<Rightarrow> (channel_error, unit) outcome prg" where
  "hook_done c = chan_send c HookDone None"

definition move_network_device :: "chan \<Rightarrow> (string \<times> int) list \<Rightarrow> (channel_error, unit) outcome prg" where
  "move_network_device c addrs = chan_send c (MoveNetworkDevice addrs) None"

definition send_mount_fd_reply :: "chan \<Rightarrow> int \<Rightarrow> (channel_error, unit) outcome prg" where
  "send_mount_fd_reply c fd = chan_send c MountFdReply (Some fd)"

definition send_mount_fd_error :: "chan \<Rightarrow> string \<Rightarrow> (channel_error, unit) outcome prg" where
  "send_mount_fd_error c e = chan_send c (MountFdError e) None"

definition wait_for_seccomp_request_done :: "chan \<Rightarrow> (channel_error, unit) outcome prg" where
  "wait_for_seccomp_request_done c =
     ptry (chan_recv c ''waiting for seccomp request'')
       (\<lambda>(m, fd). Return (case m of SeccompNotifyDone \<Rightarrow> Ok () | _ \<Rightarrow> Err (UnexpectedMessage ''SeccompNotifyDone'' m)))"

definition wait_for_move_network_device :: "chan \<Rightarrow> (channel_error, (string \<times> int) list) outcome prg" where
  "wait_for_move_network_device c =
     ptry (chan_recv c ''waiting for mapping request'')
       (\<lambda>(m, fd). Return (case m of MoveNetworkDevice addr \<Rightarrow> Ok addr | _ \<Rightarrow> Err (UnexpectedMessage ''MoveNetworkDevice'' m)))"

definition wait_for_hook_request_done :: "chan \<Rightarrow> (channel_error, unit) outcome prg" where
  "wait_for_hook_request_done c =
     ptry (chan_recv c ''waiting for hook done'')
       (\<lambda>(m, fd). Return (case m of HookDone \<Rightarrow> Ok () | _ \<Rightarrow> Err (UnexpectedMessage ''HookDone'' m)))"

definition wait_for_mount_fd_reply :: "chan \<Rightarrow> (channel_error, int) outcome prg" where
  "wait_for_mount_fd_reply c =
     ptry (chan_recv c ''waiting for mount fd reply'')
       (\<lambda>(m, fd). Return
          (case m of
             MountFdReply \<Rightarrow> ok_or MissingMountFds fd
           | MountFdError e \<Rightarrow> Err (MountFdErr e)
           | _ \<Rightarrow> Err (UnexpectedMessage ''MountFdReply'' m)))"

lemmas channel_defs = chan_send_def chan_recv_def wait_for_def check_for_process_error_def
  identifier_mapping_request_def time_offset_request_def seccomp_notify_request_def network_setup_ready_def
  intermediate_ready_def init_ready_def exec_failed_def send_error_def hook_request_def
  wait_for_intermediate_ready_def wait_for_mapping_request_def recv_init_message_def wait_for_time_offset_request_def
  mapping_written_def time_offsets_written_def wait_for_mapping_ack_def wait_for_time_offsets_ack_def
  seccomp_notify_done_def hook_done_def move_network_device_def wait_for_seccomp_request_done_def
  wait_for_move_network_device_def wait_for_hook_request_done_def

end
