(* ===== verification/Spec2Isabelle.thy ===== *)
theory Spec2Isabelle
  imports Container_Lifecycle Systemd_Manager Spec_Validator Process_Channel
begin

text \<open>
  A verification of the container runtime youki: of its crate \<open>libcgroups\<close>, which puts processes into cgroups and
  limits them, and of the parts of \<open>libcontainer\<close> that keep the state of a container, validate its
  specification, run its commands and connect the processes that create it. Paths below are relative to \<open>src/crates\<close>.

  \<^bold>\<open>Conventions.\<close> A Rust function is a HOL function of the same name, with a prefix such as \<open>v2_\<close>, \<open>sd_\<close> or \<open>cg_\<close>
  where two crates use one name. A \<open>Result\<close> is the type \<open>outcome\<close> with the values \<open>Ok\<close>, \<open>Err\<close>, \<open>Panic\<close> (a panic of
  the code, kept as a value) and \<open>Diverge\<close> (a loop that has run out of its bound). Code with effects is a function in the state monad \<open>st\<close>
  over an arbitrary world. System calls, the kernel, systemd, and the crates \<open>oci_spec\<close>, \<open>nix\<close>, \<open>procfs\<close>, \<open>serde\<close>,
  \<open>libbpf\<close>, \<open>fixedbitset\<close> and \<open>pathrs\<close> are fields of environment records such as \<open>fs_env\<close>, \<open>dbus_env\<close>, \<open>bpf_env\<close> and
  \<open>lc_env\<close>. What a theorem needs of them is a named law (\<open>ns_law\<close>, \<open>procfs_law\<close> and so on), and each witness
  instantiates the record by a concrete system for which the law is proved. Machine integers are words,
  strings are UTF-8 byte strings and paths are lists of components.

  \<^bold>\<open>Preludes.\<close> \<open>Rust_Prelude\<close> has the integers, \<open>outcome\<close> and the state monad; \<open>Rust_Strings\<close> the operations of
  \<open>str\<close> and the parsing of integers; \<open>Rust_Paths\<close> the operations of \<open>std::path\<close>; \<open>Oci_Spec\<close> the parts of the
  specification that the code reads.

  \<^bold>\<open>D-Bus\<close> (\<open>libcgroups/src/systemd/dbus_native\<close>).
  \<^item> \<open>Dbus_Serialize\<close> (\<open>serialize.rs\<close>, \<open>utils.rs\<close>): every instance of the trait \<open>DbusSerialize\<close>. The locales \<open>dbus_codec\<close>,
    \<open>dbus_elem\<close>, \<open>dbus_pair\<close> and \<open>dbus_reader\<close> are the contracts of the trait, interpreted on each instance. Shown: what is
    encoded is decoded, at any alignment; decoding ends; a truncated variant panics.
  \<^item> \<open>Dbus_Message\<close> (\<open>message.rs\<close>): headers and messages, with their round trip.
  \<^item> \<open>Dbus_Connection\<close> (\<open>dbus.rs\<close>, \<open>proxy.rs\<close>): addresses, authentication, framing, the reply loop, method calls and the
    operations on units. Shown: exactly one message is read; a call returns the reply to it or its error.

  \<^bold>\<open>Cgroups\<close> (\<open>libcgroups/src\<close>).
  \<^item> \<open>Cgroup_Fs\<close> (\<open>common.rs\<close>): cgroup files, the setup, the processes of a cgroup, removal with retries, joining paths.
    Shown: a joined path stays below the root; listing is complete; retries are bounded.
  \<^item> \<open>Cgroup_Stats\<close> (\<open>stats.rs\<close>): the parsers of the statistics files.
  \<^item> \<open>Cgroup_V2_Controllers\<close>, \<open>Cgroup_V2_Manager\<close> (\<open>v2/*.rs\<close>): every controller and every operation of the manager. Shown:
    what \<open>apply\<close> writes stays inside the cgroup; \<open>add_task\<close> attaches the process; limits arrive in the files; freezing is
    confirmed; \<open>remove\<close> kills and removes.
  \<^item> \<open>Device_Rules\<close>, \<open>Device_Program\<close>, \<open>Device_Controller\<close> (\<open>v2/devices\<close>): the rule emulator, the eBPF program that it is
    compiled to, with an interpreter for the instructions used, and the replacement of the attached programs. Shown: the program decides as the rules say, and at no time is
    the cgroup without a program.
  \<^item> \<open>Systemd_Controllers\<close>, \<open>Systemd_Manager\<close> (\<open>systemd/*.rs\<close>): the translation into unit properties, the connection with its
    retries and every operation of the manager. Shown: the cgroup lies below the boundary of delegation; controllers
    are enabled only above the unit; device properties grant no more than the rules.

  \<^bold>\<open>Containers\<close> (\<open>libcontainer/src\<close>).
  \<^item> \<open>Container_State\<close> (\<open>signal.rs\<close>, \<open>container/state.rs\<close>, \<open>container/container.rs\<close>), \<open>Hooks\<close> (\<open>hooks.rs\<close>) and
    \<open>Container_Lifecycle\<close> (\<open>container/container_*.rs\<close>): the commands refine an abstract automaton of the OCI states; a
    rejected command has no effect; a container is started at most once; \<open>kill --all\<close> reaches every process; the root directory is
    removed last; success is persisted.
  \<^item> \<open>Container_Utils\<close> (\<open>utils.rs\<close>), \<open>User_Namespace\<close> (\<open>namespaces.rs\<close>, \<open>user_ns.rs\<close>): namespaces are entered in one
    order, and writing mappings never panics.
  \<^item> \<open>Spec_Validator\<close> (\<open>validator.rs\<close>, \<open>container/mount_validation.rs\<close>, \<open>sysctl\<close> of \<open>process/init/process.rs\<close>): the kernel
    parameters of an accepted specification are confined to the namespaces of the container.
  \<^item> \<open>Process_Network\<close>: processes that communicate over channels. The locale \<open>diamond\<close>, interpreted on the steps
    of a network, shows that the schedule does not influence the outcome, and that every run ends.
  \<^item> \<open>Process_Channel\<close> (\<open>channel.rs\<close>, \<open>process/channel.rs\<close>, \<open>process/message.rs\<close>): the messages and the operations of
    the senders and receivers, as programs of such a network.

  \<^bold>\<open>Bounds.\<close> \<open>read_exact\<close>, \<open>reply_loop\<close> and \<open>ebpf_run\<close> are partial functions, and the theorems about them show that they
  return. The walk of a cgroup tree has a bound on its depth, and it is shown that a bound above the depth of the
  tree suffices. The loop that waits for a process in \<open>systemd/manager.rs\<close> has a bound on its rounds, with the
  proof that a clock that advances ends it. All other loops are structural or have a termination proof.

  \<^bold>\<open>Not modelled.\<close> Floating point conversions are parameters. Cgroup v1 repeats the v2 manager over separate
  hierarchies and is left out, as is the choice between the managers. The root file system (\<open>rootfs\<close>), the terminal, network devices,
  seccomp, capabilities, AppArmor and the wrappers of \<open>syscall\<close> are sequences of system calls whose
  effect is the kernel's. The bodies of the main, intermediate and init process, the builders, checkpointing, Intel RDT and memory policies
  are not modelled yet. The crates \<open>youki\<close> and \<open>liboci-cli\<close> parse the command line and print; \<open>experiment\<close>, \<open>tests\<close>
  and \<open>tools\<close> are not part of the runtime.
\<close>

end
